(* ===== verification/Prelude.thy ===== *)
theory Prelude
  imports Main "HOL-Library.Word"
begin

text \<open>
  Shared vocabulary of the development: bytes, index search (the C++ loops that
  return a pointer to the first matching element are modelled by the index of that
  element), C string and memory primitives of the standard library, and the lemma
  collections the component theories feed.
\<close>

type_synonym byte = "8 word"
type_synonym bytes = "byte list"

named_theorems size_simps \<open>lengths of encoded fields and payloads\<close>
named_theorems frame_simps \<open>parts of the state an operation leaves alone\<close>
named_theorems outcome_simps \<open>projections of the operations' results\<close>

section \<open>First matching index\<close>

fun find_idx :: "('a \<Rightarrow> bool) \<Rightarrow> 'a list \<Rightarrow> nat option" where
  "find_idx P [] = None"
| "find_idx P (x # xs) = (if P x then Some 0 else map_option Suc (find_idx P xs))"

lemma find_idx_None_iff: "find_idx P xs = None \<longleftrightarrow> (\<forall>x \<in> set xs. \<not> P x)"
  by (induction xs) auto

lemma find_idx_Some_iff:
  "find_idx P xs = Some i \<longleftrightarrow> i < length xs \<and> P (xs ! i) \<and> (\<forall>j < i. \<not> P (xs ! j))"
proof (induction xs arbitrary: i)
  case (Cons x xs)
  show ?case
    by (cases i) (auto simp: Cons.IH less_Suc_eq_0_disj)
qed simp

lemma find_idx_SomeD:
  assumes "find_idx P xs = Some i"
  shows "i < length xs" and "P (xs ! i)"
  using assms by (simp_all add: find_idx_Some_iff)

lemma find_idx_nth_mem: "find_idx P xs = Some i \<Longrightarrow> xs ! i \<in> set xs"
  by (simp add: find_idx_Some_iff)

lemma find_idx_append:
  "find_idx P (xs @ ys) =
     (case find_idx P xs of Some i \<Rightarrow> Some i | None \<Rightarrow> map_option (\<lambda>j. length xs + j) (find_idx P ys))"
proof (induction xs)
  case Nil
  show ?case by (cases "find_idx P ys") auto
next
  case (Cons x xs)
  then show ?case by (cases "find_idx P xs"; cases "find_idx P ys") auto
qed

lemma find_idx_cong:
  "length xs = length ys \<Longrightarrow> (\<And>j. j < length xs \<Longrightarrow> P (xs ! j) = Q (ys ! j))
     \<Longrightarrow> find_idx P xs = find_idx Q ys"
proof (induction xs ys rule: list_induct2)
  case (Cons x xs y ys)
  have "P x = Q y" using Cons.prems[of 0] by simp
  moreover have "find_idx P xs = find_idx Q ys"
    by (rule Cons.IH) (use Cons.prems[of "Suc _"] in simp)
  ultimately show ?case by simp
qed simp

lemma find_idx_list_update:
  "P y = P (xs ! i) \<Longrightarrow> find_idx P (xs[i := y]) = find_idx P xs"
proof (rule find_idx_cong)
  fix j assume "P y = P (xs ! i)" and "j < length (xs[i := y])"
  then show "P (xs[i := y] ! j) = P (xs ! j)" by (cases "i = j") auto
qed simp

lemma find_idx_map: "find_idx P (map f xs) = find_idx (\<lambda>x. P (f x)) xs"
  by (induction xs) auto

text \<open>With a key that identifies elements, the search finds exactly the one index.\<close>

lemma find_idx_distinct:
  assumes "distinct (map f xs)" and "i < length xs"
  shows "find_idx (\<lambda>x. f x = f (xs ! i)) xs = Some i"
  using assms by (auto simp: find_idx_Some_iff nth_eq_iff_index_eq distinct_conv_nth)

section \<open>Updates of one list element\<close>

lemma map_list_update_same:
  "f y = f (xs ! i) \<Longrightarrow> map f (xs[i := y]) = map f xs"
  by (metis list_update_beyond list_update_id map_update not_le_imp_less nth_map)

lemma set_list_updateE:
  assumes "x \<in> set (xs[i := y])"
  obtains "x = y" | "x \<in> set xs"
  using assms set_update_subset_insert by fastforce

lemma list_all_update:
  "list_all P xs \<Longrightarrow> P y \<Longrightarrow> list_all P (xs[i := y])"
  by (auto simp: list_all_iff elim: set_list_updateE)

section \<open>C strings and memory\<close>

text \<open>
  \<open>cstr\<close> is the string a C reader sees through a pointer to the array: the bytes
  before the first NUL. It describes the read only if the array holds a NUL
  (\<open>terminated\<close>); otherwise the reader runs past the array.
\<close>

definition cstr :: "bytes \<Rightarrow> bytes" where
  "cstr xs = takeWhile (\<lambda>b. b \<noteq> 0) xs"

definition terminated :: "bytes \<Rightarrow> bool" where
  "terminated xs \<longleftrightarrow> 0 \<in> set xs"

definition zeros :: "nat \<Rightarrow> bytes" where
  "zeros n = replicate n 0"

text \<open>\<open>memcpy\<close> of \<open>n\<close> bytes of \<open>src\<close> to offset 0 of an array.\<close>

definition memcpy0 :: "bytes \<Rightarrow> bytes \<Rightarrow> nat \<Rightarrow> bytes" where
  "memcpy0 dst src n = take n src @ drop n dst"

lemma length_zeros [simp, size_simps]: "length (zeros n) = n"
  by (simp add: zeros_def)

lemma zeros_0 [simp]: "zeros 0 = []"
  by (simp add: zeros_def)

lemma drop_zeros [simp]: "drop k (zeros n) = zeros (n - k)"
  by (simp add: zeros_def)

lemma set_zeros: "set (zeros n) \<subseteq> {0}"
  by (auto simp: zeros_def)

lemma length_memcpy0 [size_simps]:
  "n \<le> length src \<Longrightarrow> n \<le> length dst \<Longrightarrow> length (memcpy0 dst src n) = length dst"
  by (simp add: memcpy0_def)

lemma take_memcpy0 [simp]:
  "n \<le> length src \<Longrightarrow> take n (memcpy0 dst src n) = take n src"
  by (simp add: memcpy0_def)

lemma cstr_append_zeros [simp]: "0 \<notin> set xs \<Longrightarrow> cstr (xs @ zeros n) = xs"
  unfolding cstr_def zeros_def
  by (subst takeWhile_append2) (cases n, auto)

lemma cstr_no_zero [simp]: "0 \<notin> set (cstr xs)"
  by (auto simp: cstr_def dest: set_takeWhileD)

lemma cstr_ident: "0 \<notin> set xs \<Longrightarrow> cstr xs = xs"
  by (auto simp: cstr_def takeWhile_eq_all_conv)

lemma cstr_idem [simp]: "cstr (cstr xs) = cstr xs"
  by (simp add: cstr_ident)

lemma length_cstr_le: "length (cstr xs) \<le> length xs"
  by (simp add: cstr_def length_takeWhile_le)

lemma cstr_take: "cstr (take n xs) = take n (cstr xs)"
  unfolding cstr_def
proof (induction xs arbitrary: n)
  case (Cons x xs)
  then show ?case by (cases n) auto
qed simp

lemma find_idx_nul: "find_idx (\<lambda>b. b = 0) xs = Some p \<Longrightarrow> take p xs = cstr xs"
proof (induction xs arbitrary: p)
  case (Cons x xs)
  then show ?case by (cases p) (auto simp: cstr_def split: if_splits)
qed simp

section \<open>Concatenations of fields\<close>

lemma concat_map_length:
  "(\<And>x. x \<in> set xs \<Longrightarrow> length (f x) = w) \<Longrightarrow> length (concat (map f xs)) = w * length xs"
  by (induction xs) auto

text \<open>A loop that appends one block per element.\<close>

lemma fold_append_blocks:
  "(\<And>x p. x \<in> set xs \<Longrightarrow> g x p = p @ f x) \<Longrightarrow> fold g xs p = p @ concat (map f xs)"
  by (induction xs arbitrary: p) auto

lemma take_append_len: "length xs = n \<Longrightarrow> take n (xs @ ys) = xs"
  by simp

lemma drop_append_len: "length xs = n \<Longrightarrow> drop n (xs @ ys) = ys"
  by simp

end
