(* ===== verification/Ordered_Map.thy ===== *)
theory Ordered_Map
  imports Prelude
begin

text \<open>
  \<open>std::map\<close>, which the program uses for sessions, contexts and connected clients
  (include/data.hpp, src/server/Server.hpp). Iteration order matters to the code (it
  fixes the order of recipients), so a map is its list of entries in key order. The
  locale states what the client code relies on; everything above this theory reasons
  with the facts of its interpretation.
\<close>

section \<open>The interface\<close>

locale ordered_map =
  fixes empty :: "'m"
    and find :: "'m \<Rightarrow> 'k::linorder \<Rightarrow> 'v option"
    and upd :: "'k \<Rightarrow> 'v \<Rightarrow> 'm \<Rightarrow> 'm"
    and del :: "'k \<Rightarrow> 'm \<Rightarrow> 'm"
    and entries :: "'m \<Rightarrow> ('k \<times> 'v) list"
    and wf :: "'m \<Rightarrow> bool"
  assumes wf_empty: "wf empty"
    and wf_upd: "wf m \<Longrightarrow> wf (upd k v m)"
    and wf_del: "wf m \<Longrightarrow> wf (del k m)"
    and find_empty: "find empty k = None"
    and find_upd: "wf m \<Longrightarrow> find (upd k v m) k' = (if k' = k then Some v else find m k')"
    and find_del: "wf m \<Longrightarrow> find (del k m) k' = (if k' = k then None else find m k')"
    and entries_order: "wf m \<Longrightarrow> sorted_wrt (<) (map fst (entries m))"
    and entries_find: "wf m \<Longrightarrow> (k, v) \<in> set (entries m) \<longleftrightarrow> find m k = Some v"
begin

lemma distinct_keys: "wf m \<Longrightarrow> distinct (map fst (entries m))"
  using entries_order strict_sorted_iff by blast

lemma keys_find: "wf m \<Longrightarrow> k \<in> fst ` set (entries m) \<longleftrightarrow> find m k \<noteq> None"
  using entries_find by force

lemma keys_eq_dom: "wf m \<Longrightarrow> fst ` set (entries m) = dom (find m)"
  using keys_find by (auto simp: dom_def)

lemma keys_sorted_list: "wf m \<Longrightarrow> map fst (entries m) = sorted_list_of_set (dom (find m))"
  using entries_order[of m] keys_eq_dom[of m]
  by (metis list.set_map sorted_list_of_set.idem_if_sorted_distinct strict_sorted_iff)

text \<open>A map is determined by its lookups.\<close>

lemma entries_ext:
  assumes "wf m" and "wf m'" and "\<And>k. find m k = find m' k"
  shows "entries m = entries m'"
proof (rule map_sorted_distinct_set_unique[where f = fst])
  show "set (entries m) = set (entries m')"
    using assms by (auto simp: entries_find)
  then show "inj_on fst (set (entries m) \<union> set (entries m'))"
    using distinct_keys[OF assms(1)] by (simp add: distinct_map)
  show "sorted (map fst (entries m))" "sorted (map fst (entries m'))"
    using assms entries_order strict_sorted_iff by blast+
  show "distinct (map fst (entries m))" "distinct (map fst (entries m'))"
    using assms distinct_keys by blast+
qed

lemma entries_upd_mem:
  "wf m \<Longrightarrow> (k', v') \<in> set (entries (upd k v m))
     \<longleftrightarrow> (if k' = k then v' = v else (k', v') \<in> set (entries m))"
  by (auto simp: entries_find wf_upd find_upd)

lemma entries_del_mem:
  "wf m \<Longrightarrow> (k', v') \<in> set (entries (del k m)) \<longleftrightarrow> k' \<noteq> k \<and> (k', v') \<in> set (entries m)"
  by (auto simp: entries_find wf_del find_del)

lemma keys_upd: "wf m \<Longrightarrow> fst ` set (entries (upd k v m)) = insert k (fst ` set (entries m))"
  by (auto simp: keys_eq_dom wf_upd find_upd split: if_splits)

lemma keys_del: "wf m \<Longrightarrow> fst ` set (entries (del k m)) = fst ` set (entries m) - {k}"
  by (auto simp: keys_eq_dom wf_del find_del split: if_splits)

lemma del_upd: "wf m \<Longrightarrow> find m k = None \<Longrightarrow> entries (del k (upd k v m)) = entries m"
  by (rule entries_ext) (auto simp: wf_upd wf_del find_upd find_del)

lemma upd_same: "wf m \<Longrightarrow> find m k = Some v \<Longrightarrow> entries (upd k v m) = entries m"
  by (rule entries_ext) (auto simp: wf_upd find_upd)

end

section \<open>The model\<close>

type_synonym ('k, 'v) omap = "('k \<times> 'v) list"

fun omap_find :: "('k::linorder, 'v) omap \<Rightarrow> 'k \<Rightarrow> 'v option" where
  "omap_find [] k = None"
| "omap_find ((k', v) # m) k = (if k = k' then Some v else omap_find m k)"

fun omap_set :: "'k::linorder \<Rightarrow> 'v \<Rightarrow> ('k, 'v) omap \<Rightarrow> ('k, 'v) omap" where
  "omap_set k v [] = [(k, v)]"
| "omap_set k v ((k', v') # m) =
     (if k < k' then (k, v) # (k', v') # m
      else if k = k' then (k, v) # m
      else (k', v') # omap_set k v m)"

fun omap_erase :: "'k::linorder \<Rightarrow> ('k, 'v) omap \<Rightarrow> ('k, 'v) omap" where
  "omap_erase k [] = []"
| "omap_erase k ((k', v') # m) = (if k = k' then m else (k', v') # omap_erase k m)"

definition omap_wf :: "('k::linorder, 'v) omap \<Rightarrow> bool" where
  "omap_wf m \<longleftrightarrow> sorted_wrt (<) (map fst m)"

definition omap_keys :: "('k, 'v) omap \<Rightarrow> 'k list" where
  "omap_keys m = map fst m"

lemma omap_find_map_of: "omap_find m = map_of m"
  by (rule ext, induction m) auto

lemma fst_set_omap_set: "fst ` set (omap_set k v m) = insert k (fst ` set m)"
  by (induction k v m rule: omap_set.induct) auto

lemma set_omap_erase: "set (omap_erase k m) \<subseteq> set m"
  by (induction m rule: omap_erase.induct) auto

lemma omap_wf_set: "omap_wf m \<Longrightarrow> omap_wf (omap_set k v m)"
  unfolding omap_wf_def
  by (induction k v m rule: omap_set.induct) (auto simp: fst_set_omap_set dest: order.strict_trans)

lemma omap_wf_erase: "omap_wf m \<Longrightarrow> omap_wf (omap_erase k m)"
  unfolding omap_wf_def
  by (induction k m rule: omap_erase.induct) (auto dest!: subsetD[OF set_omap_erase])

lemma omap_find_set: "omap_find (omap_set k v m) k' = (if k' = k then Some v else omap_find m k')"
  by (induction k v m rule: omap_set.induct) auto

lemma omap_find_erase:
  "omap_wf m \<Longrightarrow> omap_find (omap_erase k m) k' = (if k' = k then None else omap_find m k')"
  unfolding omap_wf_def
proof (induction k m rule: omap_erase.induct)
  case (2 k k1 v m)
  have "map_of m k1 = None" using "2.prems" by (auto simp: map_of_eq_None_iff)
  with 2 show ?case by (auto simp: omap_find_map_of)
qed simp

interpretation std_map: ordered_map "[]" omap_find omap_set omap_erase "\<lambda>m. m" omap_wf
proof (unfold_locales, goal_cases)
  case (8 m k v)
  then have "distinct (map fst m)"
    using strict_sorted_iff unfolding omap_wf_def by blast
  then show ?case by (simp add: omap_find_map_of)
qed (simp_all add: omap_wf_set omap_wf_erase omap_find_set omap_find_erase,
     simp_all add: omap_wf_def)

lemma omap_wf_Nil [simp]: "omap_wf []"
  by (rule std_map.wf_empty)

lemma omap_find_Nil [simp]: "omap_find [] = Map.empty"
  by (rule ext) simp

lemma omap_find_mem: "omap_find m k = Some v \<Longrightarrow> (k, v) \<in> set m"
  by (simp add: omap_find_map_of map_of_SomeD)

lemma set_omap_keys [simp]: "omap_wf m \<Longrightarrow> set (omap_keys m) = dom (omap_find m)"
  using std_map.keys_eq_dom by (simp add: omap_keys_def)

lemma omap_keys_sorted: "omap_wf m \<Longrightarrow> omap_keys m = sorted_list_of_set (dom (omap_find m))"
  using std_map.keys_sorted_list by (simp add: omap_keys_def)

lemma omap_keys_distinct: "omap_wf m \<Longrightarrow> distinct (omap_keys m)"
  using std_map.distinct_keys by (simp add: omap_keys_def)

lemma dom_omap_set [simp]: "dom (omap_find (omap_set k v m)) = insert k (dom (omap_find m))"
  by (auto simp: omap_find_set split: if_splits)

lemma dom_omap_erase [simp]:
  "omap_wf m \<Longrightarrow> dom (omap_find (omap_erase k m)) = dom (omap_find m) - {k}"
  by (auto simp: omap_find_erase split: if_splits)

text \<open>Extensionality for maps in the model's representation.\<close>

lemma omap_eqI: "omap_wf m \<Longrightarrow> omap_wf m' \<Longrightarrow> (\<And>k. omap_find m k = omap_find m' k) \<Longrightarrow> m = m'"
  by (rule std_map.entries_ext)

end
