(* ===== verification/Endian.thy ===== *)
theory Endian
  imports Prelude
begin

text \<open>
  Byte order. The C++ code turns integers into wire bytes by copying the memory of a
  value that went through \<open>htons\<close>, \<open>htonl\<close> or its own \<open>htonll\<close>
  (src/server/handlers/mtp_detail.hpp) and back by \<open>memcpy\<close> and \<open>ntohs\<close>, \<open>ntohl\<close>
  or the hand-written swap of \<open>read_i64\<close> (src/client/Helpers.cpp). Both halves are
  modelled: how a host lays an integer out in memory, and what the swaps compute.
  The lemmas show that the composition is the big-endian encoding on every host.
\<close>

unbundle bit_operations_syntax

type_synonym u16 = "16 word"
type_synonym u32 = "32 word"
type_synonym u64 = "64 word"

section \<open>Host memory\<close>

datatype endian = Little | Big

definition be_bytes16 :: "u16 \<Rightarrow> bytes" where
  "be_bytes16 x = [ucast (drop_bit 8 x), ucast x]"

definition be_bytes32 :: "u32 \<Rightarrow> bytes" where
  "be_bytes32 x = [ucast (drop_bit 24 x), ucast (drop_bit 16 x), ucast (drop_bit 8 x), ucast x]"

definition be_bytes64 :: "u64 \<Rightarrow> bytes" where
  "be_bytes64 x =
     [ucast (drop_bit 56 x), ucast (drop_bit 48 x), ucast (drop_bit 40 x), ucast (drop_bit 32 x),
      ucast (drop_bit 24 x), ucast (drop_bit 16 x), ucast (drop_bit 8 x), ucast x]"

definition mem16 :: "endian \<Rightarrow> u16 \<Rightarrow> bytes" where
  "mem16 e x = (case e of Big \<Rightarrow> be_bytes16 x | Little \<Rightarrow> rev (be_bytes16 x))"

definition mem32 :: "endian \<Rightarrow> u32 \<Rightarrow> bytes" where
  "mem32 e x = (case e of Big \<Rightarrow> be_bytes32 x | Little \<Rightarrow> rev (be_bytes32 x))"

definition mem64 :: "endian \<Rightarrow> u64 \<Rightarrow> bytes" where
  "mem64 e x = (case e of Big \<Rightarrow> be_bytes64 x | Little \<Rightarrow> rev (be_bytes64 x))"

text \<open>Reading the integer back from memory (\<open>memcpy\<close> into a variable).\<close>

definition of_be16 :: "bytes \<Rightarrow> u16" where
  "of_be16 bs = push_bit 8 (ucast (bs ! 0)) OR ucast (bs ! 1)"

definition of_be32 :: "bytes \<Rightarrow> u32" where
  "of_be32 bs = push_bit 24 (ucast (bs ! 0)) OR push_bit 16 (ucast (bs ! 1))
     OR push_bit 8 (ucast (bs ! 2)) OR ucast (bs ! 3)"

definition of_be64 :: "bytes \<Rightarrow> u64" where
  "of_be64 bs = push_bit 56 (ucast (bs ! 0)) OR push_bit 48 (ucast (bs ! 1))
     OR push_bit 40 (ucast (bs ! 2)) OR push_bit 32 (ucast (bs ! 3))
     OR push_bit 24 (ucast (bs ! 4)) OR push_bit 16 (ucast (bs ! 5))
     OR push_bit 8 (ucast (bs ! 6)) OR ucast (bs ! 7)"

definition load16 :: "endian \<Rightarrow> bytes \<Rightarrow> u16" where
  "load16 e bs = (case e of Big \<Rightarrow> of_be16 (take 2 bs) | Little \<Rightarrow> of_be16 (rev (take 2 bs)))"

definition load32 :: "endian \<Rightarrow> bytes \<Rightarrow> u32" where
  "load32 e bs = (case e of Big \<Rightarrow> of_be32 (take 4 bs) | Little \<Rightarrow> of_be32 (rev (take 4 bs)))"

definition load64 :: "endian \<Rightarrow> bytes \<Rightarrow> u64" where
  "load64 e bs = (case e of Big \<Rightarrow> of_be64 (take 8 bs) | Little \<Rightarrow> of_be64 (rev (take 8 bs)))"

section \<open>The library's and the program's swaps\<close>

text \<open>\<open>htons\<close>, \<open>htonl\<close> of arpa/inet.h: swap on a little-endian host, identity otherwise.\<close>

definition htons :: "endian \<Rightarrow> u16 \<Rightarrow> u16" where
  "htons e x = (case e of Big \<Rightarrow> x | Little \<Rightarrow> push_bit 8 x OR drop_bit 8 x)"

definition htonl :: "endian \<Rightarrow> u32 \<Rightarrow> u32" where
  "htonl e x = (case e of Big \<Rightarrow> x
     | Little \<Rightarrow> push_bit 24 x OR push_bit 8 (x AND 0x0000FF00)
               OR drop_bit 8 (x AND 0x00FF0000) OR drop_bit 24 x)"

definition ntohs :: "endian \<Rightarrow> u16 \<Rightarrow> u16" where
  "ntohs e x = htons e x"

definition ntohl :: "endian \<Rightarrow> u32 \<Rightarrow> u32" where
  "ntohl e x = htonl e x"

text \<open>\<open>htonll\<close> of mtp_detail.hpp, with both branches of its preprocessor test.\<close>

definition htonll :: "endian \<Rightarrow> u64 \<Rightarrow> u64" where
  "htonll e x = (case e of
      Little \<Rightarrow> push_bit 32 (ucast (htonl e (ucast (x AND 0xFFFFFFFF))))
                 OR ucast (htonl e (ucast (drop_bit 32 x)))
    | Big \<Rightarrow> x)"

text \<open>The mask-and-shift expression of \<open>read_i64\<close> (src/client/Helpers.cpp), applied on any host.\<close>

definition swap_u64 :: "u64 \<Rightarrow> u64" where
  "swap_u64 u = push_bit 56 (u AND 0x00000000000000FF)
     OR push_bit 40 (u AND 0x000000000000FF00)
     OR push_bit 24 (u AND 0x0000000000FF0000)
     OR push_bit 8 (u AND 0x00000000FF000000)
     OR drop_bit 8 (u AND 0x000000FF00000000)
     OR drop_bit 24 (u AND 0x0000FF0000000000)
     OR drop_bit 40 (u AND 0x00FF000000000000)
     OR drop_bit 56 (u AND 0xFF00000000000000)"

text \<open>The host the program is built for: the Makefile targets Linux on x86-64.\<close>

definition host :: endian where
  "host = Little"

section \<open>Bit-level equality by enumeration\<close>

text \<open>
  Two words are equal if every one of their bits is; the index lists are spelled out so
  that the simplifier decides each bit on its own.
\<close>

lemma word_eq_enumI:
  fixes v w :: "'a::len word"
  assumes "list_all (\<lambda>n. bit v n = bit w n) [0..<LENGTH('a)]"
  shows "v = w"
  by (rule bit_word_eqI) (use assms in \<open>auto simp: list_all_iff\<close>)

lemma upt16: "[0..<16] = [(0::nat), 1, 2, 3, 4, 5, 6, 7, 8, 9, 10, 11, 12, 13, 14, 15]"
  by (simp add: upt_rec)

lemma upt32: "[0..<32] = [(0::nat), 1, 2, 3, 4, 5, 6, 7, 8, 9, 10, 11, 12, 13, 14, 15, 16, 17, 18, 19, 20, 21,
     22, 23, 24, 25, 26, 27, 28, 29, 30, 31]"
  by (simp add: upt_rec)

lemma upt64: "[0..<64] = [(0::nat), 1, 2, 3, 4, 5, 6, 7, 8, 9, 10, 11, 12, 13, 14, 15, 16, 17, 18, 19, 20, 21,
     22, 23, 24, 25, 26, 27, 28, 29, 30, 31, 32, 33, 34, 35, 36, 37, 38, 39, 40, 41, 42, 43,
     44, 45, 46, 47, 48, 49, 50, 51, 52, 53, 54, 55, 56, 57, 58, 59, 60, 61, 62, 63]"
  by (simp add: upt_rec)

lemma bit_byte_beyond: "8 \<le> n \<Longrightarrow> \<not> bit (b :: byte) n"
  using bit_imp_le_length[of b n] by auto

section \<open>Encoding and decoding are inverse\<close>

lemma length_be_bytes [simp, size_simps]:
  "length (be_bytes16 x) = 2" "length (be_bytes32 y) = 4" "length (be_bytes64 z) = 8"
  by (simp_all add: be_bytes16_def be_bytes32_def be_bytes64_def)

lemma of_be16_be_bytes [simp]: "of_be16 (be_bytes16 x) = x"
  by (rule word_eq_enumI) (simp add: of_be16_def be_bytes16_def bit_simps upt16)

lemma of_be32_be_bytes [simp]: "of_be32 (be_bytes32 x) = x"
  by (rule word_eq_enumI) (simp add: of_be32_def be_bytes32_def bit_simps upt32)

lemma of_be64_be_bytes [simp]: "of_be64 (be_bytes64 x) = x"
  by (rule word_eq_enumI) (simp add: of_be64_def be_bytes64_def bit_simps upt64)

lemma nth_append_fixed:
  "k < length xs \<Longrightarrow> (xs @ ys) ! k = xs ! k"
  by (simp add: nth_append)

lemma of_be_append [simp]:
  "of_be16 (be_bytes16 x @ bs) = x" "of_be32 (be_bytes32 y @ bs) = y"
  "of_be64 (be_bytes64 z @ bs) = z"
proof -
  show "of_be16 (be_bytes16 x @ bs) = x"
    using of_be16_be_bytes[of x] by (simp add: of_be16_def nth_append)
  show "of_be32 (be_bytes32 y @ bs) = y"
    using of_be32_be_bytes[of y] by (simp add: of_be32_def nth_append)
  show "of_be64 (be_bytes64 z @ bs) = z"
    using of_be64_be_bytes[of z] by (simp add: of_be64_def nth_append)
qed

section \<open>The swaps realise the network byte order\<close>

text \<open>A number is read off the first bytes only.\<close>

lemma of_be_prefix:
  "2 \<le> length bs \<Longrightarrow> of_be16 (bs @ more) = of_be16 bs"
  "4 \<le> length bs \<Longrightarrow> of_be32 (bs @ more) = of_be32 bs"
  "8 \<le> length bs \<Longrightarrow> of_be64 (bs @ more) = of_be64 bs"
  by (auto simp: of_be16_def of_be32_def of_be64_def nth_append)

lemma mem16_htons [simp]: "mem16 e (htons e x) = be_bytes16 x"
  by (cases e) (auto simp: mem16_def htons_def be_bytes16_def bit_simps upt_rec
      intro!: word_eq_enumI)

lemma mem32_htonl [simp]: "mem32 e (htonl e x) = be_bytes32 x"
  by (cases e) (auto simp: mem32_def htonl_def be_bytes32_def bit_simps upt_rec
      intro!: word_eq_enumI)

lemma mem64_htonll [simp]: "mem64 e (htonll e x) = be_bytes64 x"
  by (cases e) (auto simp: mem64_def htonll_def htonl_def be_bytes64_def bit_simps upt_rec
      intro!: word_eq_enumI)

lemma take_Cons_numeral_2: "2 \<le> length bs \<Longrightarrow> take 2 bs = [bs ! 0, bs ! 1]"
  by (rule nth_equalityI) (auto simp: less_2_cases_iff)

lemma take_4: "4 \<le> length bs \<Longrightarrow> take 4 bs = [bs ! 0, bs ! 1, bs ! 2, bs ! 3]"
  by (rule nth_equalityI) (auto simp: less_Suc_eq numeral_eq_Suc)

lemma take_8: "8 \<le> length bs \<Longrightarrow>
  take 8 bs = [bs ! 0, bs ! 1, bs ! 2, bs ! 3, bs ! 4, bs ! 5, bs ! 6, bs ! 7]"
  by (rule nth_equalityI) (auto simp: less_Suc_eq numeral_eq_Suc)

lemma ntohs_load16: "2 \<le> length bs \<Longrightarrow> ntohs e (load16 e bs) = of_be16 bs"
  by (cases e) (auto simp: bit_byte_beyond ntohs_def htons_def load16_def of_be16_def take_Cons_numeral_2
      bit_simps upt16 intro!: word_eq_enumI)

lemma ntohl_load32: "4 \<le> length bs \<Longrightarrow> ntohl e (load32 e bs) = of_be32 bs"
  by (cases e) (auto simp: bit_byte_beyond ntohl_def htonl_def load32_def of_be32_def take_4
      bit_simps upt32 intro!: word_eq_enumI)

lemma swap_u64_load64: "8 \<le> length bs \<Longrightarrow> swap_u64 (load64 Little bs) = of_be64 bs"
  by (simp add: swap_u64_def load64_def of_be64_def take_8)
    (rule word_eq_enumI, simp add: bit_byte_beyond bit_simps upt64)

lemma htonll_is_swap: "htonll Little x = swap_u64 x"
  by (rule word_eq_enumI) (simp add: htonll_def htonl_def swap_u64_def bit_simps upt64)

end
