(* ===== verification/Protocol.thy ===== *)
theory Protocol
  imports Endian
begin

text \<open>
  The protocol numbers of include/protocole.hpp: one datatype per C++ enumeration and
  the code each enumerator stands for. Lookup by code is the \<open>switch\<close> of the server's
  \<open>_dispatch\<close> and the chain of comparisons of the client's \<open>_handle_response\<close>; that
  all codes differ is what makes the order of those tests irrelevant.
\<close>

section \<open>Enumerations\<close>

datatype command =
  CMD_LOGIN | CMD_LOGOUT | CMD_USERS | CMD_USER | CMD_SEND | CMD_MESSAGES | CMD_SUBSCRIBE
| CMD_SUBSCRIBED | CMD_UNSUBSCRIBE | CMD_USE | CMD_CREATE | CMD_LIST | CMD_INFO

fun command_code :: "command \<Rightarrow> u16" where
  "command_code CMD_LOGIN = 0x01"
| "command_code CMD_LOGOUT = 0x02"
| "command_code CMD_USERS = 0x03"
| "command_code CMD_USER = 0x04"
| "command_code CMD_SEND = 0x05"
| "command_code CMD_MESSAGES = 0x06"
| "command_code CMD_SUBSCRIBE = 0x07"
| "command_code CMD_SUBSCRIBED = 0x08"
| "command_code CMD_UNSUBSCRIBE = 0x09"
| "command_code CMD_USE = 0x0A"
| "command_code CMD_CREATE = 0x0B"
| "command_code CMD_LIST = 0x0C"
| "command_code CMD_INFO = 0x0D"

datatype response =
  RES_LOGIN_OK | RES_LOGOUT_OK | RES_USERS_LIST | RES_USER_INFO | RES_SEND_OK
| RES_MESSAGES_LIST | RES_SUBSCRIBE_OK | RES_SUBSCRIBED_TEAMS | RES_SUBSCRIBED_USERS
| RES_UNSUBSCRIBE_OK | RES_TEAM_CREATED | RES_CHANNEL_CREATED | RES_THREAD_CREATED
| RES_REPLY_CREATED | RES_LIST_TEAMS | RES_LIST_CHANNELS | RES_LIST_THREADS
| RES_LIST_REPLIES | RES_TEAM_INFO | RES_CHANNEL_INFO | RES_THREAD_INFO | RES_USER_DETAILS

datatype error =
  ERR_UNAUTHORIZED | ERR_UNKNOWN_TEAM | ERR_UNKNOWN_CHANNEL | ERR_UNKNOWN_THREAD
| ERR_UNKNOWN_USER | ERR_ALREADY_EXISTS | ERR_NOT_SUBSCRIBED | ERR_INVALID_COMMAND

datatype event =
  EVT_MESSAGE_RECEIVED | EVT_TEAM_CREATED | EVT_CHANNEL_CREATED | EVT_THREAD_CREATED
| EVT_REPLY_CREATED | EVT_USER_LOGGED_IN | EVT_USER_LOGGED_OUT

fun response_code :: "response \<Rightarrow> u16" where
  "response_code RES_LOGIN_OK = 0x10"
| "response_code RES_LOGOUT_OK = 0x11"
| "response_code RES_USERS_LIST = 0x12"
| "response_code RES_USER_INFO = 0x13"
| "response_code RES_SEND_OK = 0x14"
| "response_code RES_MESSAGES_LIST = 0x15"
| "response_code RES_SUBSCRIBE_OK = 0x16"
| "response_code RES_SUBSCRIBED_TEAMS = 0x17"
| "response_code RES_SUBSCRIBED_USERS = 0x18"
| "response_code RES_UNSUBSCRIBE_OK = 0x19"
| "response_code RES_TEAM_CREATED = 0x1A"
| "response_code RES_CHANNEL_CREATED = 0x1B"
| "response_code RES_THREAD_CREATED = 0x1C"
| "response_code RES_REPLY_CREATED = 0x1D"
| "response_code RES_LIST_TEAMS = 0x1E"
| "response_code RES_LIST_CHANNELS = 0x1F"
| "response_code RES_LIST_THREADS = 0x20"
| "response_code RES_LIST_REPLIES = 0x21"
| "response_code RES_TEAM_INFO = 0x22"
| "response_code RES_CHANNEL_INFO = 0x23"
| "response_code RES_THREAD_INFO = 0x24"
| "response_code RES_USER_DETAILS = 0x25"

fun error_code :: "error \<Rightarrow> u16" where
  "error_code ERR_UNAUTHORIZED = 0xE0"
| "error_code ERR_UNKNOWN_TEAM = 0xE1"
| "error_code ERR_UNKNOWN_CHANNEL = 0xE2"
| "error_code ERR_UNKNOWN_THREAD = 0xE3"
| "error_code ERR_UNKNOWN_USER = 0xE4"
| "error_code ERR_ALREADY_EXISTS = 0xE5"
| "error_code ERR_NOT_SUBSCRIBED = 0xE6"
| "error_code ERR_INVALID_COMMAND = 0xE7"

fun event_code :: "event \<Rightarrow> u16" where
  "event_code EVT_MESSAGE_RECEIVED = 0xF0"
| "event_code EVT_TEAM_CREATED = 0xF1"
| "event_code EVT_CHANNEL_CREATED = 0xF2"
| "event_code EVT_THREAD_CREATED = 0xF3"
| "event_code EVT_REPLY_CREATED = 0xF4"
| "event_code EVT_USER_LOGGED_IN = 0xF5"
| "event_code EVT_USER_LOGGED_OUT = 0xF6"

datatype use_level = USE_NONE | USE_TEAM | USE_CHANNEL | USE_THREAD

fun use_code :: "use_level \<Rightarrow> byte" where
  "use_code USE_NONE = 0x00"
| "use_code USE_TEAM = 0x01"
| "use_code USE_CHANNEL = 0x02"
| "use_code USE_THREAD = 0x03"

lemma use_code_inj [simp]: "use_code a = use_code b \<longleftrightarrow> a = b"
  by (cases a; cases b; simp)

section \<open>Context depth is an order\<close>

text \<open>
  \<open>UseLevel\<close> counts how deep a client has moved; the order of its codes is used by the
  invariant on contexts (a context at least as deep as a channel names a channel).
\<close>

instantiation use_level :: linorder
begin

definition less_eq_use_level :: "use_level \<Rightarrow> use_level \<Rightarrow> bool" where
  "less_eq_use_level a b \<longleftrightarrow> use_code a \<le> use_code b"

definition less_use_level :: "use_level \<Rightarrow> use_level \<Rightarrow> bool" where
  "less_use_level a b \<longleftrightarrow> use_code a < use_code b"

instance
proof
  fix x y z :: use_level
  show "(x < y) = (x \<le> y \<and> \<not> y \<le> x)"
    by (simp add: less_use_level_def less_eq_use_level_def less_le_not_le)
  show "x \<le> x"
    by (simp add: less_eq_use_level_def)
  show "x \<le> y \<or> y \<le> x"
    by (auto simp: less_eq_use_level_def)
  show "x \<le> y \<Longrightarrow> y \<le> z \<Longrightarrow> x \<le> z"
    by (auto simp: less_eq_use_level_def)
  show "x \<le> y \<Longrightarrow> y \<le> x \<Longrightarrow> x = y"
    unfolding less_eq_use_level_def by (metis order.antisym use_code_inj)
qed

end

lemma use_level_le_simps [simp]:
  "USE_TEAM \<le> USE_NONE \<longleftrightarrow> False" "USE_CHANNEL \<le> USE_NONE \<longleftrightarrow> False" "USE_THREAD \<le> USE_NONE \<longleftrightarrow> False"
  "USE_CHANNEL \<le> USE_TEAM \<longleftrightarrow> False" "USE_THREAD \<le> USE_TEAM \<longleftrightarrow> False"
  "USE_THREAD \<le> USE_CHANNEL \<longleftrightarrow> False"
  "USE_TEAM \<le> USE_CHANNEL" "USE_TEAM \<le> USE_THREAD" "USE_CHANNEL \<le> USE_THREAD"
  by (simp_all add: less_eq_use_level_def word_le_nat_alt)

section \<open>Lookup by code\<close>

datatype msg_code = Res response | Err error | Evt event

fun wire_code :: "msg_code \<Rightarrow> u16" where
  "wire_code (Res r) = response_code r"
| "wire_code (Err e) = error_code e"
| "wire_code (Evt v) = event_code v"

definition all_commands :: "command list" where
  "all_commands =
     [CMD_LOGIN, CMD_LOGOUT, CMD_USERS, CMD_USER, CMD_SEND, CMD_MESSAGES, CMD_SUBSCRIBE,
      CMD_SUBSCRIBED, CMD_UNSUBSCRIBE, CMD_USE, CMD_CREATE, CMD_LIST, CMD_INFO]"

definition all_responses :: "response list" where
  "all_responses =
     [RES_LOGIN_OK, RES_LOGOUT_OK, RES_USERS_LIST, RES_USER_INFO, RES_SEND_OK,
      RES_MESSAGES_LIST, RES_SUBSCRIBE_OK, RES_SUBSCRIBED_TEAMS, RES_SUBSCRIBED_USERS,
      RES_UNSUBSCRIBE_OK, RES_TEAM_CREATED, RES_CHANNEL_CREATED, RES_THREAD_CREATED,
      RES_REPLY_CREATED, RES_LIST_TEAMS, RES_LIST_CHANNELS, RES_LIST_THREADS,
      RES_LIST_REPLIES, RES_TEAM_INFO, RES_CHANNEL_INFO, RES_THREAD_INFO, RES_USER_DETAILS]"

definition all_errors :: "error list" where
  "all_errors =
     [ERR_UNAUTHORIZED, ERR_UNKNOWN_TEAM, ERR_UNKNOWN_CHANNEL, ERR_UNKNOWN_THREAD,
      ERR_UNKNOWN_USER, ERR_ALREADY_EXISTS, ERR_NOT_SUBSCRIBED, ERR_INVALID_COMMAND]"

definition all_events :: "event list" where
  "all_events =
     [EVT_MESSAGE_RECEIVED, EVT_TEAM_CREATED, EVT_CHANNEL_CREATED, EVT_THREAD_CREATED,
      EVT_REPLY_CREATED, EVT_USER_LOGGED_IN, EVT_USER_LOGGED_OUT]"

definition all_msgs :: "msg_code list" where
  "all_msgs = map Res all_responses @ map Err all_errors @ map Evt all_events"

definition command_of_code :: "u16 \<Rightarrow> command option" where
  "command_of_code c = List.find (\<lambda>k. command_code k = c) all_commands"

definition msg_of_code :: "u16 \<Rightarrow> msg_code option" where
  "msg_of_code c = List.find (\<lambda>m. wire_code m = c) all_msgs"

lemmas all_msgs_defs = all_msgs_def all_responses_def all_errors_def all_events_def

lemma mem_all_commands [simp]: "k \<in> set all_commands"
  by (cases k) (simp_all add: all_commands_def)

lemma mem_all_msgs [simp]: "m \<in> set all_msgs"
proof (cases m)
  case (Res r)
  then show ?thesis by (cases r) (simp_all add: all_msgs_defs)
next
  case (Err e)
  then show ?thesis by (cases e) (simp_all add: all_msgs_defs)
next
  case (Evt v)
  then show ?thesis by (cases v) (simp_all add: all_msgs_defs)
qed

lemma distinct_command_codes: "distinct (map command_code all_commands)"
  by (simp add: all_commands_def)

lemma distinct_wire_codes: "distinct (map wire_code all_msgs)"
  by (simp add: all_msgs_defs)

text \<open>A search among elements with distinct keys finds the element itself.\<close>

lemma find_by_key:
  "distinct (map f xs) \<Longrightarrow> x \<in> set xs \<Longrightarrow> List.find (\<lambda>y. f y = f x) xs = Some x"
  by (induction xs) (auto simp: image_iff)

lemma command_of_code_code [simp]: "command_of_code (command_code k) = Some k"
  unfolding command_of_code_def by (rule find_by_key) (simp_all add: distinct_command_codes)

lemma msg_of_code_code [simp]: "msg_of_code (wire_code m) = Some m"
  unfolding msg_of_code_def by (rule find_by_key) (simp_all add: distinct_wire_codes)

lemma command_of_code_Some_iff: "command_of_code c = Some k \<longleftrightarrow> c = command_code k"
  using command_of_code_code[of k]
  by (auto simp: command_of_code_def find_Some_iff)

lemma command_code_inj [simp]: "command_code j = command_code k \<longleftrightarrow> j = k"
  by (metis command_of_code_code option.inject)

lemma wire_code_inj [simp]: "wire_code m = wire_code n \<longleftrightarrow> m = n"
  by (metis msg_of_code_code option.inject)

lemma response_code_inj [simp]: "response_code r = response_code s \<longleftrightarrow> r = s"
  using wire_code_inj[of "Res r" "Res s"] by simp

lemma error_code_inj [simp]: "error_code r = error_code s \<longleftrightarrow> r = s"
  using wire_code_inj[of "Err r" "Err s"] by simp

lemma event_code_inj [simp]: "event_code r = event_code s \<longleftrightarrow> r = s"
  using wire_code_inj[of "Evt r" "Evt s"] by simp

lemma code_families_disjoint [simp]:
  "response_code r \<noteq> error_code e" "error_code e \<noteq> response_code r"
  "response_code r \<noteq> event_code v" "event_code v \<noteq> response_code r"
  "error_code e \<noteq> event_code v" "event_code v \<noteq> error_code e"
  using wire_code_inj[of "Res r" "Err e"] wire_code_inj[of "Res r" "Evt v"]
    wire_code_inj[of "Err e" "Evt v"] by auto

end
