(* ===== verification/Data_Model.thy ===== *)
theory Data_Model
  imports Ordered_Map Protocol
begin

text \<open>
  The data of include/data.hpp and include/mtp.hpp: one record per struct, fields in
  the order of the C++ declarations. A fixed \<open>char\<close> array is the list of its bytes, a
  \<open>std::string\<close> the list of its bytes, a \<open>std::vector\<close> a list, a \<open>std::map\<close> an ordered
  map; \<open>time_t\<close> is a 64-bit value and a file descriptor an integer. The theory also
  states what a well-formed server state is.
\<close>

section \<open>Sizes\<close>

definition MAX_NAME_LENGTH :: nat where "MAX_NAME_LENGTH = 32"
definition MAX_DESCRIPTION_LENGTH :: nat where "MAX_DESCRIPTION_LENGTH = 255"
definition MAX_BODY_LENGTH :: nat where "MAX_BODY_LENGTH = 512"
definition UUID_STR_LEN :: nat where "UUID_STR_LEN = 37"

lemmas size_consts [simp] =
  MAX_NAME_LENGTH_def MAX_DESCRIPTION_LENGTH_def MAX_BODY_LENGTH_def UUID_STR_LEN_def

section \<open>Entities\<close>

record reply_t =
  reply_uuid :: bytes
  reply_creator_uuid :: bytes
  reply_body :: bytes
  reply_timestamp :: u64

record thread_t =
  thread_uuid :: bytes
  thread_creator_uuid :: bytes
  thread_title :: bytes
  thread_body :: bytes
  thread_timestamp :: u64
  thread_replies :: "reply_t list"

record channel_t =
  channel_uuid :: bytes
  channel_name :: bytes
  channel_description :: bytes
  channel_threads :: "thread_t list"

record team_t =
  team_uuid :: bytes
  team_name :: bytes
  team_description :: bytes
  team_channels :: "channel_t list"
  team_member_uuids :: "bytes list"

record message_t =
  msg_sender_uuid :: bytes
  msg_receiver_uuid :: bytes
  msg_body :: bytes
  msg_timestamp :: u64

record user_t =
  user_uuid :: bytes
  user_name :: bytes
  user_is_logged :: bool
  user_fd :: int

record client_context_t =
  ctx_level :: byte
  ctx_team_uuid :: bytes
  ctx_channel_uuid :: bytes
  ctx_thread_uuid :: bytes

record server_data_t =
  users :: "user_t list"
  sessions :: "(int, bytes) omap"
  client_contexts :: "(int, client_context_t) omap"
  teams :: "team_t list"
  messages :: "message_t list"

text \<open>The value-initialised context \<open>client_context_t{}\<close> and the empty server data.\<close>

definition context0 :: client_context_t where
  "context0 = \<lparr>ctx_level = use_code USE_NONE, ctx_team_uuid = zeros UUID_STR_LEN,
     ctx_channel_uuid = zeros UUID_STR_LEN, ctx_thread_uuid = zeros UUID_STR_LEN\<rparr>"

definition server_data0 :: server_data_t where
  "server_data0 = \<lparr>users = [], sessions = [], client_contexts = [], teams = [], messages = []\<rparr>"

section \<open>Packets and results (include/mtp.hpp)\<close>

record packet =
  pk_code :: u16
  pk_bytes :: bytes

record push =
  push_packet :: packet
  push_fds :: "int list"

record result_t =
  res_response :: packet
  res_pushes :: "push list"

text \<open>
  Calls into the logging library (libs/myteams/logging_server.h), which is not part of
  the sources: an operation records the calls it makes, each argument as the contents of
  the array or string whose address is passed.
\<close>

datatype log_call =
  server_event_team_created bytes bytes bytes
| server_event_channel_created bytes bytes bytes
| server_event_thread_created bytes bytes bytes bytes bytes
| server_event_reply_created bytes bytes bytes
| server_event_user_subscribed bytes bytes
| server_event_user_unsubscribed bytes bytes
| server_event_user_created bytes bytes
| server_event_user_logged_in bytes
| server_event_user_logged_out bytes
| server_event_private_message_sended bytes bytes bytes

text \<open>What a handler yields: its result, its logging calls, and the updated data.\<close>

type_synonym outcome = "result_t \<times> log_call list \<times> server_data_t"

abbreviation out_result :: "outcome \<Rightarrow> result_t" where "out_result r \<equiv> fst r"
abbreviation out_logs :: "outcome \<Rightarrow> log_call list" where "out_logs r \<equiv> fst (snd r)"
abbreviation out_data :: "outcome \<Rightarrow> server_data_t" where "out_data r \<equiv> snd (snd r)"

section \<open>Well-formed data\<close>

text \<open>A \<open>char[37]\<close> holding a UUID as \<open>uuid_unparse\<close> writes it: 36 non-NUL bytes and a NUL.\<close>

definition valid_uuid37 :: "bytes \<Rightarrow> bool" where
  "valid_uuid37 u \<longleftrightarrow> length u = 37 \<and> u ! 36 = 0 \<and> 0 \<notin> set (take 36 u)"

text \<open>The same UUID as the program carries it in a \<open>std::string\<close>.\<close>

definition valid_uuid36 :: "bytes \<Rightarrow> bool" where
  "valid_uuid36 u \<longleftrightarrow> length u = 36 \<and> 0 \<notin> set u"

definition wf_user :: "user_t \<Rightarrow> bool" where
  "wf_user u \<longleftrightarrow> valid_uuid37 (user_uuid u) \<and> length (user_name u) = 32"

text \<open>
  Everything stored in the tree of teams is relative to the set of known user UUIDs:
  authors and members are users the server knows.
\<close>

definition wf_reply :: "bytes set \<Rightarrow> reply_t \<Rightarrow> bool" where
  "wf_reply ids r \<longleftrightarrow> valid_uuid37 (reply_uuid r) \<and> valid_uuid37 (reply_creator_uuid r)
     \<and> cstr (reply_creator_uuid r) \<in> ids \<and> length (reply_body r) = 512"

definition wf_thread :: "bytes set \<Rightarrow> thread_t \<Rightarrow> bool" where
  "wf_thread ids t \<longleftrightarrow> valid_uuid37 (thread_uuid t) \<and> valid_uuid37 (thread_creator_uuid t)
     \<and> cstr (thread_creator_uuid t) \<in> ids
     \<and> length (thread_title t) = 32 \<and> length (thread_body t) = 512
     \<and> (\<forall>r \<in> set (thread_replies t). wf_reply ids r)
     \<and> distinct (map reply_uuid (thread_replies t))"

definition wf_channel :: "bytes set \<Rightarrow> channel_t \<Rightarrow> bool" where
  "wf_channel ids c \<longleftrightarrow> valid_uuid37 (channel_uuid c) \<and> length (channel_name c) = 32
     \<and> length (channel_description c) = 255
     \<and> (\<forall>t \<in> set (channel_threads c). wf_thread ids t)
     \<and> distinct (map thread_uuid (channel_threads c))"

definition wf_team :: "bytes set \<Rightarrow> team_t \<Rightarrow> bool" where
  "wf_team ids t \<longleftrightarrow> valid_uuid37 (team_uuid t) \<and> length (team_name t) = 32
     \<and> length (team_description t) = 255
     \<and> (\<forall>c \<in> set (team_channels t). wf_channel ids c)
     \<and> distinct (map channel_uuid (team_channels t))
     \<and> set (team_member_uuids t) \<subseteq> ids
     \<and> distinct (team_member_uuids t)"

definition wf_message :: "bytes set \<Rightarrow> message_t \<Rightarrow> bool" where
  "wf_message ids m \<longleftrightarrow> valid_uuid37 (msg_sender_uuid m) \<and> valid_uuid37 (msg_receiver_uuid m)
     \<and> cstr (msg_sender_uuid m) \<in> ids \<and> cstr (msg_receiver_uuid m) \<in> ids
     \<and> length (msg_body m) = 512"

text \<open>The UUIDs of the known users, as strings.\<close>

definition user_ids :: "server_data_t \<Rightarrow> bytes set" where
  "user_ids d = (\<lambda>u. cstr (user_uuid u)) ` set (users d)"

lemma valid_uuid37_take:
  assumes "valid_uuid37 u"
  shows "u = take 36 u @ [0]"
proof -
  have "take (Suc 36) u = take 36 u @ [u ! 36]"
    by (rule take_Suc_conv_app_nth) (use assms in \<open>simp add: valid_uuid37_def\<close>)
  then show ?thesis using assms by (simp add: valid_uuid37_def)
qed

lemma valid_uuid37_cstr:
  assumes "valid_uuid37 u"
  shows "cstr u = take 36 u"
proof -
  have "cstr (take 36 u @ zeros 1) = take 36 u"
    using assms by (intro cstr_append_zeros) (simp add: valid_uuid37_def)
  then show ?thesis
    using valid_uuid37_take[OF assms] by (simp add: zeros_def)
qed

lemma valid_uuid37_split: "valid_uuid37 u \<Longrightarrow> u = cstr u @ [0]"
  using valid_uuid37_take valid_uuid37_cstr by simp

lemma valid_uuid37_inj: "valid_uuid37 u \<Longrightarrow> valid_uuid37 v \<Longrightarrow> cstr u = cstr v \<longleftrightarrow> u = v"
  using valid_uuid37_split by metis

lemma valid_uuid36_cstr: "valid_uuid37 u \<Longrightarrow> valid_uuid36 (cstr u)"
  by (simp add: valid_uuid36_def valid_uuid37_cstr) (simp add: valid_uuid37_def)

lemma valid_uuid37_of_36: "valid_uuid36 u \<Longrightarrow> valid_uuid37 (u @ [0])"
  by (simp add: valid_uuid36_def valid_uuid37_def nth_append)

lemma valid_uuid36_no_nul [simp]: "valid_uuid36 u \<Longrightarrow> cstr u = u"
  by (simp add: valid_uuid36_def cstr_ident)

lemma valid_uuid_length:
  "valid_uuid37 u \<Longrightarrow> length u = 37" "valid_uuid36 v \<Longrightarrow> length v = 36"
  by (simp_all add: valid_uuid37_def valid_uuid36_def)

lemma valid_uuid37_terminated: "valid_uuid37 u \<Longrightarrow> terminated u"
  by (metis in_set_conv_decomp terminated_def valid_uuid37_split)

lemma wf_entity_mono:
  assumes "ids \<subseteq> ids'"
  shows "wf_reply ids r \<Longrightarrow> wf_reply ids' r" and "wf_thread ids t \<Longrightarrow> wf_thread ids' t"
    and "wf_channel ids c \<Longrightarrow> wf_channel ids' c" and "wf_team ids tm \<Longrightarrow> wf_team ids' tm"
    and "wf_message ids m \<Longrightarrow> wf_message ids' m"
  using assms
  by (auto simp: wf_reply_def wf_thread_def wf_channel_def wf_team_def wf_message_def)

lemma wf_channel_nth: "wf_team ids t \<Longrightarrow> j < length (team_channels t) \<Longrightarrow> wf_channel ids (team_channels t ! j)"
  by (simp add: wf_team_def)

lemma wf_thread_nth: "wf_channel ids c \<Longrightarrow> k < length (channel_threads c) \<Longrightarrow> wf_thread ids (channel_threads c ! k)"
  by (simp add: wf_channel_def)

lemma wf_reply_nth: "wf_thread ids t \<Longrightarrow> k < length (thread_replies t) \<Longrightarrow> wf_reply ids (thread_replies t ! k)"
  by (simp add: wf_thread_def)

lemmas wf_entity_defs =
  wf_user_def wf_reply_def wf_thread_def wf_channel_def wf_team_def wf_message_def

end
