(* ===== verification/Wire.thy ===== *)
theory Wire
  imports Data_Model
begin

text \<open>
  Serialisation helpers of src/server/handlers/mtp_detail.hpp: a payload is built by
  appending fixed-width fields; \<open>make_message\<close> prefixes the 6-byte header. The lemmas
  give the byte layout and the lengths of what is built.
\<close>

definition kHeaderSize :: nat where "kHeaderSize = 6"
definition kUuidWireSize :: nat where "kUuidWireSize = 36"
definition kNameWireSize :: nat where "kNameWireSize = MAX_NAME_LENGTH"
definition kDescWireSize :: nat where "kDescWireSize = MAX_DESCRIPTION_LENGTH"

lemmas wire_consts [simp] =
  kHeaderSize_def kUuidWireSize_def kNameWireSize_def kDescWireSize_def

definition make_message :: "u16 \<Rightarrow> bytes \<Rightarrow> bytes" where
  "make_message code payload =
     (let cmd_be = htons host code;
          size_be = htonl host (word_of_nat (length payload))
      in mem16 host cmd_be @ mem32 host size_be @ payload)"

text \<open>\<open>append_fixed\<close> copies \<open>n\<close> bytes from an address: the first \<open>n\<close> bytes of the array.\<close>

definition append_fixed :: "bytes \<Rightarrow> bytes \<Rightarrow> nat \<Rightarrow> bytes" where
  "append_fixed out data n = out @ take n data"

definition append_u32 :: "bytes \<Rightarrow> u32 \<Rightarrow> bytes" where
  "append_u32 out v = append_fixed out (mem32 host (htonl host v)) 4"

definition append_i64 :: "bytes \<Rightarrow> u64 \<Rightarrow> bytes" where
  "append_i64 out v = append_fixed out (mem64 host (htonll host v)) 8"

definition append_uuid36 :: "bytes \<Rightarrow> bytes \<Rightarrow> bytes" where
  "append_uuid36 out uuid37 = append_fixed out uuid37 kUuidWireSize"

definition append_name32 :: "bytes \<Rightarrow> bytes \<Rightarrow> bytes" where
  "append_name32 out name32 = append_fixed out name32 kNameWireSize"

definition trim_padded_name :: "bytes \<Rightarrow> bytes" where
  "trim_padded_name name =
     (case find_idx (\<lambda>b. b = 0) name of Some null_pos \<Rightarrow> take null_pos name | None \<Rightarrow> name)"

definition set_fixed_name :: "bytes \<Rightarrow> bytes" where
  "set_fixed_name name =
     memcpy0 (zeros MAX_NAME_LENGTH) name (min (length name) MAX_NAME_LENGTH)"

section \<open>Layout\<close>

lemma make_message_layout:
  "make_message c p = be_bytes16 c @ be_bytes32 (word_of_nat (length p)) @ p"
  by (simp add: make_message_def Let_def)

lemma length_make_message [simp, size_simps]: "length (make_message c p) = 6 + length p"
  by (simp add: make_message_layout)

lemma make_message_neq_Nil [simp]: "make_message c p \<noteq> []"
  using length_make_message[of c p] by fastforce

lemma append_u32_layout: "append_u32 out v = out @ be_bytes32 v"
  by (simp add: append_u32_def append_fixed_def)

lemma append_i64_layout: "append_i64 out v = out @ be_bytes64 v"
  by (simp add: append_i64_def append_fixed_def)

lemmas append_defs =
  append_u32_layout append_i64_layout append_uuid36_def append_name32_def append_fixed_def

lemma trim_padded_name_cstr: "trim_padded_name name = cstr name"
  by (auto simp: trim_padded_name_def find_idx_nul find_idx_None_iff cstr_ident split: option.splits)

lemma length_set_fixed_name [simp, size_simps]: "length (set_fixed_name n) = 32"
  by (simp add: set_fixed_name_def memcpy0_def)

lemma set_fixed_name_short: "length n \<le> 32 \<Longrightarrow> set_fixed_name n = n @ zeros (32 - length n)"
  by (simp add: set_fixed_name_def memcpy0_def)

lemma set_fixed_name_long: "32 \<le> length n \<Longrightarrow> set_fixed_name n = take 32 n"
  by (simp add: set_fixed_name_def memcpy0_def min_def)

lemma cstr_set_fixed_name:
  assumes "0 \<notin> set n"
  shows "cstr (set_fixed_name n) = take 32 n"
proof (cases "length n \<le> 32")
  case True
  with assms show ?thesis by (simp add: set_fixed_name_short)
next
  case False
  then have "set_fixed_name n = take 32 n" by (simp add: set_fixed_name_long)
  with assms show ?thesis by (simp add: cstr_take cstr_ident)
qed

end
