(* ===== verification/Lookup.thy ===== *)
theory Lookup
  imports Wire
begin

text \<open>
  The lookups of src/server/handlers/mtp_detail.hpp. A C++ function that returns a
  pointer into a vector returns the index of the element here, \<open>None\<close> for \<open>nullptr\<close>;
  writing through the pointer is a list update at that index.
\<close>

section \<open>Definitions\<close>

definition find_user_by_name :: "server_data_t \<Rightarrow> bytes \<Rightarrow> nat option" where
  "find_user_by_name d name =
     find_idx (\<lambda>u. trim_padded_name (take MAX_NAME_LENGTH (user_name u)) = name) (users d)"

definition is_logged_in :: "server_data_t \<Rightarrow> int \<Rightarrow> bool" where
  "is_logged_in d fd \<longleftrightarrow> omap_find (sessions d) fd \<noteq> None"

definition is_user_online :: "server_data_t \<Rightarrow> user_t \<Rightarrow> bool" where
  "is_user_online d u = list_ex (\<lambda>kv. snd kv = cstr (user_uuid u)) (sessions d)"

definition is_uuid36 :: "bytes \<Rightarrow> bool" where
  "is_uuid36 uuid \<longleftrightarrow> length uuid = kUuidWireSize"

definition find_user_by_uuid :: "server_data_t \<Rightarrow> bytes \<Rightarrow> nat option" where
  "find_user_by_uuid d uuid36 =
     (if \<not> is_uuid36 uuid36 then None
      else find_idx (\<lambda>u. take kUuidWireSize (user_uuid u) = uuid36) (users d))"

definition find_team_by_uuid :: "server_data_t \<Rightarrow> bytes \<Rightarrow> nat option" where
  "find_team_by_uuid d uuid36 =
     (if \<not> is_uuid36 uuid36 then None
      else find_idx (\<lambda>t. take kUuidWireSize (team_uuid t) = uuid36) (teams d))"

definition is_subscribed_to :: "team_t \<Rightarrow> bytes \<Rightarrow> bool" where
  "is_subscribed_to t user \<longleftrightarrow> user \<in> set (team_member_uuids t)"

definition find_channel_by_uuid :: "team_t \<Rightarrow> bytes \<Rightarrow> nat option" where
  "find_channel_by_uuid t uuid36 =
     (if \<not> is_uuid36 uuid36 then None
      else find_idx (\<lambda>c. take kUuidWireSize (channel_uuid c) = uuid36) (team_channels t))"

definition find_thread_by_uuid :: "channel_t \<Rightarrow> bytes \<Rightarrow> nat option" where
  "find_thread_by_uuid c uuid36 =
     (if \<not> is_uuid36 uuid36 then None
      else find_idx (\<lambda>t. take kUuidWireSize (thread_uuid t) = uuid36) (channel_threads c))"

definition logged_fds :: "server_data_t \<Rightarrow> int list" where
  "logged_fds d = map fst (sessions d)"

definition team_member_fds :: "server_data_t \<Rightarrow> team_t \<Rightarrow> int list" where
  "team_member_fds d t = map fst (filter (\<lambda>kv. is_subscribed_to t (snd kv)) (sessions d))"

section \<open>What a successful lookup returns\<close>

lemma find_user_by_nameD:
  assumes "find_user_by_name d name = Some i"
  shows "i < length (users d)" and "cstr (take 32 (user_name (users d ! i))) = name"
  using find_idx_SomeD[OF assms[unfolded find_user_by_name_def]]
  by (simp_all add: trim_padded_name_cstr)

lemma find_user_by_uuidD:
  assumes "find_user_by_uuid d uuid = Some i"
  shows "i < length (users d)" and "take 36 (user_uuid (users d ! i)) = uuid"
    and "length uuid = 36"
  using assms find_idx_SomeD
  by (fastforce simp: find_user_by_uuid_def is_uuid36_def split: if_splits)+

lemma find_team_by_uuidD:
  assumes "find_team_by_uuid d uuid = Some i"
  shows "i < length (teams d)" and "take 36 (team_uuid (teams d ! i)) = uuid"
    and "length uuid = 36"
  using assms find_idx_SomeD
  by (fastforce simp: find_team_by_uuid_def is_uuid36_def split: if_splits)+

lemma find_channel_by_uuidD:
  assumes "find_channel_by_uuid t uuid = Some i"
  shows "i < length (team_channels t)" and "take 36 (channel_uuid (team_channels t ! i)) = uuid"
    and "length uuid = 36"
  using assms find_idx_SomeD
  by (fastforce simp: find_channel_by_uuid_def is_uuid36_def split: if_splits)+

lemma find_thread_by_uuidD:
  assumes "find_thread_by_uuid c uuid = Some i"
  shows "i < length (channel_threads c)" and "take 36 (thread_uuid (channel_threads c ! i)) = uuid"
    and "length uuid = 36"
  using assms find_idx_SomeD
  by (fastforce simp: find_thread_by_uuid_def is_uuid36_def split: if_splits)+

text \<open>Only the searched vector matters.\<close>

lemma find_user_by_uuid_cong:
  "users d' = users d \<Longrightarrow> find_user_by_uuid d' = find_user_by_uuid d"
  by (rule ext) (simp add: find_user_by_uuid_def)

lemma find_team_by_uuid_cong:
  "teams d' = teams d \<Longrightarrow> find_team_by_uuid d' = find_team_by_uuid d"
  by (rule ext) (simp add: find_team_by_uuid_def)

text \<open>Updates that keep the UUID, and appended elements, do not disturb a lookup.\<close>

lemma find_team_by_uuid_map:
  assumes "map team_uuid (teams d') = map team_uuid (teams d)"
  shows "find_team_by_uuid d' = find_team_by_uuid d"
proof
  fix uuid
  show "find_team_by_uuid d' uuid = find_team_by_uuid d uuid"
    using assms find_idx_map[of "\<lambda>y. take 36 y = uuid" team_uuid "teams d"]
      find_idx_map[of "\<lambda>y. take 36 y = uuid" team_uuid "teams d'"]
    by (simp add: find_team_by_uuid_def)
qed

lemma find_user_by_uuid_map:
  assumes "map user_uuid (users d') = map user_uuid (users d)"
  shows "find_user_by_uuid d' = find_user_by_uuid d"
proof
  fix uuid
  show "find_user_by_uuid d' uuid = find_user_by_uuid d uuid"
    using assms find_idx_map[of "\<lambda>y. take 36 y = uuid" user_uuid "users d"]
      find_idx_map[of "\<lambda>y. take 36 y = uuid" user_uuid "users d'"]
    by (simp add: find_user_by_uuid_def)
qed

lemma find_idx_append_keep: "find_idx P xs = Some i \<Longrightarrow> find_idx P (xs @ ys) = Some i"
  by (simp add: find_idx_append)

section \<open>Sessions\<close>

lemma is_user_online_iff:
  assumes "omap_wf (sessions d)"
  shows "is_user_online d u \<longleftrightarrow> (\<exists>fd. omap_find (sessions d) fd = Some (cstr (user_uuid u)))"
proof
  assume "is_user_online d u"
  then show "\<exists>fd. omap_find (sessions d) fd = Some (cstr (user_uuid u))"
    using std_map.entries_find[OF assms] by (auto simp: is_user_online_def list_ex_iff)
next
  assume "\<exists>fd. omap_find (sessions d) fd = Some (cstr (user_uuid u))"
  then obtain fd where "(fd, cstr (user_uuid u)) \<in> set (sessions d)"
    using omap_find_mem by metis
  then show "is_user_online d u"
    by (force simp: is_user_online_def list_ex_iff)
qed

lemma set_logged_fds [simp]:
  "omap_wf (sessions d) \<Longrightarrow> set (logged_fds d) = dom (omap_find (sessions d))"
  by (simp add: logged_fds_def std_map.keys_eq_dom)

lemma set_team_member_fds:
  "omap_wf (sessions d) \<Longrightarrow>
     fd \<in> set (team_member_fds d t) \<longleftrightarrow>
       (\<exists>u. omap_find (sessions d) fd = Some u \<and> u \<in> set (team_member_uuids t))"
  by (auto simp: team_member_fds_def is_subscribed_to_def std_map.entries_find[symmetric] image_iff)

lemma distinct_team_member_fds: "omap_wf (sessions d) \<Longrightarrow> distinct (team_member_fds d t)"
  by (metis distinct_map_filter std_map.distinct_keys team_member_fds_def)

end
