(* ===== verification/Invariant.thy ===== *)
theory Invariant
  imports Lookup "HOL-Library.Sublist"
begin

text \<open>
  The invariant of the server's data, the order in which states may grow, and the
  UUIDs a state uses. The handlers' theories show that each handler keeps the first,
  respects the second and adds at most the UUID it was given to the third.
\<close>

section \<open>Where a context points\<close>

definition resolve_team :: "server_data_t \<Rightarrow> client_context_t \<Rightarrow> nat option" where
  "resolve_team d ctx = find_team_by_uuid d (take kUuidWireSize (ctx_team_uuid ctx))"

definition resolve_channel :: "server_data_t \<Rightarrow> client_context_t \<Rightarrow> (nat \<times> nat) option" where
  "resolve_channel d ctx = (case resolve_team d ctx of None \<Rightarrow> None
     | Some ti \<Rightarrow> map_option (Pair ti)
         (find_channel_by_uuid (teams d ! ti) (take kUuidWireSize (ctx_channel_uuid ctx))))"

definition resolve_thread :: "server_data_t \<Rightarrow> client_context_t \<Rightarrow> (nat \<times> nat \<times> nat) option" where
  "resolve_thread d ctx = (case resolve_channel d ctx of None \<Rightarrow> None
     | Some (ti, ci) \<Rightarrow> map_option (\<lambda>hi. (ti, ci, hi))
         (find_thread_by_uuid (team_channels (teams d ! ti) ! ci)
            (take kUuidWireSize (ctx_thread_uuid ctx))))"

text \<open>A context is valid if its level is one of the four and everything down to it exists.\<close>

definition ctx_valid :: "server_data_t \<Rightarrow> client_context_t \<Rightarrow> bool" where
  "ctx_valid d ctx \<longleftrightarrow> (\<exists>l. ctx_level ctx = use_code l
     \<and> (USE_TEAM \<le> l \<longrightarrow> resolve_team d ctx \<noteq> None)
     \<and> (USE_CHANNEL \<le> l \<longrightarrow> resolve_channel d ctx \<noteq> None)
     \<and> (USE_THREAD \<le> l \<longrightarrow> resolve_thread d ctx \<noteq> None))"

section \<open>The invariant\<close>

definition wf_users :: "server_data_t \<Rightarrow> bool" where
  "wf_users d \<longleftrightarrow> (\<forall>u \<in> set (users d). wf_user u) \<and> distinct (map user_uuid (users d))"

text \<open>Every session belongs to a known user that is marked as logged in; contexts and sessions
  exist for the same descriptors.\<close>

definition wf_sessions :: "server_data_t \<Rightarrow> bool" where
  "wf_sessions d \<longleftrightarrow> omap_wf (sessions d) \<and> omap_wf (client_contexts d)
     \<and> (\<forall>fd s. omap_find (sessions d) fd = Some s \<longrightarrow>
          (\<exists>u \<in> set (users d). cstr (user_uuid u) = s \<and> user_is_logged u))
     \<and> dom (omap_find (client_contexts d)) = dom (omap_find (sessions d))"

definition wf_contexts :: "server_data_t \<Rightarrow> bool" where
  "wf_contexts d \<longleftrightarrow> (\<forall>fd c. omap_find (client_contexts d) fd = Some c \<longrightarrow> ctx_valid d c)"

definition wf_teams :: "server_data_t \<Rightarrow> bool" where
  "wf_teams d \<longleftrightarrow> (\<forall>t \<in> set (teams d). wf_team (user_ids d) t) \<and> distinct (map team_uuid (teams d))"

definition wf_messages :: "server_data_t \<Rightarrow> bool" where
  "wf_messages d \<longleftrightarrow> (\<forall>m \<in> set (messages d). wf_message (user_ids d) m)"

definition wf_data :: "server_data_t \<Rightarrow> bool" where
  "wf_data d \<longleftrightarrow> wf_users d \<and> wf_sessions d \<and> wf_contexts d \<and> wf_teams d \<and> wf_messages d"

lemmas wf_data_defs =
  wf_data_def wf_users_def wf_sessions_def wf_contexts_def wf_teams_def wf_messages_def

lemma wf_server_data0: "wf_data server_data0"
  by (simp add: wf_data_defs server_data0_def)

lemma wf_sessionsI:
  assumes "omap_wf (sessions d)" and "omap_wf (client_contexts d)"
    and "\<And>fd s. omap_find (sessions d) fd = Some s \<Longrightarrow>
          \<exists>u \<in> set (users d). cstr (user_uuid u) = s \<and> user_is_logged u"
    and "dom (omap_find (client_contexts d)) = dom (omap_find (sessions d))"
  shows "wf_sessions d"
  unfolding wf_sessions_def using assms by blast

text \<open>Rewriting the bookkeeping fields of one user.\<close>

lemma wf_users_update:
  assumes "wf_users d" and "i < length (users d)"
    and "user_uuid v = user_uuid (users d ! i)" and "user_name v = user_name (users d ! i)"
    and "users e = (users d)[i := v]"
  shows "wf_users e"
  using assms unfolding wf_users_def
  by (auto simp: wf_user_def map_list_update_same elim!: set_list_updateE)

section \<open>Consequences used by every handler\<close>

lemma wf_omaps [intro]:
  assumes "wf_data d"
  shows "omap_wf (sessions d)" and "omap_wf (client_contexts d)"
  using assms by (simp_all add: wf_data_defs)

lemma wf_session_user:
  assumes "wf_data d" and "omap_find (sessions d) fd = Some s"
  obtains i where "i < length (users d)" and "cstr (user_uuid (users d ! i)) = s"
    and "user_is_logged (users d ! i)" and "wf_user (users d ! i)"
    and "find_user_by_uuid d s = Some i"
proof -
  from assms obtain u where u: "u \<in> set (users d)" "cstr (user_uuid u) = s" "user_is_logged u"
    unfolding wf_data_defs by blast
  then obtain i where i: "i < length (users d)" "users d ! i = u"
    by (metis in_set_conv_nth)
  have wf: "\<And>v. v \<in> set (users d) \<Longrightarrow> valid_uuid37 (user_uuid v)"
    and dist: "distinct (map user_uuid (users d))"
    using assms(1) by (auto simp: wf_data_defs wf_user_def)
  have "find_idx (\<lambda>v. take 36 (user_uuid v) = s) (users d) =
      find_idx (\<lambda>v. user_uuid v = user_uuid (users d ! i)) (users d)"
    using wf u i by (intro find_idx_cong) (auto simp flip: valid_uuid37_cstr simp: valid_uuid37_inj)
  then have "find_user_by_uuid d s = Some i"
    using find_idx_distinct[OF dist i(1)] valid_uuid36_cstr[OF wf[OF u(1)]] u(2)
    by (auto simp: find_user_by_uuid_def is_uuid36_def valid_uuid_length)
  with that i u assms(1) show ?thesis by (auto simp: wf_data_defs)
qed

lemma wf_session_uuid:
  assumes "wf_data d" and "omap_find (sessions d) fd = Some s"
  shows "valid_uuid36 s" and "s \<in> user_ids d"
proof -
  obtain i where "i < length (users d)" "cstr (user_uuid (users d ! i)) = s" "wf_user (users d ! i)"
    using wf_session_user[OF assms] by metis
  then show "valid_uuid36 s" "s \<in> user_ids d"
    by (auto simp: wf_user_def user_ids_def intro: valid_uuid36_cstr)
qed

lemma wf_context_of_session:
  assumes "wf_data d" and "omap_find (sessions d) fd = Some s"
  obtains c where "omap_find (client_contexts d) fd = Some c" and "ctx_valid d c"
proof -
  have "fd \<in> dom (omap_find (client_contexts d))"
    using assms by (auto simp: wf_data_defs)
  then obtain c where "omap_find (client_contexts d) fd = Some c" by blast
  with that assms(1) show ?thesis by (auto simp: wf_data_defs)
qed

lemma wf_user_nth: "wf_data d \<Longrightarrow> i < length (users d) \<Longrightarrow> wf_user (users d ! i)"
  by (simp add: wf_data_defs)

lemma wf_team_nth: "wf_data d \<Longrightarrow> i < length (teams d) \<Longrightarrow> wf_team (user_ids d) (teams d ! i)"
  by (simp add: wf_data_defs)

lemma user_ids_valid: "wf_data d \<Longrightarrow> s \<in> user_ids d \<Longrightarrow> valid_uuid36 s"
  by (auto simp: user_ids_def wf_data_defs wf_user_def intro: valid_uuid36_cstr)

text \<open>In a well-formed state the 36 bytes of a UUID field are the UUID as a string.\<close>

lemma wf_user_take: "wf_user u \<Longrightarrow> take 36 (user_uuid u) = cstr (user_uuid u)"
  by (simp add: wf_user_def valid_uuid37_cstr)

lemma user_ids_nth: "i < length (users d) \<Longrightarrow> cstr (user_uuid (users d ! i)) \<in> user_ids d"
  by (auto simp: user_ids_def)

lemma find_user_by_uuid_total:
  assumes "wf_data d"
  shows "find_user_by_uuid d s \<noteq> None \<longleftrightarrow> s \<in> user_ids d"
proof
  assume "find_user_by_uuid d s \<noteq> None"
  then obtain i where "find_user_by_uuid d s = Some i" by blast
  from find_user_by_uuidD[OF this] show "s \<in> user_ids d"
    using wf_user_take[OF wf_user_nth[OF assms]] user_ids_nth[of i d] by auto
next
  assume s: "s \<in> user_ids d"
  then obtain u where u: "u \<in> set (users d)" "s = cstr (user_uuid u)"
    by (auto simp: user_ids_def)
  then have "take 36 (user_uuid u) = s"
    using assms wf_user_take by (auto simp: wf_data_defs)
  with u show "find_user_by_uuid d s \<noteq> None"
    using user_ids_valid[OF assms s]
    by (auto simp: find_user_by_uuid_def is_uuid36_def valid_uuid_length find_idx_None_iff)
qed

section \<open>Growth\<close>

text \<open>
  \<open>grows r xs ys\<close>: \<open>ys\<close> keeps the elements of \<open>xs\<close> at their places, each related by
  \<open>r\<close>, and may have more after them.
\<close>

definition grows :: "('a \<Rightarrow> 'a \<Rightarrow> bool) \<Rightarrow> 'a list \<Rightarrow> 'a list \<Rightarrow> bool" where
  "grows r xs ys \<longleftrightarrow> length xs \<le> length ys \<and> (\<forall>i < length xs. r (xs ! i) (ys ! i))"

definition user_le :: "user_t \<Rightarrow> user_t \<Rightarrow> bool" where
  "user_le u v \<longleftrightarrow> user_uuid v = user_uuid u \<and> user_name v = user_name u"

definition thread_le :: "thread_t \<Rightarrow> thread_t \<Rightarrow> bool" where
  "thread_le s t \<longleftrightarrow> thread_uuid t = thread_uuid s \<and> thread_creator_uuid t = thread_creator_uuid s
     \<and> thread_title t = thread_title s \<and> thread_body t = thread_body s
     \<and> thread_timestamp t = thread_timestamp s \<and> prefix (thread_replies s) (thread_replies t)"

definition channel_le :: "channel_t \<Rightarrow> channel_t \<Rightarrow> bool" where
  "channel_le c e \<longleftrightarrow> channel_uuid e = channel_uuid c \<and> channel_name e = channel_name c
     \<and> channel_description e = channel_description c
     \<and> grows thread_le (channel_threads c) (channel_threads e)"

definition team_le :: "team_t \<Rightarrow> team_t \<Rightarrow> bool" where
  "team_le s t \<longleftrightarrow> team_uuid t = team_uuid s \<and> team_name t = team_name s
     \<and> team_description t = team_description s
     \<and> grows channel_le (team_channels s) (team_channels t)"

definition data_le :: "server_data_t \<Rightarrow> server_data_t \<Rightarrow> bool" where
  "data_le d e \<longleftrightarrow> grows user_le (users d) (users e) \<and> grows team_le (teams d) (teams e)
     \<and> prefix (messages d) (messages e)"

lemma grows_refl: "(\<And>x. r x x) \<Longrightarrow> grows r xs xs"
  by (simp add: grows_def)

lemma grows_trans:
  assumes "\<And>x y z. r x y \<Longrightarrow> r y z \<Longrightarrow> r x z" and "grows r xs ys" and "grows r ys zs"
  shows "grows r xs zs"
  using assms unfolding grows_def by (meson le_trans less_le_trans)

lemma grows_append: "(\<And>x. r x x) \<Longrightarrow> grows r xs (xs @ ys)"
  by (simp add: grows_def nth_append)

lemma grows_update: "(\<And>x. r x x) \<Longrightarrow> r (xs ! i) y \<Longrightarrow> grows r xs (xs[i := y])"
  unfolding grows_def by (metis le_refl length_list_update nth_list_update nth_list_update_neq)

lemma user_le_refl [simp, intro]: "user_le u u"
  by (simp add: user_le_def)

lemma thread_le_refl [simp, intro]: "thread_le t t"
  by (simp add: thread_le_def)

lemma channel_le_refl [simp, intro]: "channel_le c c"
  by (simp add: channel_le_def grows_refl)

lemma team_le_refl [simp, intro]: "team_le t t"
  by (simp add: team_le_def grows_refl)

lemma data_le_refl [simp, intro]: "data_le d d"
  by (simp add: data_le_def grows_refl)

lemma user_le_trans: "user_le x y \<Longrightarrow> user_le y z \<Longrightarrow> user_le x z"
  by (simp add: user_le_def)

lemma thread_le_trans: "thread_le x y \<Longrightarrow> thread_le y z \<Longrightarrow> thread_le x z"
  by (auto simp: thread_le_def)

lemma channel_le_trans: "channel_le x y \<Longrightarrow> channel_le y z \<Longrightarrow> channel_le x z"
  by (auto simp: channel_le_def intro: grows_trans[of thread_le] thread_le_trans)

lemma team_le_trans: "team_le x y \<Longrightarrow> team_le y z \<Longrightarrow> team_le x z"
  by (auto simp: team_le_def intro: grows_trans[of channel_le] channel_le_trans)

lemma data_le_trans: "data_le x y \<Longrightarrow> data_le y z \<Longrightarrow> data_le x z"
  by (auto simp: data_le_def intro: grows_trans[of user_le] grows_trans[of team_le]
      user_le_trans team_le_trans)

text \<open>A lookup that succeeded keeps its answer when the searched list grows.\<close>

lemma find_idx_grows:
  assumes "find_idx P xs = Some i" and "grows r xs ys" and "\<And>x y. r x y \<Longrightarrow> P y = P x"
  shows "find_idx P ys = Some i"
  using assms unfolding find_idx_Some_iff grows_def
  by (metis less_le_trans order.strict_trans)

lemma find_user_le:
  "data_le d e \<Longrightarrow> find_user_by_uuid d s = Some i \<Longrightarrow> find_user_by_uuid e s = Some i"
  by (auto simp: find_user_by_uuid_def data_le_def user_le_def
      elim: find_idx_grows split: if_splits)

lemma find_team_le:
  "data_le d e \<Longrightarrow> find_team_by_uuid d s = Some i \<Longrightarrow> find_team_by_uuid e s = Some i"
  by (auto simp: find_team_by_uuid_def data_le_def team_le_def
      elim: find_idx_grows split: if_splits)

lemma find_channel_le:
  "team_le t t' \<Longrightarrow> find_channel_by_uuid t s = Some i \<Longrightarrow> find_channel_by_uuid t' s = Some i"
  by (auto simp: find_channel_by_uuid_def team_le_def channel_le_def
      elim: find_idx_grows split: if_splits)

lemma find_thread_le:
  "channel_le c c' \<Longrightarrow> find_thread_by_uuid c s = Some i \<Longrightarrow> find_thread_by_uuid c' s = Some i"
  by (auto simp: find_thread_by_uuid_def channel_le_def thread_le_def
      elim: find_idx_grows split: if_splits)

lemma data_le_team_nth: "data_le d e \<Longrightarrow> i < length (teams d) \<Longrightarrow> team_le (teams d ! i) (teams e ! i)"
  by (simp add: data_le_def grows_def)

lemma team_le_channel_nth:
  "team_le t t' \<Longrightarrow> i < length (team_channels t) \<Longrightarrow>
     channel_le (team_channels t ! i) (team_channels t' ! i)"
  by (simp add: team_le_def grows_def)

lemma resolve_team_le:
  "data_le d e \<Longrightarrow> resolve_team d c = Some i \<Longrightarrow> resolve_team e c = Some i"
  by (simp add: resolve_team_def find_team_le)

lemma resolve_teamD: "resolve_team d c = Some i \<Longrightarrow> i < length (teams d)"
  by (auto simp: resolve_team_def dest: find_team_by_uuidD)

lemma resolve_channelD:
  "resolve_channel d c = Some (i, j) \<Longrightarrow>
     resolve_team d c = Some i \<and> i < length (teams d) \<and> j < length (team_channels (teams d ! i))
     \<and> find_channel_by_uuid (teams d ! i) (take 36 (ctx_channel_uuid c)) = Some j"
  by (auto simp: resolve_channel_def dest: resolve_teamD find_channel_by_uuidD split: option.splits)

lemma resolve_threadD:
  "resolve_thread d c = Some (i, j, k) \<Longrightarrow>
     resolve_channel d c = Some (i, j)
     \<and> k < length (channel_threads (team_channels (teams d ! i) ! j))
     \<and> find_thread_by_uuid (team_channels (teams d ! i) ! j) (take 36 (ctx_thread_uuid c)) = Some k"
  by (auto simp: resolve_thread_def dest: find_thread_by_uuidD split: option.splits)

lemma resolve_channel_le:
  assumes "data_le d e" and "resolve_channel d c = Some p"
  shows "resolve_channel e c = Some p"
proof -
  obtain i j where p: "p = (i, j)" by (cases p)
  note D = resolve_channelD[OF assms(2)[unfolded p]]
  have "find_channel_by_uuid (teams e ! i) (take 36 (ctx_channel_uuid c)) = Some j"
    using D find_channel_le data_le_team_nth[OF assms(1)] by blast
  then show ?thesis
    using D resolve_team_le[OF assms(1)] by (simp add: resolve_channel_def p)
qed

lemma resolve_thread_le:
  assumes "data_le d e" and "resolve_thread d c = Some p"
  shows "resolve_thread e c = Some p"
proof -
  obtain i j k where p: "p = (i, j, k)" by (cases p)
  note D = resolve_threadD[OF assms(2)[unfolded p]]
  note E = resolve_channelD[OF D[THEN conjunct1]]
  have "channel_le (team_channels (teams d ! i) ! j) (team_channels (teams e ! i) ! j)"
    using E team_le_channel_nth data_le_team_nth[OF assms(1)] by blast
  then have "find_thread_by_uuid (team_channels (teams e ! i) ! j) (take 36 (ctx_thread_uuid c)) = Some k"
    using D find_thread_le by blast
  then show ?thesis
    using D resolve_channel_le[OF assms(1)] by (simp add: resolve_thread_def p)
qed

lemma ctx_valid_le: "data_le d e \<Longrightarrow> ctx_valid d c \<Longrightarrow> ctx_valid e c"
proof -
  assume le: "data_le d e" and "ctx_valid d c"
  then obtain l where l: "ctx_level c = use_code l"
    "USE_TEAM \<le> l \<longrightarrow> resolve_team d c \<noteq> None"
    "USE_CHANNEL \<le> l \<longrightarrow> resolve_channel d c \<noteq> None"
    "USE_THREAD \<le> l \<longrightarrow> resolve_thread d c \<noteq> None"
    unfolding ctx_valid_def by blast
  have "resolve_team d c \<noteq> None \<longrightarrow> resolve_team e c \<noteq> None"
    and "resolve_channel d c \<noteq> None \<longrightarrow> resolve_channel e c \<noteq> None"
    and "resolve_thread d c \<noteq> None \<longrightarrow> resolve_thread e c \<noteq> None"
    using resolve_team_le[OF le] resolve_channel_le[OF le] resolve_thread_le[OF le] by auto
  with l show ?thesis unfolding ctx_valid_def by blast
qed

lemma user_ids_le: "data_le d e \<Longrightarrow> user_ids d \<subseteq> user_ids e"
proof
  fix s assume le: "data_le d e" and "s \<in> user_ids d"
  then obtain i where "i < length (users d)" "s = cstr (user_uuid (users d ! i))"
    by (auto simp: user_ids_def in_set_conv_nth)
  with le show "s \<in> user_ids e"
    by (metis data_le_def grows_def less_le_trans user_ids_nth user_le_def)
qed

text \<open>Parts of the invariant under growth of the others.\<close>

lemma wf_users_append:
  "wf_users d \<Longrightarrow> wf_user u \<Longrightarrow> user_uuid u \<notin> user_uuid ` set (users d) \<Longrightarrow>
     users e = users d @ [u] \<Longrightarrow> wf_users e"
  by (auto simp: wf_users_def)

lemma wf_teams_ids:
  "wf_teams d \<Longrightarrow> user_ids d \<subseteq> user_ids e \<Longrightarrow> teams e = teams d \<Longrightarrow> wf_teams e"
  unfolding wf_teams_def using wf_entity_mono(4) by simp

lemma wf_messages_ids:
  "wf_messages d \<Longrightarrow> user_ids d \<subseteq> user_ids e \<Longrightarrow> messages e = messages d \<Longrightarrow> wf_messages e"
  unfolding wf_messages_def using wf_entity_mono(5) by simp

lemma wf_contexts_le:
  "wf_contexts d \<Longrightarrow> data_le d e \<Longrightarrow> client_contexts e = client_contexts d \<Longrightarrow> wf_contexts e"
  unfolding wf_contexts_def using ctx_valid_le by simp

lemma user_ids_users: "users e = users d \<Longrightarrow> user_ids e = user_ids d"
  by (simp add: user_ids_def)

text \<open>Changing or adding one team, adding one message.\<close>

lemma wf_teams_update:
  assumes "wf_teams d" and "wf_team (user_ids d) t" and "team_uuid t = team_uuid (teams d ! i)"
    and "teams e = (teams d)[i := t]" and "users e = users d"
  shows "wf_teams e"
proof -
  have "user_ids e = user_ids d" using assms(5) by (rule user_ids_users)
  then show ?thesis
    using assms(1-3) unfolding wf_teams_def assms(4)
    by (auto simp: map_list_update_same elim!: set_list_updateE)
qed

lemma wf_teams_append:
  assumes "wf_teams d" and "wf_team (user_ids d) t" and "team_uuid t \<notin> team_uuid ` set (teams d)"
    and "teams e = teams d @ [t]" and "users e = users d"
  shows "wf_teams e"
proof -
  have "user_ids e = user_ids d" using assms(5) by (rule user_ids_users)
  then show ?thesis
    using assms(1-3) unfolding wf_teams_def assms(4) by auto
qed

lemma wf_data_teams:
  assumes "wf_data d" and "data_le d e" and "users e = users d" and "sessions e = sessions d"
    and "client_contexts e = client_contexts d" and "messages e = messages d" and "wf_teams e"
  shows "wf_data e"
proof -
  have d: "wf_users d" "wf_sessions d" "wf_contexts d" "wf_messages d"
    using assms(1) by (simp_all add: wf_data_def)
  have "wf_contexts e" using d(3) assms(2,5) by (rule wf_contexts_le)
  moreover have "wf_messages e"
    using d(4) user_ids_le[OF assms(2)] assms(6) by (rule wf_messages_ids)
  moreover have "wf_users e" "wf_sessions e"
    using d(1,2) unfolding wf_users_def wf_sessions_def assms(3-5) by blast+
  ultimately show ?thesis using assms(7) by (simp add: wf_data_def)
qed

lemma wf_data_message:
  assumes "wf_data d" and "wf_message (user_ids d) m"
  shows "wf_data (d\<lparr>messages := messages d @ [m]\<rparr>)"
proof -
  let ?e = "d\<lparr>messages := messages d @ [m]\<rparr>"
  have d: "wf_users d" "wf_sessions d" "wf_contexts d" "wf_messages d" "wf_teams d"
    using assms(1) by (simp_all add: wf_data_def)
  have le: "data_le d ?e" by (simp add: data_le_def grows_refl)
  have "wf_contexts ?e" using d(3) le by (rule wf_contexts_le) simp
  moreover have "wf_teams ?e" using d(5) user_ids_le[OF le] by (rule wf_teams_ids) simp
  moreover have "wf_messages ?e"
    using d(4) assms(2) user_ids_users[of ?e d] by (simp add: wf_messages_def)
  moreover have "wf_users ?e" "wf_sessions ?e"
    using d(1,2) by (simp_all add: wf_users_def wf_sessions_def)
  ultimately show ?thesis by (simp add: wf_data_def)
qed

section \<open>UUIDs in use\<close>

definition channel_uuids :: "channel_t \<Rightarrow> bytes set" where
  "channel_uuids c = {channel_uuid c} \<union> thread_uuid ` set (channel_threads c)
     \<union> (\<Union>t \<in> set (channel_threads c). reply_uuid ` set (thread_replies t))"

definition team_uuids :: "team_t \<Rightarrow> bytes set" where
  "team_uuids t = {team_uuid t} \<union> (\<Union>c \<in> set (team_channels t). channel_uuids c)"

definition data_uuids :: "server_data_t \<Rightarrow> bytes set" where
  "data_uuids d = user_uuid ` set (users d) \<union> (\<Union>t \<in> set (teams d). team_uuids t)"

text \<open>
  What the code relies on when it calls \<open>new_uuid\<close>: libuuid writes a 36-character string
  with its NUL, and the UUID is not one already in use.
\<close>

definition fresh_uuid :: "bytes \<Rightarrow> server_data_t \<Rightarrow> bool" where
  "fresh_uuid u d \<longleftrightarrow> valid_uuid37 u \<and> u \<notin> data_uuids d"

lemma fresh_uuidD:
  assumes "fresh_uuid u d"
  shows "valid_uuid37 u" and "u \<notin> user_uuid ` set (users d)" and "u \<notin> team_uuid ` set (teams d)"
    and "t \<in> set (teams d) \<Longrightarrow> u \<notin> team_uuids t"
  using assms by (auto simp: fresh_uuid_def data_uuids_def team_uuids_def)

end
