(* ===== verification/Result.thy ===== *)
theory Result
  imports Invariant
begin

text \<open>
  Building a handler's result (include/mtp.hpp): the direct response, whose bytes are
  the framed payload, and pushes to other descriptors. Every handler ends in one of
  these shapes; an early return with an error leaves the data as it was.
\<close>

definition make_result :: "u16 \<Rightarrow> bytes \<Rightarrow> result_t" where
  "make_result code payload =
     \<lparr>res_response = \<lparr>pk_code = code, pk_bytes = make_message code payload\<rparr>, res_pushes = []\<rparr>"

definition make_push :: "u16 \<Rightarrow> bytes \<Rightarrow> int list \<Rightarrow> push" where
  "make_push code payload fds =
     \<lparr>push_packet = \<lparr>pk_code = code, pk_bytes = make_message code payload\<rparr>, push_fds = fds\<rparr>"

definition add_push :: "push \<Rightarrow> result_t \<Rightarrow> result_t" where
  "add_push p r = r\<lparr>res_pushes := res_pushes r @ [p]\<rparr>"

definition ok :: "response \<Rightarrow> bytes \<Rightarrow> result_t" where
  "ok code payload = make_result (response_code code) payload"

definition fail :: "error \<Rightarrow> bytes \<Rightarrow> server_data_t \<Rightarrow> outcome" where
  "fail e payload d = (make_result (error_code e) payload, [], d)"

section \<open>Projections\<close>

lemma make_result_sel [simp, outcome_simps]:
  "pk_code (res_response (make_result c p)) = c"
  "pk_bytes (res_response (make_result c p)) = make_message c p"
  "res_pushes (make_result c p) = []"
  by (simp_all add: make_result_def)

lemma make_push_sel [simp, outcome_simps]:
  "pk_code (push_packet (make_push c p fds)) = c"
  "pk_bytes (push_packet (make_push c p fds)) = make_message c p"
  "push_fds (make_push c p fds) = fds"
  by (simp_all add: make_push_def)

lemma add_push_sel [simp, outcome_simps]:
  "res_response (add_push p r) = res_response r"
  "res_pushes (add_push p r) = res_pushes r @ [p]"
  by (simp_all add: add_push_def)

lemma fail_sel [simp, outcome_simps]:
  "out_result (fail e p d) = make_result (error_code e) p"
  "out_logs (fail e p d) = []"
  "out_data (fail e p d) = d"
  by (simp_all add: fail_def)

section \<open>What every packet satisfies\<close>

text \<open>The bytes of a packet are the frame of its code and some payload.\<close>

definition framed :: "packet \<Rightarrow> bool" where
  "framed p \<longleftrightarrow> (\<exists>payload. pk_bytes p = make_message (pk_code p) payload)"

definition framed_result :: "result_t \<Rightarrow> bool" where
  "framed_result r \<longleftrightarrow> framed (res_response r) \<and> (\<forall>p \<in> set (res_pushes r). framed (push_packet p))"

lemma framed_make_result [simp, intro]: "framed_result (make_result c p)"
  by (auto simp: framed_result_def framed_def)

lemma framed_add_push [simp, intro]: "framed_result r \<Longrightarrow> framed_result (add_push (make_push c p fds) r)"
  by (auto simp: framed_result_def framed_def)

lemma ok_sel [simp, outcome_simps]:
  "pk_code (res_response (ok c p)) = response_code c"
  "pk_bytes (res_response (ok c p)) = make_message (response_code c) p"
  "res_pushes (ok c p) = []" "framed_result (ok c p)"
  by (simp_all add: ok_def)

end
