(* ===== verification/Auth.thy ===== *)
theory Auth
  imports Result
begin

text \<open>
  Login and logout (src/server/handlers/mtp_auth.cpp). \<open>fresh\<close> stands for the array that
  \<open>new_uuid\<close> fills, produced by libuuid.
\<close>

section \<open>Operations\<close>

text \<open>Find the user, or create it: the first half of \<open>handle_login\<close>.\<close>

definition login_user :: "bytes \<Rightarrow> int \<Rightarrow> bytes \<Rightarrow> server_data_t \<Rightarrow> server_data_t \<times> nat \<times> log_call list" where
  "login_user fresh fd name d =
     (case find_user_by_name d name of
        Some i \<Rightarrow> (d, i, [])
      | None \<Rightarrow>
          (let created = \<lparr>user_uuid = fresh, user_name = set_fixed_name name,
                          user_is_logged = True, user_fd = fd\<rparr>
           in (d\<lparr>users := users d @ [created]\<rparr>, length (users d),
               [server_event_user_created (user_uuid created) (user_name created)])))"

definition login_payload :: "user_t \<Rightarrow> bytes" where
  "login_payload u = append_name32 (append_uuid36 [] (user_uuid u)) (user_name u)"

text \<open>Open the session: the second half.\<close>

definition login_session :: "int \<Rightarrow> nat \<Rightarrow> server_data_t \<Rightarrow> server_data_t" where
  "login_session fd i d =
     (let user = (users d ! i)\<lparr>user_is_logged := True, user_fd := fd\<rparr>
      in d\<lparr>users := (users d)[i := user],
           sessions := omap_set fd (cstr (user_uuid user)) (sessions d),
           client_contexts := omap_set fd context0 (client_contexts d)\<rparr>)"

definition handle_login :: "bytes \<Rightarrow> int \<Rightarrow> bytes \<Rightarrow> server_data_t \<Rightarrow> outcome" where
  "handle_login fresh fd name0 d =
     (let name = trim_padded_name name0;
          (d1, i, logs) = login_user fresh fd name d;
          was_online = is_user_online d1 (users d1 ! i);
          d2 = login_session fd i d1;
          user = users d2 ! i;
          payload = login_payload user;
          res = ok RES_LOGIN_OK payload
      in if was_online then (res, logs, d2)
         else (add_push (make_push (event_code EVT_USER_LOGGED_IN) payload (map fst (sessions d2))) res,
               logs @ [server_event_user_logged_in (user_uuid user)], d2))"

text \<open>\<open>handle_logout\<close>: close the session, and tell the others if it was the user's last one.\<close>

definition logout_payload :: "server_data_t \<Rightarrow> bytes \<Rightarrow> bytes" where
  "logout_payload d uuid =
     (case find_idx (\<lambda>u. take kUuidWireSize (user_uuid u) = uuid) (users d) of
        Some i \<Rightarrow> append_name32 (append_fixed [] uuid kUuidWireSize) (user_name (users d ! i))
      | None \<Rightarrow> append_fixed (append_fixed [] uuid kUuidWireSize) (zeros kNameWireSize) kNameWireSize)"

definition still_online :: "int \<Rightarrow> bytes \<Rightarrow> server_data_t \<Rightarrow> bool" where
  "still_online fd uuid d = list_ex (\<lambda>kv. snd kv = uuid) (omap_erase fd (sessions d))"

definition logout_session :: "int \<Rightarrow> bytes \<Rightarrow> server_data_t \<Rightarrow> server_data_t" where
  "logout_session fd uuid d =
     d\<lparr>users := (case find_idx (\<lambda>u. take kUuidWireSize (user_uuid u) = uuid) (users d) of
          Some i \<Rightarrow> (users d)[i := (users d ! i)\<lparr>user_is_logged := still_online fd uuid d\<rparr>]
        | None \<Rightarrow> users d),
       sessions := omap_erase fd (sessions d),
       client_contexts := omap_erase fd (client_contexts d)\<rparr>"

definition handle_logout :: "int \<Rightarrow> server_data_t \<Rightarrow> outcome" where
  "handle_logout fd d =
     (case omap_find (sessions d) fd of
        None \<Rightarrow> fail ERR_UNAUTHORIZED [] d
      | Some uuid \<Rightarrow>
          (let payload = logout_payload d uuid;
               res = ok RES_LOGOUT_OK payload;
               d' = logout_session fd uuid d
           in if still_online fd uuid d then (res, [], d')
              else (add_push (make_push (event_code EVT_USER_LOGGED_OUT) payload
                                (map fst (sessions d') @ [fd])) res,
                    [server_event_user_logged_out uuid], d')))"

section \<open>Finding or creating the user\<close>

lemma login_user_frame [frame_simps]:
  assumes "login_user fresh fd name d = (d1, i, logs)"
  shows "sessions d1 = sessions d" and "client_contexts d1 = client_contexts d"
    and "teams d1 = teams d" and "messages d1 = messages d" and "i < length (users d1)"
  using assms
  by (auto simp: login_user_def Let_def split: option.splits dest: find_user_by_nameD)

lemma login_user_le: "login_user fresh fd name d = (d1, i, logs) \<Longrightarrow> data_le d d1"
  by (auto simp: login_user_def Let_def data_le_def grows_append grows_refl split: option.splits)

lemma login_user_name:
  assumes "login_user fresh fd name d = (d1, i, logs)" and "0 \<notin> set name"
    and "\<And>u. u \<in> set (users d) \<Longrightarrow> length (user_name u) = 32"
  shows "cstr (user_name (users d1 ! i)) = take 32 name"
proof (cases "find_user_by_name d name")
  case None
  with assms show ?thesis
    by (auto simp: login_user_def cstr_set_fixed_name)
next
  case (Some j)
  then have j: "j < length (users d)" "cstr (take 32 (user_name (users d ! j))) = name"
    by (simp_all add: find_user_by_nameD)
  with assms(3)[of "users d ! j"] have "cstr (user_name (users d ! j)) = name"
    by simp
  with length_cstr_le[of "user_name (users d ! j)"] assms(3)[of "users d ! j"] j
  have "length name \<le> 32" by simp
  with j assms Some \<open>cstr (user_name (users d ! j)) = name\<close> show ?thesis
    by (auto simp: login_user_def)
qed

lemma login_user_wf:
  assumes "login_user fresh fd name d = (d1, i, logs)" and "wf_data d" and "fresh_uuid fresh d"
  shows "wf_users d1" and "wf_teams d1" and "wf_messages d1"
    and "\<forall>fd s. omap_find (sessions d1) fd = Some s \<longrightarrow>
          (\<exists>u \<in> set (users d1). cstr (user_uuid u) = s \<and> user_is_logged u)"
proof -
  have ids: "user_ids d \<subseteq> user_ids d1"
    using login_user_le[OF assms(1)] by (rule user_ids_le)
  note frame = login_user_frame[OF assms(1)]
  have d: "wf_users d" "wf_teams d" "wf_messages d"
    using assms(2) by (simp_all add: wf_data_def)
  show "wf_users d1"
  proof (cases "find_user_by_name d name")
    case None
    let ?c = "\<lparr>user_uuid = fresh, user_name = set_fixed_name name,
        user_is_logged = True, user_fd = fd\<rparr>"
    have "wf_user ?c" and "user_uuid ?c \<notin> user_uuid ` set (users d)"
      using fresh_uuidD[OF assms(3)] by (simp_all add: wf_user_def)
    moreover have "users d1 = users d @ [?c]"
      using None assms(1) by (auto simp: login_user_def)
    ultimately show ?thesis by (rule wf_users_append[OF d(1)])
  qed (use d(1) assms(1) in \<open>simp add: login_user_def\<close>)
  show "wf_teams d1" using d(2) ids frame(3) by (rule wf_teams_ids)
  show "wf_messages d1" using d(3) ids frame(4) by (rule wf_messages_ids)
  have "set (users d) \<subseteq> set (users d1)"
    using assms(1) by (auto simp: login_user_def Let_def split: option.splits)
  moreover have "\<forall>fd s. omap_find (sessions d) fd = Some s \<longrightarrow>
          (\<exists>u \<in> set (users d). cstr (user_uuid u) = s \<and> user_is_logged u)"
    using assms(2) unfolding wf_data_def wf_sessions_def by blast
  ultimately show "\<forall>fd s. omap_find (sessions d1) fd = Some s \<longrightarrow>
          (\<exists>u \<in> set (users d1). cstr (user_uuid u) = s \<and> user_is_logged u)"
    unfolding frame(1) by blast
qed

section \<open>Opening and closing a session\<close>

lemma login_session_sel [simp]:
  "sessions (login_session fd i d) = omap_set fd (cstr (user_uuid (users d ! i))) (sessions d)"
  "client_contexts (login_session fd i d) = omap_set fd context0 (client_contexts d)"
  "teams (login_session fd i d) = teams d" "messages (login_session fd i d) = messages d"
  "users (login_session fd i d) =
     (users d)[i := (users d ! i)\<lparr>user_is_logged := True, user_fd := fd\<rparr>]"
  by (simp_all add: login_session_def Let_def)

lemma login_session_le: "i < length (users d) \<Longrightarrow> data_le d (login_session fd i d)"
  by (auto simp: data_le_def grows_refl intro!: grows_update) (simp add: user_le_def)

lemma logout_session_sel [simp]:
  "sessions (logout_session fd s d) = omap_erase fd (sessions d)"
  "client_contexts (logout_session fd s d) = omap_erase fd (client_contexts d)"
  "teams (logout_session fd s d) = teams d" "messages (logout_session fd s d) = messages d"
  by (simp_all add: logout_session_def)

lemma logout_session_le: "data_le d (logout_session fd s d)"
  by (auto simp: data_le_def logout_session_def grows_refl user_le_def
      intro!: grows_update split: option.splits)

text \<open>Rewriting the bookkeeping fields of users keeps what depends on UUIDs and names only.\<close>

lemma user_ids_map: "map user_uuid (users e) = map user_uuid (users d) \<Longrightarrow> user_ids e = user_ids d"
  unfolding user_ids_def by (metis image_image list.set_map)

lemma login_session_ids [simp]: "user_ids (login_session fd i d) = user_ids d"
  by (rule user_ids_map) (simp add: map_list_update_same)

lemma logout_session_uuids: "map user_uuid (users (logout_session fd s d)) = map user_uuid (users d)"
  by (auto simp: logout_session_def map_list_update_same split: option.splits)

lemma ctx_valid_context0 [simp]: "ctx_valid d context0"
  unfolding ctx_valid_def context0_def
  by (rule exI[of _ USE_NONE]) (simp add: less_eq_use_level_def)

lemma wf_contexts_upd:
  assumes "wf_contexts d" and "data_le d e" and "ctx_valid e c"
    and "client_contexts e = omap_set fd c (client_contexts d)"
  shows "wf_contexts e"
  using assms ctx_valid_le[OF assms(2)] by (auto simp: wf_contexts_def omap_find_set split: if_splits)

lemma wf_login_session:
  assumes "wf_users d" and "wf_teams d" and "wf_messages d" and "wf_contexts d"
    and "omap_wf (sessions d)" and "omap_wf (client_contexts d)"
    and "dom (omap_find (client_contexts d)) = dom (omap_find (sessions d))"
    and "\<forall>fd s. omap_find (sessions d) fd = Some s \<longrightarrow>
          (\<exists>u \<in> set (users d). cstr (user_uuid u) = s \<and> user_is_logged u)"
    and i: "i < length (users d)"
  shows "wf_data (login_session fd i d)"
proof -
  let ?e = "login_session fd i d" and ?u = "(users d ! i)\<lparr>user_is_logged := True, user_fd := fd\<rparr>"
  have u: "?u \<in> set (users ?e)"
    using i by (simp add: set_update_memI)
  have keep: "\<exists>v \<in> set (users ?e). cstr (user_uuid v) = s \<and> user_is_logged v"
    if "omap_find (sessions d) fd' = Some s" for fd' s
  proof -
    from that assms(8) obtain j where "j < length (users d)" "cstr (user_uuid (users d ! j)) = s"
      "user_is_logged (users d ! j)" by (metis in_set_conv_nth)
    then have "cstr (user_uuid (users ?e ! j)) = s \<and> user_is_logged (users ?e ! j)"
      and "j < length (users ?e)"
      by (cases "i = j", auto)
    then show ?thesis by (blast intro: nth_mem)
  qed
  have "wf_users ?e"
    using assms(1) i by (rule wf_users_update) simp_all
  moreover have "wf_sessions ?e"
  proof (rule wf_sessionsI)
    fix fd' s assume "omap_find (sessions ?e) fd' = Some s"
    then show "\<exists>v \<in> set (users ?e). cstr (user_uuid v) = s \<and> user_is_logged v"
    proof (cases "fd' = fd")
      case True
      with \<open>omap_find (sessions ?e) fd' = Some s\<close> have "cstr (user_uuid ?u) = s"
        by (simp add: omap_find_set)
      with u show ?thesis by (intro bexI[of _ ?u]) simp_all
    next
      case False
      with \<open>omap_find (sessions ?e) fd' = Some s\<close> show ?thesis
        by (intro keep) (simp add: omap_find_set)
    qed
  qed (use assms(5-7) in \<open>simp_all add: omap_wf_set\<close>)
  moreover have "wf_contexts ?e"
    using assms(4) login_session_le[OF i]
    by (rule wf_contexts_upd[where fd = fd and c = context0]) simp_all
  ultimately show ?thesis
    using assms(2,3) by (simp add: wf_data_def wf_teams_def wf_messages_def)
qed

lemma wf_handle_login:
  assumes "wf_data d" and "fresh_uuid fresh d"
  shows "wf_data (out_data (handle_login fresh fd name d))"
proof -
  obtain d1 i logs where l: "login_user fresh fd (trim_padded_name name) d = (d1, i, logs)"
    by (metis prod_cases3)
  note frame = login_user_frame[OF l]
  have "wf_contexts d1"
    using assms(1) ctx_valid_le[OF login_user_le[OF l]] frame by (simp add: wf_data_defs)
  then have "wf_data (login_session fd i d1)"
    using login_user_wf[OF l assms] frame assms(1)
    by (intro wf_login_session) (simp_all add: wf_data_defs)
  then show ?thesis using l by (simp add: handle_login_def Let_def)
qed

lemma handle_login_le: "data_le d (out_data (handle_login fresh fd name d))"
proof -
  obtain d1 i logs where l: "login_user fresh fd (trim_padded_name name) d = (d1, i, logs)"
    by (metis prod_cases3)
  have "data_le d1 (login_session fd i d1)"
    by (rule login_session_le) (rule login_user_frame[OF l])
  with login_user_le[OF l] show ?thesis
    using data_le_trans l by (auto simp: handle_login_def Let_def)
qed

text \<open>Closing a session: the other sessions of the same user keep it marked as logged in.\<close>

lemma still_online_iff:
  assumes "omap_wf (sessions d)"
  shows "still_online fd s d \<longleftrightarrow> (\<exists>fd'. fd' \<noteq> fd \<and> omap_find (sessions d) fd' = Some s)"
proof -
  have "still_online fd s d \<longleftrightarrow> (\<exists>fd'. (fd', s) \<in> set (omap_erase fd (sessions d)))"
    by (force simp: still_online_def list_ex_iff)
  then show ?thesis
    using std_map.entries_del_mem[OF assms] std_map.entries_find[OF assms] by auto
qed

lemma logout_users_logged:
  assumes "u \<in> set (users d)" and "user_is_logged u" and "wf_user u"
    and "cstr (user_uuid u) = t" and "t = s \<Longrightarrow> still_online fd s d"
  shows "\<exists>v \<in> set (users (logout_session fd s d)). cstr (user_uuid v) = t \<and> user_is_logged v"
proof -
  let ?e = "logout_session fd s d"
  obtain j where j: "j < length (users d)" "users d ! j = u"
    using assms(1) by (metis in_set_conv_nth)
  have "cstr (user_uuid (users ?e ! j)) = t \<and> user_is_logged (users ?e ! j)"
  proof (cases "find_idx (\<lambda>u. take 36 (user_uuid u) = s) (users d)")
    case None
    with assms j show ?thesis by (simp add: logout_session_def)
  next
    case (Some i)
    then have "take 36 (user_uuid (users d ! i)) = s" by (rule find_idx_SomeD)
    with Some assms j show ?thesis
      by (cases "i = j") (auto simp: logout_session_def wf_user_take)
  qed
  moreover have "j < length (users ?e)"
    using j by (simp add: logout_session_def split: option.splits)
  ultimately show ?thesis by (blast intro: nth_mem)
qed

lemma wf_logout_session:
  assumes wf: "wf_data d" and s: "omap_find (sessions d) fd = Some s"
  shows "wf_data (logout_session fd s d)"
proof -
  let ?e = "logout_session fd s d"
  have ids: "user_ids ?e = user_ids d"
    by (rule user_ids_map) (rule logout_session_uuids)
  have "\<exists>v \<in> set (users ?e). cstr (user_uuid v) = t \<and> user_is_logged v"
    if t: "omap_find (sessions ?e) fd' = Some t" for fd' t
  proof -
    have t': "omap_find (sessions d) fd' = Some t" "fd' \<noteq> fd"
      using t wf by (auto simp: omap_find_erase wf_omaps split: if_splits)
    then obtain i where "i < length (users d)" "cstr (user_uuid (users d ! i)) = t"
      "user_is_logged (users d ! i)" "wf_user (users d ! i)"
      using wf_session_user[OF wf] by metis
    then show ?thesis
      using t' wf by (intro logout_users_logged[where u = "users d ! i"])
        (auto simp: still_online_iff wf_omaps)
  qed
  then have "wf_sessions ?e"
    using wf by (intro wf_sessionsI) (simp_all add: wf_data_def wf_sessions_def omap_wf_erase)
  moreover have "wf_users ?e"
  proof (cases "find_idx (\<lambda>u. take 36 (user_uuid u) = s) (users d)")
    case None
    with wf show ?thesis by (simp add: logout_session_def wf_data_def wf_users_def)
  next
    case (Some i)
    with wf show ?thesis
      by (intro wf_users_update[of d i _ ?e])
        (auto simp: logout_session_def wf_data_def dest: find_idx_SomeD)
  qed
  moreover have "wf_contexts ?e"
    using wf ctx_valid_le[OF logout_session_le]
    by (auto simp: wf_data_defs omap_find_erase split: if_splits)
  moreover have "wf_teams ?e" "wf_messages ?e"
    using wf ids by (simp_all add: wf_data_defs)
  ultimately show ?thesis by (simp add: wf_data_def)
qed

lemma wf_handle_logout: "wf_data d \<Longrightarrow> wf_data (out_data (handle_logout fd d))"
  by (auto simp: handle_logout_def Let_def wf_logout_session split: option.splits)

lemma handle_logout_le: "data_le d (out_data (handle_logout fd d))"
  by (auto simp: handle_logout_def Let_def logout_session_le split: option.splits)

end
