(* ===== verification/Messages.thy ===== *)
theory Messages
  imports Result
begin

text \<open>
  Private messages (src/server/handlers/mtp_messages.cpp). \<open>now\<close> is the value of
  \<open>std::time(nullptr)\<close> when the handler runs.
\<close>

section \<open>Operations\<close>

definition make_private_message :: "bytes \<Rightarrow> bytes \<Rightarrow> bytes \<Rightarrow> u64 \<Rightarrow> message_t" where
  "make_private_message sender receiver body now =
     (let sender' = memcpy0 (zeros UUID_STR_LEN) sender (min (length sender) kUuidWireSize);
          receiver' = memcpy0 (zeros UUID_STR_LEN) receiver kUuidWireSize;
          trimmed = trim_padded_name body;
          copy_len = min (length trimmed) MAX_BODY_LENGTH
      in \<lparr>msg_sender_uuid = sender'[kUuidWireSize := 0],
          msg_receiver_uuid = receiver'[kUuidWireSize := 0],
          msg_body = memcpy0 (zeros MAX_BODY_LENGTH) trimmed copy_len,
          msg_timestamp = now\<rparr>)"

definition handle_send :: "u64 \<Rightarrow> int \<Rightarrow> bytes \<Rightarrow> bytes \<Rightarrow> server_data_t \<Rightarrow> outcome" where
  "handle_send now fd receiver_uuid body d =
     (case omap_find (sessions d) fd of
        None \<Rightarrow> fail ERR_UNAUTHORIZED [] d
      | Some sender_uuid \<Rightarrow>
          if \<not> is_uuid36 receiver_uuid then fail ERR_INVALID_COMMAND [] d
          else (case find_user_by_uuid d receiver_uuid of
              None \<Rightarrow> fail ERR_UNKNOWN_USER (append_fixed [] receiver_uuid kUuidWireSize) d
            | Some i \<Rightarrow>
                (let msg = make_private_message sender_uuid receiver_uuid body now;
                     receiver = users d ! i;
                     d' = d\<lparr>messages := messages d @ [msg]\<rparr>;
                     evt_payload = append_fixed (append_fixed [] sender_uuid kUuidWireSize)
                                     (msg_body msg) MAX_BODY_LENGTH;
                     fds = map fst (filter (\<lambda>kv. snd kv = take kUuidWireSize (user_uuid receiver))
                                      (sessions d'));
                     res = ok RES_SEND_OK []
                 in (if fds \<noteq> [] then add_push (make_push (event_code EVT_MESSAGE_RECEIVED) evt_payload fds) res
                     else res,
                     [server_event_private_message_sended sender_uuid (user_uuid receiver) (msg_body msg)],
                     d'))))"

text \<open>The messages exchanged between two users, oldest first.\<close>

definition between :: "bytes \<Rightarrow> bytes \<Rightarrow> message_t \<Rightarrow> bool" where
  "between self other m \<longleftrightarrow>
     (let sender = take kUuidWireSize (msg_sender_uuid m);
          receiver = take kUuidWireSize (msg_receiver_uuid m)
      in (sender = self \<and> receiver = other) \<or> (sender = other \<and> receiver = self))"

definition append_private_message :: "message_t \<Rightarrow> bytes \<Rightarrow> bytes" where
  "append_private_message m payload =
     (let p1 = append_fixed payload (msg_sender_uuid m) kUuidWireSize;
          p2 = append_fixed p1 (msg_receiver_uuid m) kUuidWireSize;
          p3 = append_i64 p2 (msg_timestamp m)
      in append_fixed p3 (msg_body m) MAX_BODY_LENGTH)"

definition handle_messages :: "int \<Rightarrow> bytes \<Rightarrow> server_data_t \<Rightarrow> outcome" where
  "handle_messages fd uuid d =
     (case omap_find (sessions d) fd of
        None \<Rightarrow> fail ERR_UNAUTHORIZED [] d
      | Some self \<Rightarrow>
          if \<not> is_uuid36 uuid then fail ERR_INVALID_COMMAND [] d
          else if find_user_by_uuid d uuid = None
          then fail ERR_UNKNOWN_USER (append_fixed [] uuid kUuidWireSize) d
          else (let msgs = filter (between self uuid) (messages d);
                    payload = fold append_private_message msgs
                                (append_u32 [] (word_of_nat (length msgs)))
                in (ok RES_MESSAGES_LIST payload, [], d)))"

section \<open>The stored message\<close>

lemma list_update_last_nul: "length xs = 36 \<Longrightarrow> (xs @ zeros (Suc 0))[36 := 0] = xs @ [0]"
  by (simp add: zeros_def list_update_append)

lemma make_private_message_sel [simp]:
  assumes "length s = 36" and "length r = 36"
  shows "msg_sender_uuid (make_private_message s r body now) = s @ [0]"
    and "msg_receiver_uuid (make_private_message s r body now) = r @ [0]"
  using assms
  by (simp_all add: make_private_message_def Let_def memcpy0_def list_update_last_nul)

lemma make_private_message_body:
  "msg_body (make_private_message s r body now) =
     take 512 (cstr body) @ zeros (512 - length (cstr body))"
  by (simp add: make_private_message_def Let_def memcpy0_def trim_padded_name_cstr min_def)

lemma make_private_message_time [simp]:
  "msg_timestamp (make_private_message s r body now) = now"
  by (simp add: make_private_message_def Let_def)

lemma length_make_private_message_body [simp, size_simps]:
  "length (msg_body (make_private_message s r body now)) = 512"
  by (simp add: make_private_message_body)

lemma cstr_append_nul: "0 \<notin> set s \<Longrightarrow> cstr (s @ [0]) = s"
  using cstr_append_zeros[of s 1] by (simp add: zeros_def)

lemma wf_make_private_message:
  assumes "valid_uuid36 s" and "valid_uuid36 r" and "s \<in> ids" and "r \<in> ids"
  shows "wf_message ids (make_private_message s r body now)"
proof -
  have "length s = 36" "length r = 36" "0 \<notin> set s" "0 \<notin> set r"
    using assms by (simp_all add: valid_uuid36_def)
  with assms show ?thesis
    by (simp add: wf_message_def valid_uuid37_of_36 cstr_append_nul)
qed

definition message_entry :: "message_t \<Rightarrow> bytes" where
  "message_entry m = take 36 (msg_sender_uuid m) @ take 36 (msg_receiver_uuid m)
     @ be_bytes64 (msg_timestamp m) @ take 512 (msg_body m)"

lemma append_private_message_entry: "append_private_message m p = p @ message_entry m"
  by (simp add: append_private_message_def message_entry_def append_defs Let_def)

lemma length_message_entry [size_simps]: "wf_message ids m \<Longrightarrow> length (message_entry m) = 592"
  by (simp add: message_entry_def wf_message_def valid_uuid_length)

lemma messages_payload:
  "fold append_private_message ms p = p @ concat (map message_entry ms)"
  by (rule fold_append_blocks) (rule append_private_message_entry)

section \<open>Effect on the data\<close>

lemma handle_messages_data [frame_simps]: "out_data (handle_messages fd uuid d) = d"
  by (simp add: handle_messages_def Let_def split: option.splits)

lemma handle_send_cases:
  obtains (error) e p where "handle_send now fd r body d = fail e p d"
  | (sent) s i where "omap_find (sessions d) fd = Some s" and "find_user_by_uuid d r = Some i"
      and "out_data (handle_send now fd r body d) =
             d\<lparr>messages := messages d @ [make_private_message s r body now]\<rparr>"
  by (cases "omap_find (sessions d) fd"; cases "find_user_by_uuid d r"; cases "is_uuid36 r")
    (auto simp: handle_send_def Let_def)

lemma handle_send_frame [frame_simps]:
  "users (out_data (handle_send now fd r body d)) = users d"
  "sessions (out_data (handle_send now fd r body d)) = sessions d"
  "client_contexts (out_data (handle_send now fd r body d)) = client_contexts d"
  "teams (out_data (handle_send now fd r body d)) = teams d"
  by (rule handle_send_cases[of now fd r body d]; simp)+

lemma handle_send_le: "data_le d (out_data (handle_send now fd r body d))"
  by (rule handle_send_cases[of now fd r body d]) (simp_all add: data_le_def grows_refl)

lemma wf_handle_send:
  assumes "wf_data d"
  shows "wf_data (out_data (handle_send now fd r body d))"
proof (rule handle_send_cases[of now fd r body d])
  fix s i
  assume s: "omap_find (sessions d) fd = Some s" and i: "find_user_by_uuid d r = Some i"
    and eq: "out_data (handle_send now fd r body d) =
             d\<lparr>messages := messages d @ [make_private_message s r body now]\<rparr>"
  have "r \<in> user_ids d"
    using find_user_by_uuid_total[OF assms] i by auto
  with assms s have "wf_message (user_ids d) (make_private_message s r body now)"
    by (intro wf_make_private_message user_ids_valid) (auto intro: wf_session_uuid)
  then show ?thesis
    unfolding eq using assms by (intro wf_data_message)
qed (use assms in simp)

end
