(* ===== verification/Users.thy ===== *)
theory Users
  imports Result
begin

text \<open>
  User queries (src/server/handlers/mtp_users.cpp). Both handlers only read the data.
\<close>

definition append_user :: "server_data_t \<Rightarrow> user_t \<Rightarrow> bytes \<Rightarrow> bytes" where
  "append_user d u payload =
     (let p1 = append_uuid36 payload (user_uuid u);
          p2 = append_name32 p1 (user_name u);
          status = (if is_user_online d u then 0x01 else 0x00)
      in append_fixed p2 [status] 1)"

definition handle_users :: "int \<Rightarrow> server_data_t \<Rightarrow> outcome" where
  "handle_users fd d =
     (if \<not> is_logged_in d fd then fail ERR_UNAUTHORIZED [] d
      else (let payload = fold (append_user d) (users d)
                            (append_u32 [] (word_of_nat (length (users d))))
            in (ok RES_USERS_LIST payload, [], d)))"

definition handle_user :: "int \<Rightarrow> bytes \<Rightarrow> server_data_t \<Rightarrow> outcome" where
  "handle_user fd uuid d =
     (if \<not> is_logged_in d fd then fail ERR_UNAUTHORIZED [] d
      else if \<not> is_uuid36 uuid then fail ERR_INVALID_COMMAND [] d
      else (case find_user_by_uuid d uuid of
              None \<Rightarrow> fail ERR_UNKNOWN_USER (append_fixed [] uuid kUuidWireSize) d
            | Some i \<Rightarrow> (ok RES_USER_INFO (append_user d (users d ! i) []), [], d)))"

section \<open>Entries\<close>

text \<open>The 69 bytes one user takes in a list.\<close>

definition user_entry :: "server_data_t \<Rightarrow> user_t \<Rightarrow> bytes" where
  "user_entry d u = take 36 (user_uuid u) @ take 32 (user_name u)
     @ [if is_user_online d u then 1 else 0]"

lemma append_user_entry: "append_user d u p = p @ user_entry d u"
  by (simp add: append_user_def user_entry_def append_defs Let_def)

lemma length_user_entry [size_simps]: "wf_user u \<Longrightarrow> length (user_entry d u) = 69"
  by (simp add: user_entry_def wf_user_def valid_uuid_length)

lemma users_payload:
  "fold (append_user d) us p = p @ concat (map (user_entry d) us)"
  by (rule fold_append_blocks) (rule append_user_entry)

lemma handle_users_data [frame_simps]: "out_data (handle_users fd d) = d"
  by (simp add: handle_users_def Let_def)

lemma handle_user_data [frame_simps]: "out_data (handle_user fd uuid d) = d"
  by (simp add: handle_user_def split: option.splits)

end
