(* ===== verification/Subscriptions.thy ===== *)
theory Subscriptions
  imports Users
begin

text \<open>
  Team membership (src/server/handlers/mtp_subscriptions.cpp): \<open>std::find\<close> and
  \<open>erase\<close> of the first match are \<open>remove1\<close>.
\<close>

section \<open>Operations\<close>

definition set_members :: "nat \<Rightarrow> bytes list \<Rightarrow> server_data_t \<Rightarrow> server_data_t" where
  "set_members i ms d = d\<lparr>teams := (teams d)[i := (teams d ! i)\<lparr>team_member_uuids := ms\<rparr>]\<rparr>"

definition handle_subscribe :: "int \<Rightarrow> bytes \<Rightarrow> server_data_t \<Rightarrow> outcome" where
  "handle_subscribe fd uuid d =
     (case omap_find (sessions d) fd of
        None \<Rightarrow> fail ERR_UNAUTHORIZED [] d
      | Some user \<Rightarrow>
          if \<not> is_uuid36 uuid then fail ERR_INVALID_COMMAND [] d
          else (case find_team_by_uuid d uuid of
              None \<Rightarrow> fail ERR_UNKNOWN_TEAM (append_fixed [] uuid kUuidWireSize) d
            | Some i \<Rightarrow>
                (let team = teams d ! i;
                     (logs, d') = (if \<not> is_subscribed_to team user
                        then ([server_event_user_subscribed (team_uuid team) user],
                              set_members i (team_member_uuids team @ [user]) d)
                        else ([], d));
                     payload = append_fixed [] (team_uuid team) kUuidWireSize
                 in (ok RES_SUBSCRIBE_OK payload, logs, d'))))"

definition handle_unsubscribe :: "int \<Rightarrow> bytes \<Rightarrow> server_data_t \<Rightarrow> outcome" where
  "handle_unsubscribe fd uuid d =
     (case omap_find (sessions d) fd of
        None \<Rightarrow> fail ERR_UNAUTHORIZED [] d
      | Some user \<Rightarrow>
          if \<not> is_uuid36 uuid then fail ERR_INVALID_COMMAND [] d
          else (case find_team_by_uuid d uuid of
              None \<Rightarrow> fail ERR_UNKNOWN_TEAM (append_fixed [] uuid kUuidWireSize) d
            | Some i \<Rightarrow>
                (let team = teams d ! i
                 in if user \<notin> set (team_member_uuids team) then fail ERR_NOT_SUBSCRIBED [] d
                    else (ok RES_UNSUBSCRIBE_OK (append_fixed [] (team_uuid team) kUuidWireSize),
                          [server_event_user_unsubscribed (team_uuid team) user],
                          set_members i (remove1 user (team_member_uuids team)) d))))"

definition append_team :: "team_t \<Rightarrow> bytes \<Rightarrow> bytes" where
  "append_team t payload =
     (let p1 = append_fixed payload (team_uuid t) kUuidWireSize;
          p2 = append_fixed p1 (team_name t) kNameWireSize
      in append_fixed p2 (team_description t) kDescWireSize)"

definition handle_subscribed_teams :: "int \<Rightarrow> server_data_t \<Rightarrow> outcome" where
  "handle_subscribed_teams fd d =
     (case omap_find (sessions d) fd of
        None \<Rightarrow> fail ERR_UNAUTHORIZED [] d
      | Some user \<Rightarrow>
          (let subscribed = filter (\<lambda>t. is_subscribed_to t user) (teams d);
               payload = fold append_team subscribed
                           (append_u32 [] (word_of_nat (length subscribed)))
           in (ok RES_SUBSCRIBED_TEAMS payload, [], d)))"

text \<open>The members that are known users, in subscription order.\<close>

definition subscribed_users :: "server_data_t \<Rightarrow> team_t \<Rightarrow> user_t list" where
  "subscribed_users d t =
     map (\<lambda>i. users d ! i) (List.map_filter (find_user_by_uuid d) (team_member_uuids t))"

definition handle_subscribed_users :: "int \<Rightarrow> bytes \<Rightarrow> server_data_t \<Rightarrow> outcome" where
  "handle_subscribed_users fd uuid d =
     (case omap_find (sessions d) fd of
        None \<Rightarrow> fail ERR_UNAUTHORIZED [] d
      | Some user \<Rightarrow>
          if \<not> is_uuid36 uuid then fail ERR_INVALID_COMMAND [] d
          else (case find_team_by_uuid d uuid of
              None \<Rightarrow> fail ERR_UNKNOWN_TEAM (append_fixed [] uuid kUuidWireSize) d
            | Some i \<Rightarrow>
                if \<not> is_subscribed_to (teams d ! i) user then fail ERR_NOT_SUBSCRIBED [] d
                else (let us = subscribed_users d (teams d ! i);
                          payload = fold (append_user d) us
                                      (append_u32 [] (word_of_nat (length us)))
                      in (ok RES_SUBSCRIBED_USERS payload, [], d))))"

section \<open>Entries\<close>

definition team_entry :: "team_t \<Rightarrow> bytes" where
  "team_entry t = take 36 (team_uuid t) @ take 32 (team_name t) @ take 255 (team_description t)"

lemma append_team_entry: "append_team t p = p @ team_entry t"
  by (simp add: append_team_def team_entry_def append_defs Let_def)

lemma length_team_entry [size_simps]: "wf_team ids t \<Longrightarrow> length (team_entry t) = 323"
  by (simp add: team_entry_def wf_team_def valid_uuid_length)

lemma teams_payload: "fold append_team ts p = p @ concat (map team_entry ts)"
  by (rule fold_append_blocks) (rule append_team_entry)

section \<open>Changing the members of a team\<close>

lemma set_members_sel [simp]:
  "users (set_members i ms d) = users d" "sessions (set_members i ms d) = sessions d"
  "client_contexts (set_members i ms d) = client_contexts d"
  "messages (set_members i ms d) = messages d"
  "length (teams (set_members i ms d)) = length (teams d)"
  by (simp_all add: set_members_def)

lemma set_members_nth:
  "i < length (teams d) \<Longrightarrow> teams (set_members i ms d) ! j =
     (if j = i then (teams d ! i)\<lparr>team_member_uuids := ms\<rparr> else teams d ! j)"
  by (simp add: set_members_def nth_list_update)

lemma set_members_le: "data_le d (set_members i ms d)"
  by (auto simp: data_le_def set_members_def grows_refl team_le_def intro!: grows_update)

lemma set_members_uuids [simp]: "map team_uuid (teams (set_members i ms d)) = map team_uuid (teams d)"
  by (simp add: set_members_def map_list_update_same)

lemma set_members_ids [simp]: "user_ids (set_members i ms d) = user_ids d"
  by (simp add: user_ids_def)

lemma wf_set_members:
  assumes "wf_data d" and "i < length (teams d)" and "distinct ms" and "set ms \<subseteq> user_ids d"
  shows "wf_data (set_members i ms d)"
proof (rule wf_data_teams[OF assms(1) set_members_le])
  have "wf_team (user_ids d) (teams d ! i)"
    using assms by (simp add: wf_team_nth)
  then have t: "wf_team (user_ids d) ((teams d ! i)\<lparr>team_member_uuids := ms\<rparr>)"
    using assms by (simp add: wf_team_def)
  have "wf_teams d" using assms(1) by (simp add: wf_data_def)
  from this t show "wf_teams (set_members i ms d)"
    by (rule wf_teams_update[where i = i]) (simp_all add: set_members_def)
qed simp_all

lemma handle_subscribe_cases:
  obtains (same) "out_data (handle_subscribe fd uuid d) = d"
  | (joined) s i where "omap_find (sessions d) fd = Some s" and "find_team_by_uuid d uuid = Some i"
      and "s \<notin> set (team_member_uuids (teams d ! i))"
      and "out_data (handle_subscribe fd uuid d) =
             set_members i (team_member_uuids (teams d ! i) @ [s]) d"
proof -
  have "out_data (handle_subscribe fd uuid d) = d \<or>
    (\<exists>s i. omap_find (sessions d) fd = Some s \<and> find_team_by_uuid d uuid = Some i
      \<and> s \<notin> set (team_member_uuids (teams d ! i))
      \<and> out_data (handle_subscribe fd uuid d) =
          set_members i (team_member_uuids (teams d ! i) @ [s]) d)"
    by (auto simp: handle_subscribe_def is_subscribed_to_def Let_def split: option.splits)
  with same joined show thesis by blast
qed

lemma handle_unsubscribe_cases:
  obtains (same) "out_data (handle_unsubscribe fd uuid d) = d"
  | (left) s i where "omap_find (sessions d) fd = Some s" and "find_team_by_uuid d uuid = Some i"
      and "s \<in> set (team_member_uuids (teams d ! i))"
      and "out_data (handle_unsubscribe fd uuid d) =
             set_members i (remove1 s (team_member_uuids (teams d ! i))) d"
proof -
  have "out_data (handle_unsubscribe fd uuid d) = d \<or>
    (\<exists>s i. omap_find (sessions d) fd = Some s \<and> find_team_by_uuid d uuid = Some i
      \<and> s \<in> set (team_member_uuids (teams d ! i))
      \<and> out_data (handle_unsubscribe fd uuid d) =
          set_members i (remove1 s (team_member_uuids (teams d ! i))) d)"
    by (auto simp: handle_unsubscribe_def Let_def split: option.splits)
  with same left show thesis by blast
qed

lemma handle_subscribe_le: "data_le d (out_data (handle_subscribe fd uuid d))"
  by (rule handle_subscribe_cases[of fd uuid d]) (simp_all add: set_members_le)

lemma handle_unsubscribe_le: "data_le d (out_data (handle_unsubscribe fd uuid d))"
  by (rule handle_unsubscribe_cases[of fd uuid d]) (simp_all add: set_members_le)

lemma members_wf:
  assumes "wf_data d" and "find_team_by_uuid d uuid = Some i"
  shows "i < length (teams d)" and "distinct (team_member_uuids (teams d ! i))"
    and "set (team_member_uuids (teams d ! i)) \<subseteq> user_ids d"
  using assms find_team_by_uuidD[OF assms(2)] wf_team_nth[OF assms(1)] by (auto simp: wf_team_def)

lemma wf_handle_subscribe:
  assumes "wf_data d"
  shows "wf_data (out_data (handle_subscribe fd uuid d))"
proof (rule handle_subscribe_cases[of fd uuid d])
  fix s i
  assume "omap_find (sessions d) fd = Some s" and i: "find_team_by_uuid d uuid = Some i"
    and "s \<notin> set (team_member_uuids (teams d ! i))"
    and eq: "out_data (handle_subscribe fd uuid d) =
             set_members i (team_member_uuids (teams d ! i) @ [s]) d"
  then show ?thesis
    unfolding eq using assms members_wf[OF assms i] wf_session_uuid(2)[OF assms]
    by (intro wf_set_members) auto
qed (use assms in simp)

lemma wf_handle_unsubscribe:
  assumes "wf_data d"
  shows "wf_data (out_data (handle_unsubscribe fd uuid d))"
proof (rule handle_unsubscribe_cases[of fd uuid d])
  fix s i
  assume i: "find_team_by_uuid d uuid = Some i"
    and eq: "out_data (handle_unsubscribe fd uuid d) =
             set_members i (remove1 s (team_member_uuids (teams d ! i))) d"
  show ?thesis
    unfolding eq using assms members_wf[OF assms i]
    using set_remove1_subset[of s "team_member_uuids (teams d ! i)"]
    by (intro wf_set_members) auto
qed (use assms in simp)

lemma handle_subscribed_teams_data [frame_simps]: "out_data (handle_subscribed_teams fd d) = d"
  by (simp add: handle_subscribed_teams_def Let_def split: option.splits)

lemma handle_subscribed_users_data [frame_simps]: "out_data (handle_subscribed_users fd uuid d) = d"
  by (simp add: handle_subscribed_users_def Let_def split: option.splits)

end
