(* ===== verification/Team_Tree.thy ===== *)
theory Team_Tree
  imports Result
begin

text \<open>
  Writing into the tree of teams through a pointer found by a lookup, and the blocks the
  handlers serialise for its nodes (src/server/handlers/mtp_create.cpp, mtp_list.cpp,
  mtp_info.cpp and mtp_context.cpp build the same blocks).
\<close>

section \<open>Updates along a path\<close>

definition upd_team :: "nat \<Rightarrow> (team_t \<Rightarrow> team_t) \<Rightarrow> server_data_t \<Rightarrow> server_data_t" where
  "upd_team ti f d = d\<lparr>teams := (teams d)[ti := f (teams d ! ti)]\<rparr>"

definition upd_channel :: "nat \<Rightarrow> (channel_t \<Rightarrow> channel_t) \<Rightarrow> team_t \<Rightarrow> team_t" where
  "upd_channel ci f t = t\<lparr>team_channels := (team_channels t)[ci := f (team_channels t ! ci)]\<rparr>"

definition upd_thread :: "nat \<Rightarrow> (thread_t \<Rightarrow> thread_t) \<Rightarrow> channel_t \<Rightarrow> channel_t" where
  "upd_thread hi f c = c\<lparr>channel_threads := (channel_threads c)[hi := f (channel_threads c ! hi)]\<rparr>"

lemma upd_team_sel [simp]:
  "users (upd_team ti f d) = users d" "sessions (upd_team ti f d) = sessions d"
  "client_contexts (upd_team ti f d) = client_contexts d"
  "messages (upd_team ti f d) = messages d"
  "length (teams (upd_team ti f d)) = length (teams d)"
  "user_ids (upd_team ti f d) = user_ids d"
  by (simp_all add: upd_team_def user_ids_def)

lemma upd_team_nth [simp]: "ti < length (teams d) \<Longrightarrow> teams (upd_team ti f d) ! ti = f (teams d ! ti)"
  by (simp add: upd_team_def)

lemma upd_team_nth_other [simp]: "tj \<noteq> ti \<Longrightarrow> teams (upd_team ti f d) ! tj = teams d ! tj"
  by (simp add: upd_team_def)

lemma upd_channel_sel [simp]:
  "team_uuid (upd_channel ci f t) = team_uuid t" "team_name (upd_channel ci f t) = team_name t"
  "team_description (upd_channel ci f t) = team_description t"
  "team_member_uuids (upd_channel ci f t) = team_member_uuids t"
  "length (team_channels (upd_channel ci f t)) = length (team_channels t)"
  by (simp_all add: upd_channel_def)

lemma upd_channel_nth [simp]:
  "ci < length (team_channels t) \<Longrightarrow> team_channels (upd_channel ci f t) ! ci = f (team_channels t ! ci)"
  by (simp add: upd_channel_def)

lemma upd_thread_sel [simp]:
  "channel_uuid (upd_thread hi f c) = channel_uuid c"
  "channel_name (upd_thread hi f c) = channel_name c"
  "channel_description (upd_thread hi f c) = channel_description c"
  "length (channel_threads (upd_thread hi f c)) = length (channel_threads c)"
  by (simp_all add: upd_thread_def)

lemma upd_thread_nth [simp]:
  "hi < length (channel_threads c) \<Longrightarrow>
     channel_threads (upd_thread hi f c) ! hi = f (channel_threads c ! hi)"
  by (simp add: upd_thread_def)

section \<open>Growth and well-formedness along a path\<close>

lemma upd_team_le: "team_le (teams d ! ti) (f (teams d ! ti)) \<Longrightarrow> data_le d (upd_team ti f d)"
  by (simp add: data_le_def upd_team_def grows_refl grows_update)

lemma upd_channel_le:
  "channel_le (team_channels t ! ci) (f (team_channels t ! ci)) \<Longrightarrow> team_le t (upd_channel ci f t)"
  by (simp add: team_le_def upd_channel_def grows_update)

lemma upd_thread_le:
  "thread_le (channel_threads c ! hi) (f (channel_threads c ! hi)) \<Longrightarrow> channel_le c (upd_thread hi f c)"
  by (simp add: channel_le_def upd_thread_def grows_update)

lemma wf_upd_team:
  assumes "wf_data d" and "team_le (teams d ! ti) (f (teams d ! ti))"
    and "wf_team (user_ids d) (f (teams d ! ti))"
  shows "wf_data (upd_team ti f d)"
proof (rule wf_data_teams[OF assms(1)])
  show "data_le d (upd_team ti f d)" using assms(2) by (rule upd_team_le)
  have "wf_teams d" using assms(1) by (simp add: wf_data_def)
  from this assms(3) show "wf_teams (upd_team ti f d)"
  proof (rule wf_teams_update[where i = ti])
    show "team_uuid (f (teams d ! ti)) = team_uuid (teams d ! ti)"
      using assms(2) by (simp add: team_le_def)
  qed (simp_all add: upd_team_def)
qed simp_all

lemma wf_upd_channel:
  assumes "wf_team ids t" and "channel_uuid (f (team_channels t ! ci)) = channel_uuid (team_channels t ! ci)"
    and "wf_channel ids (f (team_channels t ! ci))"
  shows "wf_team ids (upd_channel ci f t)"
  using assms unfolding wf_team_def upd_channel_def
  by (auto simp: map_list_update_same elim!: set_list_updateE)

lemma wf_upd_thread:
  assumes "wf_channel ids c" and "thread_uuid (f (channel_threads c ! hi)) = thread_uuid (channel_threads c ! hi)"
    and "wf_thread ids (f (channel_threads c ! hi))"
  shows "wf_channel ids (upd_thread hi f c)"
  using assms unfolding wf_channel_def upd_thread_def
  by (auto simp: map_list_update_same elim!: set_list_updateE)

section \<open>Blocks\<close>

definition append_team_info :: "team_t \<Rightarrow> bytes \<Rightarrow> bytes" where
  "append_team_info t payload =
     (let p1 = append_uuid36 payload (team_uuid t);
          p2 = append_name32 p1 (team_name t)
      in append_fixed p2 (team_description t) kDescWireSize)"

definition append_channel_info :: "channel_t \<Rightarrow> bytes \<Rightarrow> bytes" where
  "append_channel_info c payload =
     (let p1 = append_uuid36 payload (channel_uuid c);
          p2 = append_name32 p1 (channel_name c)
      in append_fixed p2 (channel_description c) kDescWireSize)"

definition append_thread_info :: "thread_t \<Rightarrow> bytes \<Rightarrow> bytes" where
  "append_thread_info t payload =
     (let p1 = append_uuid36 payload (thread_uuid t);
          p2 = append_uuid36 p1 (thread_creator_uuid t);
          p3 = append_i64 p2 (thread_timestamp t);
          p4 = append_name32 p3 (thread_title t)
      in append_fixed p4 (thread_body t) MAX_BODY_LENGTH)"

text \<open>A reply is sent with the UUID of its thread, taken from the context.\<close>

definition append_reply_info :: "client_context_t \<Rightarrow> reply_t \<Rightarrow> bytes \<Rightarrow> bytes" where
  "append_reply_info ctx r payload =
     (let p1 = append_fixed payload (ctx_thread_uuid ctx) kUuidWireSize;
          p2 = append_uuid36 p1 (reply_creator_uuid r);
          p3 = append_i64 p2 (reply_timestamp r)
      in append_fixed p3 (reply_body r) MAX_BODY_LENGTH)"

definition team_info :: "team_t \<Rightarrow> bytes" where
  "team_info t = take 36 (team_uuid t) @ take 32 (team_name t) @ take 255 (team_description t)"

definition channel_info :: "channel_t \<Rightarrow> bytes" where
  "channel_info c = take 36 (channel_uuid c) @ take 32 (channel_name c) @ take 255 (channel_description c)"

definition thread_info :: "thread_t \<Rightarrow> bytes" where
  "thread_info t = take 36 (thread_uuid t) @ take 36 (thread_creator_uuid t)
     @ be_bytes64 (thread_timestamp t) @ take 32 (thread_title t) @ take 512 (thread_body t)"

definition reply_info :: "bytes \<Rightarrow> reply_t \<Rightarrow> bytes" where
  "reply_info tid r = take 36 tid @ take 36 (reply_creator_uuid r)
     @ be_bytes64 (reply_timestamp r) @ take 512 (reply_body r)"

lemma append_infos:
  "append_team_info t p = p @ team_info t"
  "append_channel_info c p = p @ channel_info c"
  "append_thread_info th p = p @ thread_info th"
  "append_reply_info ctx r p = p @ reply_info (ctx_thread_uuid ctx) r"
  by (simp_all add: append_team_info_def append_channel_info_def append_thread_info_def
      append_reply_info_def team_info_def channel_info_def thread_info_def reply_info_def
      append_defs Let_def)

lemma length_infos [size_simps]:
  "wf_team ids t \<Longrightarrow> length (team_info t) = 323"
  "wf_channel ids c \<Longrightarrow> length (channel_info c) = 323"
  "wf_thread ids th \<Longrightarrow> length (thread_info th) = 624"
  "length tid = 37 \<Longrightarrow> wf_reply ids r \<Longrightarrow> length (reply_info tid r) = 592"
  by (simp_all add: team_info_def channel_info_def thread_info_def reply_info_def
      wf_team_def wf_channel_def wf_thread_def wf_reply_def valid_uuid_length)

lemma infos_payload:
  "fold append_team_info ts p = p @ concat (map team_info ts)"
  "fold append_channel_info cs p = p @ concat (map channel_info cs)"
  "fold append_thread_info ths p = p @ concat (map thread_info ths)"
  "fold (append_reply_info ctx) rs p = p @ concat (map (reply_info (ctx_thread_uuid ctx)) rs)"
  by (rule fold_append_blocks, rule append_infos)+

text \<open>The user block of \<open>/use\<close> and \<open>/info\<close> at the top level: zeros stand for an unknown name.\<close>

definition user_details :: "server_data_t \<Rightarrow> bytes \<Rightarrow> bytes" where
  "user_details d user =
     (case find_user_by_uuid d user of
        Some i \<Rightarrow> append_name32 (append_uuid36 [] (user_uuid (users d ! i))) (user_name (users d ! i))
      | None \<Rightarrow> append_fixed (append_fixed [] user kUuidWireSize) (zeros kNameWireSize) kNameWireSize)"

end
