(* ===== verification/Context.thy ===== *)
theory Context
  imports Team_Tree
begin

text \<open>
  Moving between contexts: \<open>handle_use\<close> of src/server/handlers/mtp_context.cpp, one
  definition per level of the context. The level is stored only when the whole path
  exists and the user is a member of the team.
\<close>

section \<open>Operations\<close>

definition set_context :: "int \<Rightarrow> client_context_t \<Rightarrow> server_data_t \<Rightarrow> server_data_t" where
  "set_context fd ctx d = d\<lparr>client_contexts := omap_set fd ctx (client_contexts d)\<rparr>"

text \<open>\<open>memcpy\<close> of a 36-byte view into a zeroed \<open>char[37]\<close>.\<close>

definition ctx_field :: "bytes \<Rightarrow> bytes" where
  "ctx_field uuid = memcpy0 (zeros UUID_STR_LEN) uuid kUuidWireSize"

text \<open>The \<open>n\<close>-th UUID after the level byte.\<close>

definition use_uuid :: "bytes \<Rightarrow> nat \<Rightarrow> bytes" where
  "use_uuid payload n = take kUuidWireSize (drop (1 + n * kUuidWireSize) payload)"

definition use_none :: "int \<Rightarrow> bytes \<Rightarrow> server_data_t \<Rightarrow> outcome" where
  "use_none fd user d =
     (let d' = set_context fd (context0\<lparr>ctx_level := use_code USE_NONE\<rparr>) d
      in (ok RES_USER_DETAILS (user_details d' user), [], d'))"

definition use_team :: "int \<Rightarrow> bytes \<Rightarrow> bytes \<Rightarrow> server_data_t \<Rightarrow> outcome" where
  "use_team fd user payload d =
     (if length payload < 1 + kUuidWireSize then fail ERR_INVALID_COMMAND [] d
      else (let team_id = use_uuid payload 0 in
        case find_team_by_uuid d team_id of
          None \<Rightarrow> fail ERR_UNKNOWN_TEAM (append_fixed [] team_id kUuidWireSize) d
        | Some ti \<Rightarrow>
            if \<not> is_subscribed_to (teams d ! ti) user then fail ERR_NOT_SUBSCRIBED [] d
            else (let ctx = context0\<lparr>ctx_level := use_code USE_TEAM, ctx_team_uuid := ctx_field team_id\<rparr>;
                      d' = set_context fd ctx d
                  in (ok RES_TEAM_INFO (append_team_info (teams d ! ti) []), [], d'))))"

definition use_channel :: "int \<Rightarrow> bytes \<Rightarrow> bytes \<Rightarrow> server_data_t \<Rightarrow> outcome" where
  "use_channel fd user payload d =
     (if length payload < 1 + kUuidWireSize + kUuidWireSize then fail ERR_INVALID_COMMAND [] d
      else (let team_id = use_uuid payload 0; channel_id = use_uuid payload 1 in
        case find_team_by_uuid d team_id of
          None \<Rightarrow> fail ERR_UNKNOWN_TEAM (append_fixed [] team_id kUuidWireSize) d
        | Some ti \<Rightarrow>
            if \<not> is_subscribed_to (teams d ! ti) user then fail ERR_NOT_SUBSCRIBED [] d
            else (case find_channel_by_uuid (teams d ! ti) channel_id of
                None \<Rightarrow> fail ERR_UNKNOWN_CHANNEL (append_fixed [] channel_id kUuidWireSize) d
              | Some ci \<Rightarrow>
                  (let ctx = context0\<lparr>ctx_level := use_code USE_CHANNEL,
                              ctx_team_uuid := ctx_field team_id,
                              ctx_channel_uuid := ctx_field channel_id\<rparr>;
                       d' = set_context fd ctx d
                   in (ok RES_CHANNEL_INFO
                         (append_channel_info (team_channels (teams d ! ti) ! ci) []), [], d')))))"

definition use_thread :: "int \<Rightarrow> bytes \<Rightarrow> bytes \<Rightarrow> server_data_t \<Rightarrow> outcome" where
  "use_thread fd user payload d =
     (if length payload < 1 + kUuidWireSize + kUuidWireSize + kUuidWireSize
      then fail ERR_INVALID_COMMAND [] d
      else (let team_id = use_uuid payload 0; channel_id = use_uuid payload 1;
                thread_id = use_uuid payload 2 in
        case find_team_by_uuid d team_id of
          None \<Rightarrow> fail ERR_UNKNOWN_TEAM (append_fixed [] team_id kUuidWireSize) d
        | Some ti \<Rightarrow>
            if \<not> is_subscribed_to (teams d ! ti) user then fail ERR_NOT_SUBSCRIBED [] d
            else (case find_channel_by_uuid (teams d ! ti) channel_id of
                None \<Rightarrow> fail ERR_UNKNOWN_CHANNEL (append_fixed [] channel_id kUuidWireSize) d
              | Some ci \<Rightarrow>
                  (let channel = team_channels (teams d ! ti) ! ci in
                   case find_thread_by_uuid channel thread_id of
                     None \<Rightarrow> fail ERR_UNKNOWN_THREAD (append_fixed [] thread_id kUuidWireSize) d
                   | Some hi \<Rightarrow>
                       (let ctx = context0\<lparr>ctx_level := use_code USE_THREAD,
                                   ctx_team_uuid := ctx_field team_id,
                                   ctx_channel_uuid := ctx_field channel_id,
                                   ctx_thread_uuid := ctx_field thread_id\<rparr>;
                            d' = set_context fd ctx d
                        in (ok RES_THREAD_INFO
                              (append_thread_info (channel_threads channel ! hi) []), [], d'))))))"

definition handle_use :: "int \<Rightarrow> bytes \<Rightarrow> server_data_t \<Rightarrow> outcome" where
  "handle_use fd payload d =
     (case omap_find (sessions d) fd of
        None \<Rightarrow> fail ERR_UNAUTHORIZED [] d
      | Some user \<Rightarrow>
          (case payload of
             [] \<Rightarrow> fail ERR_INVALID_COMMAND [] d
           | level # _ \<Rightarrow>
               if level = use_code USE_NONE then use_none fd user d
               else if level = use_code USE_TEAM then use_team fd user payload d
               else if level = use_code USE_CHANNEL then use_channel fd user payload d
               else if level = use_code USE_THREAD then use_thread fd user payload d
               else fail ERR_INVALID_COMMAND [] d))"

section \<open>The context that is stored\<close>

lemma set_context_sel [simp]:
  "users (set_context fd c d) = users d" "sessions (set_context fd c d) = sessions d"
  "teams (set_context fd c d) = teams d" "messages (set_context fd c d) = messages d"
  "client_contexts (set_context fd c d) = omap_set fd c (client_contexts d)"
  "user_ids (set_context fd c d) = user_ids d"
  by (simp_all add: set_context_def user_ids_def)

lemma set_context_le [simp]: "data_le d (set_context fd c d)"
  by (simp add: data_le_def grows_refl)

lemma take_ctx_field [simp]: "length u = 36 \<Longrightarrow> take 36 (ctx_field u) = u"
  by (simp add: ctx_field_def)

lemma length_ctx_field [simp, size_simps]: "length u = 36 \<Longrightarrow> length (ctx_field u) = 37"
  by (simp add: ctx_field_def memcpy0_def)

lemma length_use_uuid [size_simps]:
  "1 + (n + 1) * 36 \<le> length payload \<Longrightarrow> length (use_uuid payload n) = 36"
  by (simp add: use_uuid_def)

lemma ctx_valid_level:
  "ctx_level c = use_code l \<Longrightarrow> ctx_valid d c \<longleftrightarrow>
     (USE_TEAM \<le> l \<longrightarrow> resolve_team d c \<noteq> None)
     \<and> (USE_CHANNEL \<le> l \<longrightarrow> resolve_channel d c \<noteq> None)
     \<and> (USE_THREAD \<le> l \<longrightarrow> resolve_thread d c \<noteq> None)"
  unfolding ctx_valid_def by (metis use_code_inj)

text \<open>Each level either fails without a change or stores a valid context.\<close>

definition moves :: "int \<Rightarrow> server_data_t \<Rightarrow> outcome \<Rightarrow> bool" where
  "moves fd d r \<longleftrightarrow> out_data r = d
     \<or> (\<exists>c. ctx_valid d c \<and> out_data r = set_context fd c d)"

lemma moves_fail [simp]: "moves fd d (fail e p d)"
  by (simp add: moves_def)

lemma use_none_moves: "moves fd d (use_none fd user d)"
proof -
  have "ctx_valid d (context0\<lparr>ctx_level := use_code USE_NONE\<rparr>)"
    by (simp add: ctx_valid_level[where l = USE_NONE])
  then show ?thesis unfolding moves_def use_none_def Let_def by auto
qed

lemma use_team_moves: "moves fd d (use_team fd user payload d)"
proof (cases "find_team_by_uuid d (use_uuid payload 0)")
  case None
  then show ?thesis by (simp add: use_team_def Let_def)
next
  case (Some ti)
  let ?c = "context0\<lparr>ctx_level := use_code USE_TEAM, ctx_team_uuid := ctx_field (use_uuid payload 0)\<rparr>"
  have "length (use_uuid payload 0) = 36"
    using find_team_by_uuidD[OF Some] by simp
  with Some have "ctx_valid d ?c"
    by (simp add: ctx_valid_level[where l = USE_TEAM] resolve_team_def)
  with Some show ?thesis by (auto simp: use_team_def Let_def moves_def)
qed

lemma use_channel_moves: "moves fd d (use_channel fd user payload d)"
proof (cases "find_team_by_uuid d (use_uuid payload 0)")
  case None
  then show ?thesis by (simp add: use_channel_def Let_def)
next
  case ti: (Some ti)
  show ?thesis
  proof (cases "find_channel_by_uuid (teams d ! ti) (use_uuid payload 1)")
    case None
    with ti show ?thesis by (simp add: use_channel_def Let_def)
  next
    case (Some ci)
    let ?c = "context0\<lparr>ctx_level := use_code USE_CHANNEL,
      ctx_team_uuid := ctx_field (use_uuid payload 0), ctx_channel_uuid := ctx_field (use_uuid payload 1)\<rparr>"
    have "length (use_uuid payload 0) = 36" "length (use_uuid payload 1) = 36"
      using find_team_by_uuidD[OF ti] find_channel_by_uuidD[OF Some] by simp_all
    with Some ti have "ctx_valid d ?c"
      by (simp add: ctx_valid_level[where l = USE_CHANNEL] resolve_team_def resolve_channel_def)
    with Some ti show ?thesis by (auto simp: use_channel_def Let_def moves_def)
  qed
qed

lemma use_thread_moves: "moves fd d (use_thread fd user payload d)"
proof (cases "find_team_by_uuid d (use_uuid payload 0)")
  case None
  then show ?thesis by (simp add: use_thread_def Let_def)
next
  case ti: (Some ti)
  show ?thesis
  proof (cases "find_channel_by_uuid (teams d ! ti) (use_uuid payload 1)")
    case None
    with ti show ?thesis by (simp add: use_thread_def Let_def)
  next
    case ci: (Some ci)
    let ?ch = "team_channels (teams d ! ti) ! ci"
    show ?thesis
    proof (cases "find_thread_by_uuid ?ch (use_uuid payload 2)")
      case None
      with ti ci show ?thesis by (simp add: use_thread_def Let_def)
    next
      case (Some hi)
      let ?c = "context0\<lparr>ctx_level := use_code USE_THREAD,
        ctx_team_uuid := ctx_field (use_uuid payload 0),
        ctx_channel_uuid := ctx_field (use_uuid payload 1),
        ctx_thread_uuid := ctx_field (use_uuid payload 2)\<rparr>"
      have "length (use_uuid payload 0) = 36" "length (use_uuid payload 1) = 36"
        "length (use_uuid payload 2) = 36"
        using find_team_by_uuidD[OF ti] find_channel_by_uuidD[OF ci] find_thread_by_uuidD[OF Some]
        by simp_all
      with Some ti ci have "ctx_valid d ?c"
        by (simp add: ctx_valid_level[where l = USE_THREAD] resolve_team_def resolve_channel_def
            resolve_thread_def)
      with Some ti ci show ?thesis by (auto simp: use_thread_def Let_def moves_def)
    qed
  qed
qed

lemma handle_use_moves: "moves fd d (handle_use fd payload d)"
  by (simp add: handle_use_def use_none_moves use_team_moves use_channel_moves use_thread_moves
      split: option.split list.split)

lemma handle_use_no_session: "omap_find (sessions d) fd = None \<Longrightarrow> out_data (handle_use fd payload d) = d"
  by (simp add: handle_use_def)

lemma handle_use_le: "data_le d (out_data (handle_use fd payload d))"
  using handle_use_moves[of fd d payload] by (auto simp: moves_def)

lemma wf_set_context:
  assumes "wf_data d" and "omap_find (sessions d) fd \<noteq> None" and "ctx_valid d c"
  shows "wf_data (set_context fd c d)"
proof -
  let ?e = "set_context fd c d"
  have d: "wf_users d" "wf_sessions d" "wf_contexts d" "wf_messages d" "wf_teams d"
    using assms(1) by (simp_all add: wf_data_def)
  have "insert fd (dom (omap_find (sessions d))) = dom (omap_find (sessions d))"
    using assms(2) by auto
  then have "wf_sessions ?e"
    using d(2) by (intro wf_sessionsI) (simp_all add: wf_sessions_def omap_wf_set)
  moreover have "\<forall>fd' c'. omap_find (client_contexts ?e) fd' = Some c' \<longrightarrow> ctx_valid ?e c'"
    using d(3) assms(3) ctx_valid_le[OF set_context_le] by (simp add: wf_contexts_def omap_find_set)
  moreover have "wf_teams ?e" "wf_messages ?e" "wf_users ?e"
    using d by (simp_all add: wf_teams_def wf_messages_def wf_users_def)
  ultimately show ?thesis by (simp add: wf_data_def wf_contexts_def)
qed

lemma wf_handle_use:
  assumes "wf_data d"
  shows "wf_data (out_data (handle_use fd payload d))"
proof (cases "omap_find (sessions d) fd")
  case None
  with assms show ?thesis by (simp add: handle_use_no_session)
next
  case (Some s)
  with assms handle_use_moves[of fd d payload] show ?thesis
    by (auto simp: moves_def intro!: wf_set_context)
qed

end
