(* ===== verification/Create.thy ===== *)
theory Create
  imports Context
begin

text \<open>
  Creating resources in the current context: \<open>handle_create\<close> of
  src/server/handlers/mtp_create.cpp, one definition per level. \<open>fresh\<close> is the array
  \<open>new_uuid\<close> fills and \<open>now\<close> the value of \<open>std::time(nullptr)\<close>.
\<close>

section \<open>Operations\<close>

definition create_team :: "bytes \<Rightarrow> bytes \<Rightarrow> bytes \<Rightarrow> server_data_t \<Rightarrow> outcome" where
  "create_team fresh user payload_bytes d =
     (if length payload_bytes < kNameWireSize + kDescWireSize then fail ERR_INVALID_COMMAND [] d
      else (let team = \<lparr>team_uuid = fresh,
                  team_name = memcpy0 (zeros MAX_NAME_LENGTH) payload_bytes kNameWireSize,
                  team_description = memcpy0 (zeros MAX_DESCRIPTION_LENGTH)
                     (drop kNameWireSize payload_bytes) kDescWireSize,
                  team_channels = [], team_member_uuids = [user]\<rparr>;
                d' = d\<lparr>teams := teams d @ [team]\<rparr>;
                payload = append_team_info team []
            in (add_push (make_push (event_code EVT_TEAM_CREATED) payload (logged_fds d'))
                  (ok RES_TEAM_CREATED payload),
                [server_event_team_created (team_uuid team) (team_name team) user], d')))"

definition create_channel :: "bytes \<Rightarrow> bytes \<Rightarrow> client_context_t \<Rightarrow> bytes \<Rightarrow> server_data_t \<Rightarrow> outcome" where
  "create_channel fresh user ctx payload_bytes d =
     (if length payload_bytes < kNameWireSize + kDescWireSize then fail ERR_INVALID_COMMAND [] d
      else (case find_team_by_uuid d (take kUuidWireSize (ctx_team_uuid ctx)) of
          None \<Rightarrow> fail ERR_UNKNOWN_TEAM [] d
        | Some ti \<Rightarrow>
            if \<not> is_subscribed_to (teams d ! ti) user then fail ERR_NOT_SUBSCRIBED [] d
            else (let channel = \<lparr>channel_uuid = fresh,
                        channel_name = memcpy0 (zeros MAX_NAME_LENGTH) payload_bytes kNameWireSize,
                        channel_description = memcpy0 (zeros MAX_DESCRIPTION_LENGTH)
                           (drop kNameWireSize payload_bytes) kDescWireSize,
                        channel_threads = []\<rparr>;
                      d' = upd_team ti (\<lambda>t. t\<lparr>team_channels := team_channels t @ [channel]\<rparr>) d;
                      payload = append_channel_info channel []
                  in (add_push (make_push (event_code EVT_CHANNEL_CREATED) payload
                                  (team_member_fds d' (teams d' ! ti)))
                        (ok RES_CHANNEL_CREATED payload),
                      [server_event_channel_created (team_uuid (teams d' ! ti))
                         (channel_uuid channel) (channel_name channel)], d'))))"

definition create_thread :: "bytes \<Rightarrow> u64 \<Rightarrow> bytes \<Rightarrow> client_context_t \<Rightarrow> bytes \<Rightarrow> server_data_t \<Rightarrow> outcome" where
  "create_thread fresh now user ctx payload_bytes d =
     (if length payload_bytes < kNameWireSize + MAX_BODY_LENGTH then fail ERR_INVALID_COMMAND [] d
      else (case find_team_by_uuid d (take kUuidWireSize (ctx_team_uuid ctx)) of
          None \<Rightarrow> fail ERR_UNKNOWN_TEAM [] d
        | Some ti \<Rightarrow>
            if \<not> is_subscribed_to (teams d ! ti) user then fail ERR_NOT_SUBSCRIBED [] d
            else (case find_channel_by_uuid (teams d ! ti) (take kUuidWireSize (ctx_channel_uuid ctx)) of
                None \<Rightarrow> fail ERR_UNKNOWN_CHANNEL [] d
              | Some ci \<Rightarrow>
                  (let thread = \<lparr>thread_uuid = fresh,
                         thread_creator_uuid = memcpy0 (zeros UUID_STR_LEN) user kUuidWireSize,
                         thread_title = memcpy0 (zeros MAX_NAME_LENGTH) payload_bytes kNameWireSize,
                         thread_body = memcpy0 (zeros MAX_BODY_LENGTH)
                            (drop kNameWireSize payload_bytes) MAX_BODY_LENGTH,
                         thread_timestamp = now, thread_replies = []\<rparr>;
                       d' = upd_team ti (upd_channel ci
                              (\<lambda>c. c\<lparr>channel_threads := channel_threads c @ [thread]\<rparr>)) d;
                       payload = append_thread_info thread []
                   in (add_push (make_push (event_code EVT_THREAD_CREATED) payload
                                   (team_member_fds d' (teams d' ! ti)))
                         (ok RES_THREAD_CREATED payload),
                       [server_event_thread_created
                          (channel_uuid (team_channels (teams d' ! ti) ! ci)) (thread_uuid thread)
                          user (thread_title thread) (thread_body thread)], d')))))"

definition create_reply :: "bytes \<Rightarrow> u64 \<Rightarrow> bytes \<Rightarrow> client_context_t \<Rightarrow> bytes \<Rightarrow> server_data_t \<Rightarrow> outcome" where
  "create_reply fresh now user ctx payload_bytes d =
     (if length payload_bytes < MAX_BODY_LENGTH then fail ERR_INVALID_COMMAND [] d
      else (case find_team_by_uuid d (take kUuidWireSize (ctx_team_uuid ctx)) of
          None \<Rightarrow> fail ERR_UNKNOWN_TEAM [] d
        | Some ti \<Rightarrow>
            if \<not> is_subscribed_to (teams d ! ti) user then fail ERR_NOT_SUBSCRIBED [] d
            else (case find_channel_by_uuid (teams d ! ti) (take kUuidWireSize (ctx_channel_uuid ctx)) of
                None \<Rightarrow> fail ERR_UNKNOWN_CHANNEL [] d
              | Some ci \<Rightarrow>
                  (let channel = team_channels (teams d ! ti) ! ci in
                   case find_thread_by_uuid channel (take kUuidWireSize (ctx_thread_uuid ctx)) of
                     None \<Rightarrow> fail ERR_UNKNOWN_THREAD [] d
                   | Some hi \<Rightarrow>
                       (let reply = \<lparr>reply_uuid = fresh,
                              reply_creator_uuid = memcpy0 (zeros UUID_STR_LEN) user kUuidWireSize,
                              reply_body = memcpy0 (zeros MAX_BODY_LENGTH) payload_bytes MAX_BODY_LENGTH,
                              reply_timestamp = now\<rparr>;
                            d' = upd_team ti (upd_channel ci (upd_thread hi
                                   (\<lambda>t. t\<lparr>thread_replies := thread_replies t @ [reply]\<rparr>))) d;
                            payload = append_reply_info ctx reply []
                        in (add_push (make_push (event_code EVT_REPLY_CREATED) payload
                                        (team_member_fds d' (teams d' ! ti)))
                              (ok RES_REPLY_CREATED payload),
                            [server_event_reply_created
                               (thread_uuid (channel_threads (team_channels (teams d' ! ti) ! ci) ! hi))
                               user (reply_body reply)], d'))))))"

definition handle_create :: "bytes \<Rightarrow> u64 \<Rightarrow> int \<Rightarrow> bytes \<Rightarrow> server_data_t \<Rightarrow> outcome" where
  "handle_create fresh now fd payload_bytes d =
     (case omap_find (sessions d) fd of
        None \<Rightarrow> fail ERR_UNAUTHORIZED [] d
      | Some user \<Rightarrow>
          (case omap_find (client_contexts d) fd of
             None \<Rightarrow> fail ERR_INVALID_COMMAND [] d
           | Some ctx \<Rightarrow>
               if ctx_level ctx = use_code USE_NONE then create_team fresh user payload_bytes d
               else if ctx_level ctx = use_code USE_TEAM then create_channel fresh user ctx payload_bytes d
               else if ctx_level ctx = use_code USE_CHANNEL then create_thread fresh now user ctx payload_bytes d
               else if ctx_level ctx = use_code USE_THREAD then create_reply fresh now user ctx payload_bytes d
               else fail ERR_INVALID_COMMAND [] d))"

section \<open>The new nodes\<close>

definition new_team :: "bytes \<Rightarrow> bytes \<Rightarrow> bytes \<Rightarrow> team_t" where
  "new_team fresh user p = \<lparr>team_uuid = fresh, team_name = take 32 p,
     team_description = take 255 (drop 32 p), team_channels = [], team_member_uuids = [user]\<rparr>"

definition new_channel :: "bytes \<Rightarrow> bytes \<Rightarrow> channel_t" where
  "new_channel fresh p = \<lparr>channel_uuid = fresh, channel_name = take 32 p,
     channel_description = take 255 (drop 32 p), channel_threads = []\<rparr>"

definition new_thread :: "bytes \<Rightarrow> u64 \<Rightarrow> bytes \<Rightarrow> bytes \<Rightarrow> thread_t" where
  "new_thread fresh now user p = \<lparr>thread_uuid = fresh, thread_creator_uuid = ctx_field user,
     thread_title = take 32 p, thread_body = take 512 (drop 32 p),
     thread_timestamp = now, thread_replies = []\<rparr>"

definition new_reply :: "bytes \<Rightarrow> u64 \<Rightarrow> bytes \<Rightarrow> bytes \<Rightarrow> reply_t" where
  "new_reply fresh now user p = \<lparr>reply_uuid = fresh, reply_creator_uuid = ctx_field user,
     reply_body = take 512 p, reply_timestamp = now\<rparr>"

lemmas new_defs = new_team_def new_channel_def new_thread_def new_reply_def

lemma ctx_field_valid:
  assumes "valid_uuid36 u"
  shows "ctx_field u = u @ [0]" and "valid_uuid37 (ctx_field u)" and "cstr (ctx_field u) = u"
proof -
  show eq: "ctx_field u = u @ [0]"
    using assms by (simp add: ctx_field_def memcpy0_def valid_uuid36_def zeros_def)
  show "valid_uuid37 (ctx_field u)"
    unfolding eq using assms by (rule valid_uuid37_of_36)
  show "cstr (ctx_field u) = u"
    unfolding eq using assms cstr_append_zeros[of u 1] by (simp add: valid_uuid36_def zeros_def)
qed

lemma wf_new_nodes:
  assumes "valid_uuid37 fresh" and "valid_uuid36 user" and "user \<in> ids"
  shows "32 + 255 \<le> length p \<Longrightarrow> wf_team ids (new_team fresh user p)"
    and "32 + 255 \<le> length p \<Longrightarrow> wf_channel ids (new_channel fresh p)"
    and "32 + 512 \<le> length p \<Longrightarrow> wf_thread ids (new_thread fresh now user p)"
    and "512 \<le> length p \<Longrightarrow> wf_reply ids (new_reply fresh now user p)"
  using assms ctx_field_valid[OF assms(2)] by (simp_all add: new_defs wf_entity_defs)

section \<open>Outcome of each level\<close>

lemma memcpy0_full: "n \<le> length src \<Longrightarrow> memcpy0 (zeros n) src n = take n src"
  by (simp add: memcpy0_def)

lemma create_team_cases:
  obtains (error) e where "create_team fresh user p d = fail e [] d"
  | (created) "32 + 255 \<le> length p"
      and "create_team fresh user p d =
        (add_push (make_push (event_code EVT_TEAM_CREATED) (team_info (new_team fresh user p)) (logged_fds d))
           (ok RES_TEAM_CREATED (team_info (new_team fresh user p))),
         [server_event_team_created fresh (take 32 p) user],
         d\<lparr>teams := teams d @ [new_team fresh user p]\<rparr>)"
proof (cases "length p < 32 + 255")
  case True
  then show ?thesis by (intro error[of ERR_INVALID_COMMAND]) (simp add: create_team_def)
next
  case False
  then show ?thesis
    by (intro created) (simp_all add: create_team_def Let_def append_infos memcpy0_full
        new_team_def logged_fds_def)
qed

lemma create_channel_cases:
  obtains (error) e where "create_channel fresh user ctx p d = fail e [] d"
  | (created) ti where "32 + 255 \<le> length p" and "resolve_team d ctx = Some ti"
      and "user \<in> set (team_member_uuids (teams d ! ti))"
      and "create_channel fresh user ctx p d =
        (add_push (make_push (event_code EVT_CHANNEL_CREATED) (channel_info (new_channel fresh p))
             (team_member_fds d (teams d ! ti)))
           (ok RES_CHANNEL_CREATED (channel_info (new_channel fresh p))),
         [server_event_channel_created (team_uuid (teams d ! ti)) fresh (take 32 p)],
         upd_team ti (\<lambda>t. t\<lparr>team_channels := team_channels t @ [new_channel fresh p]\<rparr>) d)"
proof (cases "length p < 32 + 255")
  case True
  then show ?thesis by (intro error[of ERR_INVALID_COMMAND]) (simp add: create_channel_def)
next
  case len: False
  show ?thesis
  proof (cases "resolve_team d ctx")
    case None
    with len show ?thesis
      by (intro error[of ERR_UNKNOWN_TEAM]) (simp add: create_channel_def resolve_team_def)
  next
    case (Some ti)
    show ?thesis
    proof (cases "is_subscribed_to (teams d ! ti) user")
      case False
      with len Some show ?thesis
        by (intro error[of ERR_NOT_SUBSCRIBED]) (simp add: create_channel_def resolve_team_def)
    next
      case True
      with len Some resolve_teamD[OF Some] show ?thesis
        by (intro created[of ti]) (simp_all add: create_channel_def resolve_team_def Let_def
            append_infos memcpy0_full new_channel_def is_subscribed_to_def team_member_fds_def)
    qed
  qed
qed

lemma create_thread_cases:
  obtains (error) e where "create_thread fresh now user ctx p d = fail e [] d"
  | (created) ti ci where "32 + 512 \<le> length p" and "resolve_channel d ctx = Some (ti, ci)"
      and "user \<in> set (team_member_uuids (teams d ! ti))"
      and "create_thread fresh now user ctx p d =
        (add_push (make_push (event_code EVT_THREAD_CREATED) (thread_info (new_thread fresh now user p))
             (team_member_fds d (teams d ! ti)))
           (ok RES_THREAD_CREATED (thread_info (new_thread fresh now user p))),
         [server_event_thread_created (channel_uuid (team_channels (teams d ! ti) ! ci)) fresh user
            (take 32 p) (take 512 (drop 32 p))],
         upd_team ti (upd_channel ci
           (\<lambda>c. c\<lparr>channel_threads := channel_threads c @ [new_thread fresh now user p]\<rparr>)) d)"
proof (cases "length p < 32 + 512")
  case True
  then show ?thesis by (intro error[of ERR_INVALID_COMMAND]) (simp add: create_thread_def)
next
  case len: False
  show ?thesis
  proof (cases "resolve_team d ctx")
    case None
    with len show ?thesis
      by (intro error[of ERR_UNKNOWN_TEAM]) (simp add: create_thread_def resolve_team_def)
  next
    case ti: (Some ti)
    show ?thesis
    proof (cases "is_subscribed_to (teams d ! ti) user")
      case False
      with len ti show ?thesis
        by (intro error[of ERR_NOT_SUBSCRIBED]) (simp add: create_thread_def resolve_team_def)
    next
      case sub: True
      show ?thesis
      proof (cases "find_channel_by_uuid (teams d ! ti) (take 36 (ctx_channel_uuid ctx))")
        case None
        with len ti sub show ?thesis
          by (intro error[of ERR_UNKNOWN_CHANNEL]) (simp add: create_thread_def resolve_team_def)
      next
        case (Some ci)
        with len ti sub resolve_teamD[OF ti] find_channel_by_uuidD(1)[OF Some] show ?thesis
          by (intro created[of ti ci]) (simp_all add: create_thread_def resolve_channel_def
              resolve_team_def Let_def append_infos memcpy0_full new_thread_def ctx_field_def
              is_subscribed_to_def team_member_fds_def)
      qed
    qed
  qed
qed

lemma create_reply_cases:
  obtains (error) e where "create_reply fresh now user ctx p d = fail e [] d"
  | (created) ti ci hi where "512 \<le> length p" and "resolve_thread d ctx = Some (ti, ci, hi)"
      and "user \<in> set (team_member_uuids (teams d ! ti))"
      and "create_reply fresh now user ctx p d =
        (add_push (make_push (event_code EVT_REPLY_CREATED)
             (reply_info (ctx_thread_uuid ctx) (new_reply fresh now user p))
             (team_member_fds d (teams d ! ti)))
           (ok RES_REPLY_CREATED (reply_info (ctx_thread_uuid ctx) (new_reply fresh now user p))),
         [server_event_reply_created
            (thread_uuid (channel_threads (team_channels (teams d ! ti) ! ci) ! hi)) user (take 512 p)],
         upd_team ti (upd_channel ci (upd_thread hi
           (\<lambda>t. t\<lparr>thread_replies := thread_replies t @ [new_reply fresh now user p]\<rparr>))) d)"
proof (cases "length p < 512")
  case True
  then show ?thesis by (intro error[of ERR_INVALID_COMMAND]) (simp add: create_reply_def)
next
  case len: False
  show ?thesis
  proof (cases "resolve_team d ctx")
    case None
    with len show ?thesis
      by (intro error[of ERR_UNKNOWN_TEAM]) (simp add: create_reply_def resolve_team_def)
  next
    case ti: (Some ti)
    show ?thesis
    proof (cases "is_subscribed_to (teams d ! ti) user")
      case False
      with len ti show ?thesis
        by (intro error[of ERR_NOT_SUBSCRIBED]) (simp add: create_reply_def resolve_team_def)
    next
      case sub: True
      show ?thesis
      proof (cases "find_channel_by_uuid (teams d ! ti) (take 36 (ctx_channel_uuid ctx))")
        case None
        with len ti sub show ?thesis
          by (intro error[of ERR_UNKNOWN_CHANNEL]) (simp add: create_reply_def resolve_team_def)
      next
        case ci: (Some ci)
        let ?ch = "team_channels (teams d ! ti) ! ci"
        show ?thesis
        proof (cases "find_thread_by_uuid ?ch (take 36 (ctx_thread_uuid ctx))")
          case None
          with len ti sub ci show ?thesis
            by (intro error[of ERR_UNKNOWN_THREAD]) (simp add: create_reply_def resolve_team_def Let_def)
        next
          case (Some hi)
          with len ti sub ci resolve_teamD[OF ti] find_channel_by_uuidD(1)[OF ci]
            find_thread_by_uuidD(1)[OF Some]
          show ?thesis
            by (intro created[of ti ci hi]) (simp_all add: create_reply_def resolve_thread_def
                resolve_channel_def resolve_team_def Let_def append_infos memcpy0_full
                new_reply_def ctx_field_def is_subscribed_to_def team_member_fds_def)
        qed
      qed
    qed
  qed
qed

section \<open>The data after a creation\<close>

lemma add_channel_le:
  "team_le t (t\<lparr>team_channels := team_channels t @ [c]\<rparr>)"
  by (simp add: team_le_def grows_append)

lemma add_thread_le:
  "channel_le c (c\<lparr>channel_threads := channel_threads c @ [t]\<rparr>)"
  by (simp add: channel_le_def grows_append)

lemma add_reply_le:
  "thread_le t (t\<lparr>thread_replies := thread_replies t @ [r]\<rparr>)"
  by (simp add: thread_le_def)

lemma create_team_le: "data_le d (out_data (create_team fresh user p d))"
  by (rule create_team_cases[of fresh user p d]) (simp_all add: data_le_def grows_refl grows_append)

lemma create_channel_le: "data_le d (out_data (create_channel fresh user ctx p d))"
  by (rule create_channel_cases[of fresh user ctx p d]) (simp_all add: upd_team_le add_channel_le)

lemma create_thread_le: "data_le d (out_data (create_thread fresh now user ctx p d))"
  by (rule create_thread_cases[of fresh now user ctx p d])
    (simp_all add: upd_team_le upd_channel_le add_thread_le)

lemma create_reply_le: "data_le d (out_data (create_reply fresh now user ctx p d))"
  by (rule create_reply_cases[of fresh now user ctx p d])
    (simp_all add: upd_team_le upd_channel_le upd_thread_le add_reply_le)

lemma handle_create_le: "data_le d (out_data (handle_create fresh now fd p d))"
  by (simp add: handle_create_def create_team_le create_channel_le create_thread_le create_reply_le
      split: option.split)

text \<open>A UUID that is new to the data is new to every list it may enter.\<close>

lemma fresh_in_path:
  assumes "fresh_uuid u d" and "t \<in> set (teams d)"
  shows "u \<notin> channel_uuid ` set (team_channels t)"
    and "c \<in> set (team_channels t) \<Longrightarrow> u \<notin> thread_uuid ` set (channel_threads c)"
    and "c \<in> set (team_channels t) \<Longrightarrow> h \<in> set (channel_threads c) \<Longrightarrow>
           u \<notin> reply_uuid ` set (thread_replies h)"
  using fresh_uuidD(4)[OF assms] by (auto simp: team_uuids_def channel_uuids_def)

lemma wf_add_channel:
  "wf_team ids t \<Longrightarrow> wf_channel ids c \<Longrightarrow> channel_uuid c \<notin> channel_uuid ` set (team_channels t) \<Longrightarrow>
     wf_team ids (t\<lparr>team_channels := team_channels t @ [c]\<rparr>)"
  by (auto simp: wf_team_def)

lemma wf_add_thread:
  "wf_channel ids c \<Longrightarrow> wf_thread ids t \<Longrightarrow> thread_uuid t \<notin> thread_uuid ` set (channel_threads c) \<Longrightarrow>
     wf_channel ids (c\<lparr>channel_threads := channel_threads c @ [t]\<rparr>)"
  by (auto simp: wf_channel_def)

lemma wf_add_reply:
  "wf_thread ids t \<Longrightarrow> wf_reply ids r \<Longrightarrow> reply_uuid r \<notin> reply_uuid ` set (thread_replies t) \<Longrightarrow>
     wf_thread ids (t\<lparr>thread_replies := thread_replies t @ [r]\<rparr>)"
  by (auto simp: wf_thread_def)

lemma wf_create_team:
  assumes "wf_data d" and "fresh_uuid fresh d" and "valid_uuid36 user" and "user \<in> user_ids d"
  shows "wf_data (out_data (create_team fresh user p d))"
proof (rule create_team_cases[of fresh user p d])
  let ?t = "new_team fresh user p" and ?e = "d\<lparr>teams := teams d @ [new_team fresh user p]\<rparr>"
  assume len: "32 + 255 \<le> length p" and eq: "create_team fresh user p d = (
      add_push (make_push (event_code EVT_TEAM_CREATED) (team_info ?t) (logged_fds d))
           (ok RES_TEAM_CREATED (team_info ?t)),
         [server_event_team_created fresh (take 32 p) user], ?e)"
  have "wf_teams d" using assms(1) by (simp add: wf_data_def)
  moreover have "wf_team (user_ids d) ?t"
    using wf_new_nodes(1)[OF fresh_uuidD(1)[OF assms(2)] assms(3,4) len] .
  moreover have "team_uuid ?t \<notin> team_uuid ` set (teams d)"
    using fresh_uuidD(3)[OF assms(2)] by (simp add: new_team_def)
  ultimately have "wf_teams ?e"
    by (rule wf_teams_append) simp_all
  moreover have "data_le d ?e"
    by (simp add: data_le_def grows_refl grows_append)
  ultimately show ?thesis
    using wf_data_teams[OF assms(1)] by (simp add: eq)
qed (use assms in simp)

lemma wf_create_channel:
  assumes "wf_data d" and "fresh_uuid fresh d" and "valid_uuid36 user" and "user \<in> user_ids d"
  shows "wf_data (out_data (create_channel fresh user ctx p d))"
proof (rule create_channel_cases[of fresh user ctx p d])
  fix ti
  assume len: "32 + 255 \<le> length p" and "resolve_team d ctx = Some ti"
    and eq: "create_channel fresh user ctx p d =
        (add_push (make_push (event_code EVT_CHANNEL_CREATED) (channel_info (new_channel fresh p))
             (team_member_fds d (teams d ! ti)))
           (ok RES_CHANNEL_CREATED (channel_info (new_channel fresh p))),
         [server_event_channel_created (team_uuid (teams d ! ti)) fresh (take 32 p)],
         upd_team ti (\<lambda>t. t\<lparr>team_channels := team_channels t @ [new_channel fresh p]\<rparr>) d)"
  then have ti: "ti < length (teams d)" by (simp add: resolve_teamD)
  have "wf_channel (user_ids d) (new_channel fresh p)"
    using wf_new_nodes(2)[OF fresh_uuidD(1)[OF assms(2)] assms(3,4) len] .
  moreover have "channel_uuid (new_channel fresh p) \<notin> channel_uuid ` set (team_channels (teams d ! ti))"
    using fresh_in_path(1)[OF assms(2)] ti by (simp add: new_channel_def)
  ultimately show ?thesis
    using wf_team_nth[OF assms(1) ti]
    by (simp add: eq wf_upd_team[OF assms(1)] add_channel_le wf_add_channel)
qed (use assms in simp)

lemma wf_create_thread:
  assumes "wf_data d" and "fresh_uuid fresh d" and "valid_uuid36 user" and "user \<in> user_ids d"
  shows "wf_data (out_data (create_thread fresh now user ctx p d))"
proof (rule create_thread_cases[of fresh now user ctx p d])
  fix ti ci
  let ?h = "new_thread fresh now user p" and ?t = "teams d ! ti"
  assume len: "32 + 512 \<le> length p" and r: "resolve_channel d ctx = Some (ti, ci)"
    and eq: "create_thread fresh now user ctx p d =
        (add_push (make_push (event_code EVT_THREAD_CREATED) (thread_info ?h)
             (team_member_fds d ?t)) (ok RES_THREAD_CREATED (thread_info ?h)),
         [server_event_thread_created (channel_uuid (team_channels ?t ! ci)) fresh user
            (take 32 p) (take 512 (drop 32 p))],
         upd_team ti (upd_channel ci (\<lambda>c. c\<lparr>channel_threads := channel_threads c @ [?h]\<rparr>)) d)"
  from resolve_channelD[OF r] have i: "ti < length (teams d)" "ci < length (team_channels ?t)" by auto
  then have t: "wf_team (user_ids d) ?t" and c: "wf_channel (user_ids d) (team_channels ?t ! ci)"
    using wf_team_nth[OF assms(1) i(1)] by (simp_all add: wf_channel_nth)
  have "wf_thread (user_ids d) ?h"
    using wf_new_nodes(3)[OF fresh_uuidD(1)[OF assms(2)] assms(3,4) len] .
  moreover have "thread_uuid ?h \<notin> thread_uuid ` set (channel_threads (team_channels ?t ! ci))"
    using fresh_in_path(2)[OF assms(2) nth_mem[OF i(1)] nth_mem[OF i(2)]] by (simp add: new_thread_def)
  ultimately show ?thesis
    using t c by (simp add: eq wf_upd_team[OF assms(1)] upd_channel_le add_thread_le
        wf_upd_channel wf_add_thread)
qed (use assms in simp)

lemma wf_create_reply:
  assumes "wf_data d" and "fresh_uuid fresh d" and "valid_uuid36 user" and "user \<in> user_ids d"
  shows "wf_data (out_data (create_reply fresh now user ctx p d))"
proof (rule create_reply_cases[of fresh now user ctx p d])
  fix ti ci hi
  let ?r = "new_reply fresh now user p" and ?t = "teams d ! ti"
  let ?c = "team_channels ?t ! ci"
  let ?h = "channel_threads ?c ! hi"
  assume len: "512 \<le> length p" and r: "resolve_thread d ctx = Some (ti, ci, hi)"
    and eq: "create_reply fresh now user ctx p d =
        (add_push (make_push (event_code EVT_REPLY_CREATED) (reply_info (ctx_thread_uuid ctx) ?r)
             (team_member_fds d ?t)) (ok RES_REPLY_CREATED (reply_info (ctx_thread_uuid ctx) ?r)),
         [server_event_reply_created (thread_uuid ?h) user (take 512 p)],
         upd_team ti (upd_channel ci (upd_thread hi
           (\<lambda>t. t\<lparr>thread_replies := thread_replies t @ [?r]\<rparr>))) d)"
  from resolve_threadD[OF r] have i: "ti < length (teams d)" "ci < length (team_channels ?t)"
    "hi < length (channel_threads ?c)" using resolve_channelD by blast+
  then have t: "wf_team (user_ids d) ?t" "wf_channel (user_ids d) ?c" "wf_thread (user_ids d) ?h"
    using wf_team_nth[OF assms(1) i(1)] i(2,3) by (simp_all add: wf_channel_nth wf_thread_nth)
  have "wf_reply (user_ids d) ?r"
    using wf_new_nodes(4)[OF fresh_uuidD(1)[OF assms(2)] assms(3,4) len] .
  moreover have "reply_uuid ?r \<notin> reply_uuid ` set (thread_replies ?h)"
    using fresh_in_path(3)[OF assms(2) nth_mem[OF i(1)] nth_mem[OF i(2)] nth_mem[OF i(3)]]
    by (simp add: new_reply_def)
  ultimately show ?thesis
    using t by (simp add: eq wf_upd_team[OF assms(1)] upd_channel_le upd_thread_le add_reply_le
        wf_upd_channel wf_upd_thread wf_add_reply)
qed (use assms in simp)

lemma wf_handle_create:
  assumes "wf_data d" and "fresh_uuid fresh d"
  shows "wf_data (out_data (handle_create fresh now fd p d))"
proof (cases "omap_find (sessions d) fd")
  case None
  with assms show ?thesis by (simp add: handle_create_def)
next
  case (Some user)
  note u = wf_session_uuid[OF assms(1) Some]
  show ?thesis
    using Some assms wf_create_team[OF assms u] wf_create_channel[OF assms u]
      wf_create_thread[OF assms u] wf_create_reply[OF assms u]
    by (simp add: handle_create_def split: option.split)
qed

end
