(* ===== verification/Listing.thy ===== *)
theory Listing
  imports Context
begin

text \<open>
  Listing and describing the current context: \<open>handle_list\<close>
  (src/server/handlers/mtp_list.cpp) and \<open>handle_info\<close> (mtp_info.cpp). Both only read.
  Neither asks whether the user is (still) a member of the team.
\<close>

section \<open>handle_list\<close>

definition list_team_items :: "server_data_t \<Rightarrow> bytes" where
  "list_team_items d = fold append_team_info (teams d) (append_u32 [] (word_of_nat (length (teams d))))"

definition list_channel_items :: "team_t \<Rightarrow> bytes" where
  "list_channel_items t = fold append_channel_info (team_channels t)
     (append_u32 [] (word_of_nat (length (team_channels t))))"

definition list_thread_items :: "channel_t \<Rightarrow> bytes" where
  "list_thread_items c = fold append_thread_info (channel_threads c)
     (append_u32 [] (word_of_nat (length (channel_threads c))))"

definition list_reply_items :: "client_context_t \<Rightarrow> thread_t \<Rightarrow> bytes" where
  "list_reply_items ctx t = fold (append_reply_info ctx) (thread_replies t)
     (append_u32 [] (word_of_nat (length (thread_replies t))))"

definition handle_list :: "int \<Rightarrow> server_data_t \<Rightarrow> outcome" where
  "handle_list fd d =
     (case omap_find (sessions d) fd of
        None \<Rightarrow> fail ERR_UNAUTHORIZED [] d
      | Some user \<Rightarrow>
        (case omap_find (client_contexts d) fd of
           None \<Rightarrow> fail ERR_INVALID_COMMAND [] d
         | Some ctx \<Rightarrow>
           if ctx_level ctx = use_code USE_NONE then (ok RES_LIST_TEAMS (list_team_items d), [], d)
           else if ctx_level ctx = use_code USE_TEAM then
             (case find_team_by_uuid d (take kUuidWireSize (ctx_team_uuid ctx)) of
                None \<Rightarrow> fail ERR_UNKNOWN_TEAM [] d
              | Some ti \<Rightarrow> (ok RES_LIST_CHANNELS (list_channel_items (teams d ! ti)), [], d))
           else if ctx_level ctx = use_code USE_CHANNEL then
             (case find_team_by_uuid d (take kUuidWireSize (ctx_team_uuid ctx)) of
                None \<Rightarrow> fail ERR_UNKNOWN_TEAM [] d
              | Some ti \<Rightarrow>
                (case find_channel_by_uuid (teams d ! ti) (take kUuidWireSize (ctx_channel_uuid ctx)) of
                   None \<Rightarrow> fail ERR_UNKNOWN_CHANNEL [] d
                 | Some ci \<Rightarrow>
                   (ok RES_LIST_THREADS (list_thread_items (team_channels (teams d ! ti) ! ci)), [], d)))
           else if ctx_level ctx = use_code USE_THREAD then
             (case find_team_by_uuid d (take kUuidWireSize (ctx_team_uuid ctx)) of
                None \<Rightarrow> fail ERR_UNKNOWN_TEAM [] d
              | Some ti \<Rightarrow>
                (case find_channel_by_uuid (teams d ! ti) (take kUuidWireSize (ctx_channel_uuid ctx)) of
                   None \<Rightarrow> fail ERR_UNKNOWN_CHANNEL [] d
                 | Some ci \<Rightarrow>
                   (case find_thread_by_uuid (team_channels (teams d ! ti) ! ci)
                           (take kUuidWireSize (ctx_thread_uuid ctx)) of
                      None \<Rightarrow> fail ERR_UNKNOWN_THREAD [] d
                    | Some hi \<Rightarrow>
                      (ok RES_LIST_REPLIES
                         (list_reply_items ctx (channel_threads (team_channels (teams d ! ti) ! ci) ! hi)),
                       [], d))))
           else fail ERR_INVALID_COMMAND [] d))"

section \<open>handle_info\<close>

definition handle_info :: "int \<Rightarrow> server_data_t \<Rightarrow> outcome" where
  "handle_info fd d =
     (case omap_find (sessions d) fd of
        None \<Rightarrow> fail ERR_UNAUTHORIZED [] d
      | Some user \<Rightarrow>
        (case omap_find (client_contexts d) fd of
           None \<Rightarrow> fail ERR_INVALID_COMMAND [] d
         | Some ctx \<Rightarrow>
           if ctx_level ctx = use_code USE_NONE then (ok RES_USER_DETAILS (user_details d user), [], d)
           else if ctx_level ctx = use_code USE_TEAM then
             (case find_team_by_uuid d (take kUuidWireSize (ctx_team_uuid ctx)) of
                None \<Rightarrow> fail ERR_UNKNOWN_TEAM [] d
              | Some ti \<Rightarrow> (ok RES_TEAM_INFO (append_team_info (teams d ! ti) []), [], d))
           else if ctx_level ctx = use_code USE_CHANNEL then
             (case find_team_by_uuid d (take kUuidWireSize (ctx_team_uuid ctx)) of
                None \<Rightarrow> fail ERR_UNKNOWN_TEAM [] d
              | Some ti \<Rightarrow>
                (case find_channel_by_uuid (teams d ! ti) (take kUuidWireSize (ctx_channel_uuid ctx)) of
                   None \<Rightarrow> fail ERR_UNKNOWN_CHANNEL [] d
                 | Some ci \<Rightarrow>
                   (ok RES_CHANNEL_INFO (append_channel_info (team_channels (teams d ! ti) ! ci) []), [], d)))
           else if ctx_level ctx = use_code USE_THREAD then
             (case find_team_by_uuid d (take kUuidWireSize (ctx_team_uuid ctx)) of
                None \<Rightarrow> fail ERR_UNKNOWN_TEAM [] d
              | Some ti \<Rightarrow>
                (case find_channel_by_uuid (teams d ! ti) (take kUuidWireSize (ctx_channel_uuid ctx)) of
                   None \<Rightarrow> fail ERR_UNKNOWN_CHANNEL [] d
                 | Some ci \<Rightarrow>
                   (case find_thread_by_uuid (team_channels (teams d ! ti) ! ci)
                           (take kUuidWireSize (ctx_thread_uuid ctx)) of
                      None \<Rightarrow> fail ERR_UNKNOWN_THREAD [] d
                    | Some hi \<Rightarrow>
                      (ok RES_THREAD_INFO
                         (append_thread_info (channel_threads (team_channels (teams d ! ti) ! ci) ! hi) []),
                       [], d))))
           else fail ERR_INVALID_COMMAND [] d))"

section \<open>The data is left alone\<close>

lemma handle_list_data [frame_simps]: "out_data (handle_list fd d) = d"
  by (simp add: handle_list_def split: option.split)

lemma handle_info_data [frame_simps]: "out_data (handle_info fd d) = d"
  by (simp add: handle_info_def split: option.split)

section \<open>A valid context always has an answer\<close>

text \<open>The four answers of a listing for a session with context \<open>ctx\<close>.\<close>

lemma handle_list_levels:
  assumes "omap_find (sessions d) fd = Some user" and "omap_find (client_contexts d) fd = Some ctx"
  shows "ctx_level ctx = use_code USE_NONE \<Longrightarrow>
      handle_list fd d = (ok RES_LIST_TEAMS (list_team_items d), [], d)"
    and "ctx_level ctx = use_code USE_TEAM \<Longrightarrow> resolve_team d ctx = Some ti \<Longrightarrow>
      handle_list fd d = (ok RES_LIST_CHANNELS (list_channel_items (teams d ! ti)), [], d)"
    and "ctx_level ctx = use_code USE_CHANNEL \<Longrightarrow> resolve_channel d ctx = Some (ti, ci) \<Longrightarrow>
      handle_list fd d =
        (ok RES_LIST_THREADS (list_thread_items (team_channels (teams d ! ti) ! ci)), [], d)"
    and "ctx_level ctx = use_code USE_THREAD \<Longrightarrow> resolve_thread d ctx = Some (ti, ci, hi) \<Longrightarrow>
      handle_list fd d = (ok RES_LIST_REPLIES
        (list_reply_items ctx (channel_threads (team_channels (teams d ! ti) ! ci) ! hi)), [], d)"
  using assms
  by (auto simp: handle_list_def resolve_team_def resolve_channel_def resolve_thread_def
      split: option.splits)

lemma handle_info_levels:
  assumes "omap_find (sessions d) fd = Some user" and "omap_find (client_contexts d) fd = Some ctx"
  shows "ctx_level ctx = use_code USE_NONE \<Longrightarrow>
      handle_info fd d = (ok RES_USER_DETAILS (user_details d user), [], d)"
    and "ctx_level ctx = use_code USE_TEAM \<Longrightarrow> resolve_team d ctx = Some ti \<Longrightarrow>
      handle_info fd d = (ok RES_TEAM_INFO (team_info (teams d ! ti)), [], d)"
    and "ctx_level ctx = use_code USE_CHANNEL \<Longrightarrow> resolve_channel d ctx = Some (ti, ci) \<Longrightarrow>
      handle_info fd d = (ok RES_CHANNEL_INFO (channel_info (team_channels (teams d ! ti) ! ci)), [], d)"
    and "ctx_level ctx = use_code USE_THREAD \<Longrightarrow> resolve_thread d ctx = Some (ti, ci, hi) \<Longrightarrow>
      handle_info fd d = (ok RES_THREAD_INFO
        (thread_info (channel_threads (team_channels (teams d ! ti) ! ci) ! hi)), [], d)"
  using assms
  by (auto simp: handle_info_def resolve_team_def resolve_channel_def resolve_thread_def
      append_infos split: option.splits)

lemma ctx_valid_cases:
  assumes "ctx_valid d ctx"
  obtains (none) "ctx_level ctx = use_code USE_NONE"
  | (team) ti where "ctx_level ctx = use_code USE_TEAM" and "resolve_team d ctx = Some ti"
  | (channel) ti ci where "ctx_level ctx = use_code USE_CHANNEL" and "resolve_channel d ctx = Some (ti, ci)"
  | (thread) ti ci hi where "ctx_level ctx = use_code USE_THREAD"
      and "resolve_thread d ctx = Some (ti, ci, hi)"
proof -
  obtain l where l: "ctx_level ctx = use_code l" using assms by (auto simp: ctx_valid_def)
  show ?thesis
  proof (cases l)
    case USE_NONE
    with l none show ?thesis by simp
  next
    case USE_TEAM
    with l assms team show ?thesis by (auto simp: ctx_valid_level[OF l])
  next
    case USE_CHANNEL
    with l assms channel show ?thesis by (auto simp: ctx_valid_level[OF l])
  next
    case USE_THREAD
    with l assms thread show ?thesis by (auto simp: ctx_valid_level[OF l])
  qed
qed

end
