(* ===== verification/Business.thy ===== *)
theory Business
  imports Auth Messages Subscriptions Create Listing
begin

text \<open>
  The command switch of \<open>Server::_dispatch\<close> (src/server/Server.cpp): which handler runs
  for which command and what it is given. The locale collects what an invariant of the
  data has to satisfy, handler by handler, and concludes it for every command; Server
  carries it on to the event loop.
\<close>

section \<open>The switch\<close>

text \<open>A view of \<open>n\<close> bytes of the payload, empty if the payload is too short.\<close>

definition extract_sv :: "bytes \<Rightarrow> nat \<Rightarrow> nat \<Rightarrow> bytes" where
  "extract_sv p offset n = (if length p < offset + n then [] else take n (drop offset p))"

definition run_command :: "command \<Rightarrow> bytes \<Rightarrow> u64 \<Rightarrow> int \<Rightarrow> bytes \<Rightarrow> server_data_t \<Rightarrow> outcome" where
  "run_command cmd fresh now fd payload d =
     (case cmd of
        CMD_LOGIN \<Rightarrow> handle_login fresh fd (extract_sv payload 0 (length payload)) d
      | CMD_LOGOUT \<Rightarrow> handle_logout fd d
      | CMD_USERS \<Rightarrow> handle_users fd d
      | CMD_USER \<Rightarrow> handle_user fd (extract_sv payload 0 36) d
      | CMD_SEND \<Rightarrow> handle_send now fd (extract_sv payload 0 36) (extract_sv payload 36 MAX_BODY_LENGTH) d
      | CMD_MESSAGES \<Rightarrow> handle_messages fd (extract_sv payload 0 36) d
      | CMD_SUBSCRIBE \<Rightarrow> handle_subscribe fd (extract_sv payload 0 36) d
      | CMD_SUBSCRIBED \<Rightarrow>
          if payload \<noteq> [] \<and> payload ! 0 = 0x01
          then handle_subscribed_users fd (extract_sv payload 1 36) d
          else handle_subscribed_teams fd d
      | CMD_UNSUBSCRIBE \<Rightarrow> handle_unsubscribe fd (extract_sv payload 0 36) d
      | CMD_USE \<Rightarrow> handle_use fd (extract_sv payload 0 (length payload)) d
      | CMD_CREATE \<Rightarrow> handle_create fresh now fd (extract_sv payload 0 (length payload)) d
      | CMD_LIST \<Rightarrow> handle_list fd d
      | CMD_INFO \<Rightarrow> handle_info fd d)"

lemma extract_sv_all [simp]: "extract_sv p 0 (length p) = p"
  by (simp add: extract_sv_def)

lemma extract_sv_length: "extract_sv p off n \<noteq> [] \<Longrightarrow> length (extract_sv p off n) = n"
  by (auto simp: extract_sv_def split: if_splits)

lemma extract_sv_take [simp]: "off + n \<le> length p \<Longrightarrow> extract_sv p off n = take n (drop off p)"
  by (simp add: extract_sv_def)

lemma extract_sv_short [simp]: "length p < off + n \<Longrightarrow> extract_sv p off n = []"
  by (simp add: extract_sv_def)

section \<open>Invariants of the data\<close>

text \<open>
  \<open>I k d\<close>: the invariant after \<open>k\<close> commands. The \<open>k\<close>-th command sees the UUID \<open>gen k\<close>,
  which only login and create use.
\<close>

locale data_invariant =
  fixes gen :: "nat \<Rightarrow> bytes" and I :: "nat \<Rightarrow> server_data_t \<Rightarrow> bool"
  assumes tick: "I k d \<Longrightarrow> I (Suc k) d"
    and login: "I k d \<Longrightarrow> I (Suc k) (out_data (handle_login (gen k) fd name d))"
    and create: "I k d \<Longrightarrow> I (Suc k) (out_data (handle_create (gen k) now fd p d))"
    and logout: "I k d \<Longrightarrow> I k (out_data (handle_logout fd d))"
    and send: "I k d \<Longrightarrow> I k (out_data (handle_send now fd r body d))"
    and subscribe: "I k d \<Longrightarrow> I k (out_data (handle_subscribe fd t d))"
    and unsubscribe: "I k d \<Longrightarrow> I k (out_data (handle_unsubscribe fd t d))"
    and use: "I k d \<Longrightarrow> I k (out_data (handle_use fd p d))"
begin

lemma run_command:
  assumes "I k d"
  shows "I (Suc k) (out_data (run_command cmd (gen k) now fd payload d))"
  using assms
  by (cases cmd) (simp_all add: run_command_def frame_simps login create
      tick logout send subscribe unsubscribe use)

end

section \<open>UUIDs in use\<close>

lemma user_uuids_le: "map user_uuid (users e) = map user_uuid (users d) \<Longrightarrow>
    user_uuid ` set (users e) = user_uuid ` set (users d)"
  by (metis list.set_map)

lemma uuids_handle_login:
  "data_uuids (out_data (handle_login fresh fd name d)) \<subseteq> insert fresh (data_uuids d)"
proof -
  obtain d1 i logs where l: "login_user fresh fd (trim_padded_name name) d = (d1, i, logs)"
    by (metis prod_cases3)
  have "user_uuid ` set (users d1) \<subseteq> insert fresh (user_uuid ` set (users d))"
    using l by (auto simp: login_user_def Let_def split: option.splits)
  moreover have "user_uuid ` set (users (login_session fd i d1)) = user_uuid ` set (users d1)"
    by (rule user_uuids_le) (simp add: map_list_update_same)
  ultimately show ?thesis
    using login_user_frame(3)[OF l] l by (auto simp: handle_login_def Let_def data_uuids_def)
qed

lemma uuids_handle_logout: "data_uuids (out_data (handle_logout fd d)) = data_uuids d"
  using user_uuids_le[OF logout_session_uuids]
  by (auto simp: handle_logout_def Let_def data_uuids_def split: option.splits)

lemma uuids_handle_send: "data_uuids (out_data (handle_send now fd r body d)) = data_uuids d"
  by (simp add: data_uuids_def frame_simps)

lemma uuids_set_members:
  assumes "i < length (teams d)"
  shows "data_uuids (set_members i ms d) = data_uuids d"
proof -
  have "map team_uuids (teams (set_members i ms d)) = map team_uuids (teams d)"
    by (simp add: set_members_def map_list_update_same team_uuids_def)
  then have "team_uuids ` set (teams (set_members i ms d)) = team_uuids ` set (teams d)"
    by (metis list.set_map)
  then show ?thesis by (simp add: data_uuids_def)
qed

lemma uuids_handle_subscribe: "data_uuids (out_data (handle_subscribe fd t d)) = data_uuids d"
  by (rule handle_subscribe_cases[of fd t d]) (simp_all add: uuids_set_members find_team_by_uuidD)

lemma uuids_handle_unsubscribe: "data_uuids (out_data (handle_unsubscribe fd t d)) = data_uuids d"
  by (rule handle_unsubscribe_cases[of fd t d]) (simp_all add: uuids_set_members find_team_by_uuidD)

lemma uuids_handle_use: "data_uuids (out_data (handle_use fd p d)) = data_uuids d"
  using handle_use_moves[of fd d p] by (auto simp: moves_def data_uuids_def)

lemma UN_list_update:
  assumes "f y \<subseteq> insert a (f (xs ! i))" and "i < length xs"
  shows "(\<Union>x \<in> set (xs[i := y]). f x) \<subseteq> insert a (\<Union>x \<in> set xs. f x)"
proof -
  have "f x \<subseteq> insert a (\<Union>x \<in> set xs. f x)" if "x \<in> set (xs[i := y])" for x
    using that assms nth_mem[OF assms(2)] by (auto elim!: set_list_updateE)
  then show ?thesis by blast
qed

lemma uuids_upd_team:
  assumes "ti < length (teams d)" and "team_uuids (f (teams d ! ti)) \<subseteq> insert a (team_uuids (teams d ! ti))"
  shows "data_uuids (upd_team ti f d) \<subseteq> insert a (data_uuids d)"
  using UN_list_update[OF assms(2,1)] by (auto simp: data_uuids_def upd_team_def)

lemma uuids_upd_channel:
  assumes "ci < length (team_channels t)"
    and "channel_uuids (f (team_channels t ! ci)) \<subseteq> insert a (channel_uuids (team_channels t ! ci))"
  shows "team_uuids (upd_channel ci f t) \<subseteq> insert a (team_uuids t)"
  using UN_list_update[OF assms(2,1)] by (auto simp: team_uuids_def upd_channel_def)

lemma union_subset_insert: "B \<subseteq> insert a C \<Longrightarrow> A \<union> B \<subseteq> insert a (A \<union> C)"
  by blast

lemma uuids_add_reply:
  assumes "hi < length (channel_threads c)"
  shows "channel_uuids (upd_thread hi (\<lambda>t. t\<lparr>thread_replies := thread_replies t @ [r]\<rparr>) c)
           \<subseteq> insert (reply_uuid r) (channel_uuids c)"
proof -
  let ?e = "upd_thread hi (\<lambda>t. t\<lparr>thread_replies := thread_replies t @ [r]\<rparr>) c"
  let ?f = "\<lambda>t. reply_uuid ` set (thread_replies t)"
  let ?h = "channel_threads c ! hi"
  have "(\<Union>t \<in> set ((channel_threads c)[hi := ?h\<lparr>thread_replies := thread_replies ?h @ [r]\<rparr>]). ?f t)
      \<subseteq> insert (reply_uuid r) (\<Union>t \<in> set (channel_threads c). ?f t)"
    by (rule UN_list_update) (use assms in auto)
  then have replies: "(\<Union>t \<in> set (channel_threads ?e). ?f t)
      \<subseteq> insert (reply_uuid r) (\<Union>t \<in> set (channel_threads c). ?f t)"
    by (simp add: upd_thread_def)
  have "map thread_uuid (channel_threads ?e) = map thread_uuid (channel_threads c)"
    by (simp add: upd_thread_def map_update list_update_same_conv assms)
  from arg_cong[OF this, of set]
  have threads: "thread_uuid ` set (channel_threads ?e) = thread_uuid ` set (channel_threads c)"
    by (simp only: set_map)
  have uuid: "channel_uuid ?e = channel_uuid c"
    by (simp add: upd_thread_def)
  show ?thesis
    unfolding channel_uuids_def uuid threads by (rule union_subset_insert[OF replies])
qed

lemma uuids_add_channel:
  "channel_threads c = [] \<Longrightarrow>
     team_uuids (t\<lparr>team_channels := team_channels t @ [c]\<rparr>) \<subseteq> insert (channel_uuid c) (team_uuids t)"
  by (auto simp: team_uuids_def channel_uuids_def)

lemma uuids_add_thread:
  "thread_replies h = [] \<Longrightarrow>
     channel_uuids (c\<lparr>channel_threads := channel_threads c @ [h]\<rparr>) \<subseteq> insert (thread_uuid h) (channel_uuids c)"
  by (auto simp: channel_uuids_def)

lemma uuids_handle_create:
  "data_uuids (out_data (handle_create fresh now fd p d)) \<subseteq> insert fresh (data_uuids d)"
proof -
  have team: "data_uuids (out_data (create_team fresh user p d)) \<subseteq> insert fresh (data_uuids d)" for user
    by (rule create_team_cases[of fresh user p d])
      (auto simp: data_uuids_def new_team_def team_uuids_def)
  have channel: "data_uuids (out_data (create_channel fresh user ctx p d)) \<subseteq> insert fresh (data_uuids d)"
    for user ctx
  proof (rule create_channel_cases[of fresh user ctx p d], goal_cases)
    case (2 ti)
    then show ?case
      using resolve_teamD[OF 2(2)] uuids_add_channel[of "new_channel fresh p" "teams d ! ti"]
      by (simp add: uuids_upd_team new_channel_def)
  qed auto
  have thread: "data_uuids (out_data (create_thread fresh now user ctx p d)) \<subseteq> insert fresh (data_uuids d)"
    for user ctx
  proof (rule create_thread_cases[of fresh now user ctx p d], goal_cases)
    case (2 ti ci)
    then show ?case
      using resolve_channelD[OF 2(2)]
        uuids_add_thread[of "new_thread fresh now user p" "team_channels (teams d ! ti) ! ci"]
      by (simp add: uuids_upd_team uuids_upd_channel new_thread_def)
  qed auto
  have reply: "data_uuids (out_data (create_reply fresh now user ctx p d)) \<subseteq> insert fresh (data_uuids d)"
    for user ctx
  proof (rule create_reply_cases[of fresh now user ctx p d], goal_cases)
    case (2 ti ci hi)
    then show ?case
      using resolve_threadD[OF 2(2)] resolve_channelD[of d ctx ti ci]
        uuids_add_reply[of hi "team_channels (teams d ! ti) ! ci" "new_reply fresh now user p"]
      by (simp add: uuids_upd_team uuids_upd_channel new_reply_def)
  qed auto
  show ?thesis
    using team channel thread reply by (auto simp: handle_create_def split: option.splits if_splits)
qed

section \<open>The invariants of this development\<close>

text \<open>
  What is assumed of libuuid over the first \<open>n\<close> commands: well-formed strings, all
  different. (No function can produce infinitely many different 36-byte strings, so the
  assumption is always about a bounded run.)
\<close>

definition good_gen :: "(nat \<Rightarrow> bytes) \<Rightarrow> nat \<Rightarrow> bool" where
  "good_gen gen n \<longleftrightarrow> (\<forall>k < n. valid_uuid37 (gen k)) \<and> inj_on gen {..<n}"

definition data_ok :: "(nat \<Rightarrow> bytes) \<Rightarrow> nat \<Rightarrow> server_data_t \<Rightarrow> bool" where
  "data_ok gen k d \<longleftrightarrow> (good_gen gen k \<longrightarrow> wf_data d \<and> data_uuids d \<subseteq> gen ` {..<k})"

lemma good_gen_mono: "good_gen gen n \<Longrightarrow> k \<le> n \<Longrightarrow> good_gen gen k"
  by (auto simp: good_gen_def intro: inj_on_subset)

lemma data_ok_fresh:
  assumes "data_ok gen k d" and "good_gen gen (Suc k)"
  shows "wf_data d" and "data_uuids d \<subseteq> gen ` {..<k}" and "fresh_uuid (gen k) d"
proof -
  have "good_gen gen k" using assms(2) by (rule good_gen_mono) simp
  with assms(1) show d: "wf_data d" "data_uuids d \<subseteq> gen ` {..<k}" by (auto simp: data_ok_def)
  have "inj_on gen {..<Suc k}" using assms(2) by (simp add: good_gen_def)
  then have "gen k \<notin> gen ` {..<k}"
    by (subst inj_on_image_mem_iff[where B = "{..<Suc k}"]) auto
  with d(2) have "gen k \<notin> data_uuids d" by blast
  with assms(2) show "fresh_uuid (gen k) d"
    by (simp add: fresh_uuid_def good_gen_def)
qed

lemma image_less_Suc: "gen ` {..<Suc k} = insert (gen k) (gen ` {..<k})"
  by (simp add: lessThan_Suc)

lemma data_ok_new:
  assumes "data_ok gen k d" and "data_uuids e \<subseteq> insert (gen k) (data_uuids d)"
    and "wf_data d \<Longrightarrow> fresh_uuid (gen k) d \<Longrightarrow> wf_data e"
  shows "data_ok gen (Suc k) e"
  unfolding data_ok_def
proof
  assume g: "good_gen gen (Suc k)"
  note D = data_ok_fresh[OF assms(1) g]
  have "data_uuids e \<subseteq> gen ` {..<Suc k}"
    unfolding image_less_Suc using assms(2) D(2) by blast
  with assms(3)[OF D(1,3)] show "wf_data e \<and> data_uuids e \<subseteq> gen ` {..<Suc k}" ..
qed

lemma data_ok_same:
  "data_ok gen k d \<Longrightarrow> data_uuids e = data_uuids d \<Longrightarrow> (wf_data d \<Longrightarrow> wf_data e) \<Longrightarrow> data_ok gen k e"
  by (auto simp: data_ok_def)

interpretation ok: data_invariant gen "data_ok gen" for gen
proof (unfold_locales, goal_cases)
  case (1 k d)
  then show ?case by (rule data_ok_new) auto
next
  case (2 k d fd name)
  from 2 uuids_handle_login wf_handle_login show ?case by (rule data_ok_new)
next
  case (3 k d now fd p)
  from 3 uuids_handle_create wf_handle_create show ?case by (rule data_ok_new)
next
  case (4 k d fd)
  from 4 uuids_handle_logout wf_handle_logout show ?case by (rule data_ok_same)
next
  case (5 k d now fd r body)
  from 5 uuids_handle_send wf_handle_send show ?case by (rule data_ok_same)
next
  case (6 k d fd t)
  from 6 uuids_handle_subscribe wf_handle_subscribe show ?case by (rule data_ok_same)
next
  case (7 k d fd t)
  from 7 uuids_handle_unsubscribe wf_handle_unsubscribe show ?case by (rule data_ok_same)
next
  case (8 k d fd p)
  from 8 uuids_handle_use wf_handle_use show ?case by (rule data_ok_same)
qed

lemma data_ok0: "data_ok gen 0 server_data0"
  using wf_server_data0 by (simp add: data_ok_def data_uuids_def) (simp add: server_data0_def)

text \<open>Growth is an invariant too: nothing that was stored is ever lost or changed.\<close>

interpretation grown: data_invariant gen "\<lambda>_ d. data_le d0 d" for gen d0
proof (unfold_locales, goal_cases)
  case 1 then show ?case .
next
  case 2 then show ?case using handle_login_le data_le_trans by blast
next
  case 3 then show ?case using handle_create_le data_le_trans by blast
next
  case 4 then show ?case using handle_logout_le data_le_trans by blast
next
  case 5 then show ?case using handle_send_le data_le_trans by blast
next
  case 6 then show ?case using handle_subscribe_le data_le_trans by blast
next
  case 7 then show ?case using handle_unsubscribe_le data_le_trans by blast
next
  case 8 then show ?case using handle_use_le data_le_trans by blast
qed

section \<open>Sessions\<close>

text \<open>A command changes at most the session and the context of the descriptor that sent it.\<close>

lemma handle_create_sessions [frame_simps]:
  "sessions (out_data (handle_create fresh now fd p d)) = sessions d"
  "client_contexts (out_data (handle_create fresh now fd p d)) = client_contexts d"
proof -
  have "sessions (out_data (create_team fresh user p d)) = sessions d"
    "client_contexts (out_data (create_team fresh user p d)) = client_contexts d" for user
    by (rule create_team_cases[of fresh user p d]; simp)+
  moreover have "sessions (out_data (create_channel fresh user ctx p d)) = sessions d"
    "client_contexts (out_data (create_channel fresh user ctx p d)) = client_contexts d" for user ctx
    by (rule create_channel_cases[of fresh user ctx p d]; simp add: upd_team_def)+
  moreover have "sessions (out_data (create_thread fresh now user ctx p d)) = sessions d"
    "client_contexts (out_data (create_thread fresh now user ctx p d)) = client_contexts d" for user ctx
    by (rule create_thread_cases[of fresh now user ctx p d]; simp add: upd_team_def)+
  moreover have "sessions (out_data (create_reply fresh now user ctx p d)) = sessions d"
    "client_contexts (out_data (create_reply fresh now user ctx p d)) = client_contexts d" for user ctx
    by (rule create_reply_cases[of fresh now user ctx p d]; simp add: upd_team_def)+
  ultimately show "sessions (out_data (handle_create fresh now fd p d)) = sessions d"
    "client_contexts (out_data (handle_create fresh now fd p d)) = client_contexts d"
    by (simp_all add: handle_create_def split: option.split)
qed

lemma handle_subscription_sessions [frame_simps]:
  "sessions (out_data (handle_subscribe fd t d)) = sessions d"
  "sessions (out_data (handle_unsubscribe fd t d)) = sessions d"
  "client_contexts (out_data (handle_subscribe fd t d)) = client_contexts d"
  "client_contexts (out_data (handle_unsubscribe fd t d)) = client_contexts d"
  by (rule handle_subscribe_cases[of fd t d] handle_unsubscribe_cases[of fd t d]; simp)+

lemma handle_use_sessions [frame_simps]: "sessions (out_data (handle_use fd p d)) = sessions d"
  using handle_use_moves[of fd d p] by (auto simp: moves_def)

lemma handle_login_sessions:
  obtains s where "sessions (out_data (handle_login fresh fd name d)) = omap_set fd s (sessions d)"
proof -
  obtain d1 i logs where l: "login_user fresh fd (trim_padded_name name) d = (d1, i, logs)"
    by (metis prod_cases3)
  then show ?thesis
    using that[of "cstr (user_uuid (users d1 ! i))"] login_user_frame(1)[OF l]
    by (simp add: handle_login_def Let_def login_session_def)
qed

lemma handle_logout_sessions:
  "sessions (out_data (handle_logout fd d)) =
     (if omap_find (sessions d) fd = None then sessions d else omap_erase fd (sessions d))"
  by (auto simp: handle_logout_def Let_def logout_session_def split: option.splits)

lemma run_command_sessions:
  obtains (same) "sessions (out_data (run_command c fresh now fd p d)) = sessions d"
  | (opened) s where "c = CMD_LOGIN" and "sessions (out_data (run_command c fresh now fd p d)) = omap_set fd s (sessions d)"
  | (closed) "c = CMD_LOGOUT" and "sessions (out_data (run_command c fresh now fd p d)) = omap_erase fd (sessions d)"
proof (cases "c = CMD_LOGIN \<or> c = CMD_LOGOUT")
  case True
  then show ?thesis
  proof
    assume c: "c = CMD_LOGIN"
    obtain s where "sessions (out_data (handle_login fresh fd p d)) = omap_set fd s (sessions d)"
      by (rule handle_login_sessions)
    with c opened show ?thesis by (simp add: run_command_def)
  next
    assume "c = CMD_LOGOUT"
    with closed same handle_logout_sessions[of fd d] show ?thesis
      by (auto simp: run_command_def split: if_splits)
  qed
next
  case False
  then have "sessions (out_data (run_command c fresh now fd p d)) = sessions d"
    by (cases c) (simp_all add: run_command_def frame_simps)
  then show ?thesis by (rule same)
qed

end
