(* ===== verification/Framing.thy ===== *)
theory Framing
  imports Prelude
begin

text \<open>
  Reassembly of a stream into frames, the part the server's and the client's receive
  loops and the client's reading of lines share. A splitter looks at the head of a buffer and says whether a
  frame is there; the locale states when the frames found do not depend on how the
  stream was cut into reads. Server and Client_Net interpret it on their own loops.
\<close>

datatype ('b, 'f) split = Incomplete | Reject | Frame 'f "'b list"

text \<open>The frames of a buffer, what is left of it, and whether the loop met a rejected header.\<close>

function frames :: "('b list \<Rightarrow> ('b, 'f) split) \<Rightarrow> 'b list \<Rightarrow> 'f list \<times> 'b list \<times> bool" where
  "frames sp b = (case sp b of
       Incomplete \<Rightarrow> ([], b, False)
     | Reject \<Rightarrow> ([], b, True)
     | Frame f r \<Rightarrow>
         (if length r < length b
          then (case frames sp r of (fs, rest, bad) \<Rightarrow> (f # fs, rest, bad))
          else ([], b, True)))"
  by pat_completeness auto
termination
  by (relation "measure (\<lambda>(sp, b). length b)") auto

declare frames.simps [simp del]

text \<open>
  A receiver keeps the unconsumed rest between reads. Whatever the chunks, the frames
  handed to the handler are those of the whole stream.
\<close>

fun feed :: "('b list \<Rightarrow> ('b, 'f) split) \<Rightarrow> 'b list \<Rightarrow> 'b list list \<Rightarrow> 'f list \<times> 'b list \<times> bool" where
  "feed sp buf [] = frames sp buf"
| "feed sp buf (c # cs) =
     (case frames sp buf of
        (fs, rest, True) \<Rightarrow> (fs, rest @ concat (c # cs), True)
      | (fs, rest, False) \<Rightarrow> (case feed sp (rest @ c) cs of (gs, rest', bad) \<Rightarrow> (fs @ gs, rest', bad)))"

locale frame_splitter =
  fixes split :: "'b list \<Rightarrow> ('b, 'f) split"
  assumes shrink: "split b = Frame f r \<Longrightarrow> length r < length b"
    and frame_stable: "split b = Frame f r \<Longrightarrow> split (b @ more) = Frame f (r @ more)"
    and reject_stable: "split b = Reject \<Longrightarrow> split (b @ more) = Reject"
begin

lemma frames_Incomplete: "split b = Incomplete \<Longrightarrow> frames split b = ([], b, False)"
  by (subst frames.simps) simp

lemma frames_Reject: "split b = Reject \<Longrightarrow> frames split b = ([], b, True)"
  by (subst frames.simps) simp

lemma frames_Frame:
  "split b = Frame f r \<Longrightarrow>
     frames split b = (case frames split r of (fs, rest, bad) \<Rightarrow> (f # fs, rest, bad))"
  by (subst frames.simps) (simp add: shrink)

text \<open>Bytes that arrive later only extend what was found.\<close>

lemma frames_more:
  "frames split b = (fs, rest, bad) \<Longrightarrow>
     frames split (b @ more) =
       (if bad then (fs, rest @ more, True)
        else case frames split (rest @ more) of (gs, rest', bad') \<Rightarrow> (fs @ gs, rest', bad'))"
proof (induction "length b" arbitrary: b fs rest bad rule: less_induct)
  case less
  show ?case
  proof (cases "split b")
    case Incomplete
    with less.prems show ?thesis
      by (auto simp: frames_Incomplete split: prod.splits)
  next
    case Reject
    with less.prems show ?thesis
      by (auto simp: frames_Reject reject_stable)
  next
    case (Frame f r)
    obtain gs rest1 bad1 where r: "frames split r = (gs, rest1, bad1)"
      by (metis prod_cases3)
    have "frames split (r @ more) =
       (if bad1 then (gs, rest1 @ more, True)
        else case frames split (rest1 @ more) of (hs, rest', bad') \<Rightarrow> (gs @ hs, rest', bad'))"
      using less.hyps[OF shrink[OF Frame] r] .
    with less.prems Frame r show ?thesis
      by (auto simp: frames_Frame frame_stable split: prod.splits)
  qed
qed

lemma frames_end: "frames split b = (fs, rest, bad) \<Longrightarrow> split rest = (if bad then Reject else Incomplete)"
proof (induction "length b" arbitrary: b fs rule: less_induct)
  case less
  show ?case
  proof (cases "split b")
    case (Frame f r)
    then obtain gs where "frames split r = (gs, rest, bad)"
      using less.prems by (auto simp: frames_Frame split: prod.splits)
    then show ?thesis
      by (rule less.hyps[OF shrink[OF Frame]])
  qed (use less.prems in \<open>auto simp: frames_Incomplete frames_Reject\<close>)
qed

text \<open>What has arrived of a stream of encoded frames: some whole frames, and the beginning of the rest.\<close>

lemma frames_prefix:
  assumes "split [] = Incomplete"
  shows "(\<And>m rest. m \<in> set ms \<Longrightarrow> split (enc m @ rest) = Frame (view m) rest) \<Longrightarrow>
    b @ more = concat (map enc ms) \<Longrightarrow>
    \<exists>fs gs rest. ms = fs @ gs \<and> frames split b = (map view fs, rest, False) \<and> rest @ more = concat (map enc gs)"
proof (induction ms arbitrary: b)
  case Nil
  then show ?case using frames_Incomplete[OF assms] by simp
next
  case (Cons m ms)
  have whole: "split (b @ more) = Frame (view m) (concat (map enc ms))" using Cons.prems by simp
  show ?case
  proof (cases "split b")
    case Incomplete
    show ?thesis
      using frames_Incomplete[OF Incomplete] Cons.prems(2) by (rule_tac exI[of _ "[]"], rule_tac exI[of _ "m # ms"]) simp
  next
    case Reject
    then show ?thesis using reject_stable[OF Reject] whole by simp
  next
    case (Frame f r)
    then have "f = view m" "r @ more = concat (map enc ms)" using frame_stable[OF Frame] whole by auto
    moreover obtain fs gs rest where "ms = fs @ gs" "frames split r = (map view fs, rest, False)"
        "rest @ more = concat (map enc gs)"
      using Cons.IH[OF _ calculation(2)] Cons.prems(1) by (metis list.set_intros(2))
    ultimately show ?thesis
      using frames_Frame[OF Frame] by (rule_tac exI[of _ "m # fs"], rule_tac exI[of _ gs]) simp
  qed
qed

lemma feed_concat: "feed split buf cs = frames split (buf @ concat cs)"
proof (induction cs arbitrary: buf)
  case (Cons c cs)
  obtain fs rest bad where b: "frames split buf = (fs, rest, bad)"
    by (metis prod_cases3)
  with Cons.IH[of "rest @ c"] frames_more[OF b, of "concat (c # cs)"] show ?case
    by (cases bad) auto
qed simp

end

end
