(* ===== verification/Server.thy ===== *)
theory Server
  imports Business Framing
begin

text \<open>
  The event loop of src/server/Server.hpp and src/server/Server.cpp: connected clients
  with their receive and send buffers, framing, the dispatch of a command, delivery of
  its result, disconnection, and one round of \<open>poll\<close>. What the operating system returns
  (descriptors, bytes read, bytes written, readiness) is an argument; what the server
  does to it is recorded in a trace. UUIDs and the clock come from an environment
  indexed by the number of commands executed.
\<close>

section \<open>State\<close>

record client_state =
  cs_fd :: int
  cs_recv_buffer :: bytes
  cs_send_buffer :: bytes
  cs_use_level :: use_level
  cs_use_team_uuid :: bytes
  cs_use_channel_uuid :: bytes
  cs_use_thread_uuid :: bytes

definition client_state0 :: client_state where
  "client_state0 = \<lparr>cs_fd = 0, cs_recv_buffer = [], cs_send_buffer = [], cs_use_level = USE_NONE,
     cs_use_team_uuid = [], cs_use_channel_uuid = [], cs_use_thread_uuid = []\<rparr>"

text \<open>Effects outside the process: a connection accepted, bytes handed to the kernel, a
  descriptor closed, a call of the logging library.\<close>

datatype io_event = IO_accept int | IO_write int bytes | IO_close int | IO_log log_call

record server =
  sv_data :: server_data_t
  sv_clients :: "(int, client_state) omap"
  sv_server_fd :: int
  sv_running :: bool
  sv_ticks :: nat
  sv_trace :: "io_event list"

record env =
  env_uuid :: "nat \<Rightarrow> bytes"
  env_clock :: "nat \<Rightarrow> u64"

definition server0 :: "int \<Rightarrow> server" where
  "server0 sfd = \<lparr>sv_data = server_data0, sv_clients = [], sv_server_fd = sfd, sv_running = False,
     sv_ticks = 0, sv_trace = []\<rparr>"

definition emit :: "io_event list \<Rightarrow> server \<Rightarrow> server" where
  "emit es sv = sv\<lparr>sv_trace := sv_trace sv @ es\<rparr>"

definition connected :: "server \<Rightarrow> int \<Rightarrow> bool" where
  "connected sv fd \<longleftrightarrow> omap_find (sv_clients sv) fd \<noteq> None"

text \<open>\<open>clients[fd]\<close>: a missing client is value-initialised.\<close>

definition client_at :: "server \<Rightarrow> int \<Rightarrow> client_state" where
  "client_at sv fd = (case omap_find (sv_clients sv) fd of Some c \<Rightarrow> c | None \<Rightarrow> client_state0)"

definition upd_client :: "int \<Rightarrow> (client_state \<Rightarrow> client_state) \<Rightarrow> server \<Rightarrow> server" where
  "upd_client fd f sv = sv\<lparr>sv_clients := omap_set fd (f (client_at sv fd)) (sv_clients sv)\<rparr>"

definition set_recv :: "int \<Rightarrow> bytes \<Rightarrow> server \<Rightarrow> server" where
  "set_recv fd b = upd_client fd (\<lambda>c. c\<lparr>cs_recv_buffer := b\<rparr>)"

definition recv_of :: "server \<Rightarrow> int \<Rightarrow> bytes" where
  "recv_of sv fd = cs_recv_buffer (client_at sv fd)"

definition send_of :: "server \<Rightarrow> int \<Rightarrow> bytes" where
  "send_of sv fd = cs_send_buffer (client_at sv fd)"

section \<open>Output\<close>

definition queue_bytes :: "int \<Rightarrow> bytes \<Rightarrow> server \<Rightarrow> server" where
  "queue_bytes fd bs sv =
     (if \<not> connected sv fd then sv
      else upd_client fd (\<lambda>c. c\<lparr>cs_send_buffer := cs_send_buffer c @ bs\<rparr>) sv)"

text \<open>Both delivery loops skip the descriptor that issued the command.\<close>

definition push_one :: "int \<Rightarrow> push \<Rightarrow> server \<Rightarrow> server" where
  "push_one fd p sv =
     fold (\<lambda>target_fd sv. if target_fd = fd then sv else queue_bytes target_fd (pk_bytes (push_packet p)) sv)
       (push_fds p) sv"

definition push_all :: "int \<Rightarrow> push list \<Rightarrow> server \<Rightarrow> server" where
  "push_all fd ps sv = fold (push_one fd) ps sv"

definition send_result :: "int \<Rightarrow> result_t \<Rightarrow> server \<Rightarrow> server" where
  "send_result fd r sv =
     push_all fd (res_pushes r)
       (if pk_bytes (res_response r) \<noteq> [] then queue_bytes fd (pk_bytes (res_response r)) sv else sv)"

text \<open>The two inline error packets of \<open>_dispatch\<close>.\<close>

definition error_packet :: "error \<Rightarrow> bytes" where
  "error_packet e = mem16 host (htons host (error_code e)) @ mem32 host (htonl host 0)"

section \<open>Dispatch\<close>

definition dispatch :: "env \<Rightarrow> int \<Rightarrow> u16 \<Rightarrow> bytes \<Rightarrow> server \<Rightarrow> server" where
  "dispatch env fd cmd payload sv =
     (let logged = (omap_find (sessions (sv_data sv)) fd \<noteq> None) in
      if \<not> logged \<and> cmd \<noteq> command_code CMD_LOGIN
      then queue_bytes fd (error_packet ERR_UNAUTHORIZED) sv
      else case command_of_code cmd of
        None \<Rightarrow> queue_bytes fd (error_packet ERR_INVALID_COMMAND) sv
      | Some c \<Rightarrow>
          (let r = run_command c (env_uuid env (sv_ticks sv)) (env_clock env (sv_ticks sv)) fd payload
                     (sv_data sv)
           in send_result fd (out_result r)
                (emit (map IO_log (out_logs r))
                   (sv\<lparr>sv_data := out_data r, sv_ticks := Suc (sv_ticks sv)\<rparr>))))"

section \<open>Connections\<close>

text \<open>\<open>accept\<close> returned \<open>client_fd\<close>.\<close>

definition handle_new_connection :: "int \<Rightarrow> server \<Rightarrow> server" where
  "handle_new_connection client_fd sv =
     (if client_fd < 0 then sv
      else emit [IO_accept client_fd]
             (sv\<lparr>sv_clients := omap_set client_fd (client_state0\<lparr>cs_fd := client_fd\<rparr>) (sv_clients sv)\<rparr>))"

definition handle_client_disconnect :: "int \<Rightarrow> server \<Rightarrow> server" where
  "handle_client_disconnect fd sv =
     (let sv1 = (case omap_find (sessions (sv_data sv)) fd of
            None \<Rightarrow> sv
          | Some _ \<Rightarrow>
              (let r = handle_logout fd (sv_data sv)
               in push_all fd (res_pushes (out_result r))
                    (emit (map IO_log (out_logs r)) (sv\<lparr>sv_data := out_data r\<rparr>))));
          sv2 = emit [IO_close fd] sv1
      in sv2\<lparr>sv_clients := omap_erase fd (sv_clients sv2)\<rparr>)"

section \<open>Input\<close>

text \<open>One turn of the framing loop. \<open>HEADER_SIZE + payload_size\<close> is 32-bit arithmetic.\<close>

definition srv_split :: "bytes \<Rightarrow> (byte, u16 \<times> bytes) split" where
  "srv_split buf =
     (if length buf < 6 then Incomplete
      else let cmd = ntohs host (load16 host buf);
               payload_size = ntohl host (load32 host (drop 2 buf))
           in if 65535 < payload_size then Reject
              else if length buf < unat (6 + payload_size) then Incomplete
              else Frame (cmd, take (unat payload_size) (drop 6 buf)) (drop (unat (6 + payload_size)) buf))"

text \<open>\<open>write\<close> returned \<open>n\<close>. On an empty buffer it is not called.\<close>

definition handle_client_write :: "int \<Rightarrow> int \<Rightarrow> server \<Rightarrow> server" where
  "handle_client_write fd n sv =
     (let sv0 = upd_client fd id sv; buf = send_of sv0 fd in
      if buf = [] then sv0
      else if n < 0 then handle_client_disconnect fd sv0
      else upd_client fd (\<lambda>c. c\<lparr>cs_send_buffer := drop (nat n) buf\<rparr>)
             (emit [IO_write fd (take (nat n) buf)] sv0))"

section \<open>Projections\<close>

lemma emit_sel [simp]:
  "sv_data (emit es sv) = sv_data sv" "sv_clients (emit es sv) = sv_clients sv"
  "sv_ticks (emit es sv) = sv_ticks sv" "sv_trace (emit es sv) = sv_trace sv @ es"
  "sv_running (emit es sv) = sv_running sv" "sv_server_fd (emit es sv) = sv_server_fd sv"
  by (simp_all add: emit_def)

lemma client_at_cong: "sv_clients a = sv_clients b \<Longrightarrow> client_at a fd = client_at b fd"
  by (simp add: client_at_def)

lemma upd_client_sel [simp]:
  "sv_data (upd_client fd f sv) = sv_data sv" "sv_ticks (upd_client fd f sv) = sv_ticks sv"
  "sv_trace (upd_client fd f sv) = sv_trace sv" "sv_running (upd_client fd f sv) = sv_running sv"
  "sv_server_fd (upd_client fd f sv) = sv_server_fd sv"
  "sv_clients (upd_client fd f sv) = omap_set fd (f (client_at sv fd)) (sv_clients sv)"
  by (simp_all add: upd_client_def)

lemma client_at_upd: "client_at (upd_client fd f sv) fd' = (if fd' = fd then f (client_at sv fd) else client_at sv fd')"
  by (simp add: client_at_def omap_find_set)

lemma connected_upd [simp]: "connected (upd_client fd f sv) fd' \<longleftrightarrow> fd' = fd \<or> connected sv fd'"
  by (auto simp: connected_def omap_find_set)

lemma connected_client_at: "connected sv fd \<Longrightarrow> omap_find (sv_clients sv) fd = Some (client_at sv fd)"
  by (auto simp: connected_def client_at_def)

lemma connected_cong: "sv_clients a = sv_clients b \<Longrightarrow> connected a fd = connected b fd"
  by (simp add: connected_def)

lemma emit_client [simp]: "client_at (emit es sv) fd = client_at sv fd" "connected (emit es sv) fd = connected sv fd"
  by (simp_all add: client_at_def connected_def)

lemma client_at_data [simp]:
  "client_at (sv\<lparr>sv_data := d\<rparr>) fd = client_at sv fd"
  "client_at (sv\<lparr>sv_ticks := k\<rparr>) fd = client_at sv fd"
  "connected (sv\<lparr>sv_data := d\<rparr>) fd = connected sv fd"
  "connected (sv\<lparr>sv_ticks := k\<rparr>) fd = connected sv fd"
  by (simp_all add: client_at_def connected_def)


lemma omap_set_set [simp]: "omap_set k v (omap_set k w m) = omap_set k v m"
  by (induction k w m rule: omap_set.induct) auto

lemma upd_client_upd [simp]: "upd_client fd f (upd_client fd g sv) = upd_client fd (\<lambda>c. f (g c)) sv"
  by (simp add: upd_client_def client_at_def omap_find_set)

section \<open>What delivery does\<close>

text \<open>
  \<open>sends sv X sv'\<close>: \<open>sv'\<close> is \<open>sv\<close> with \<open>X t\<close> appended to the send buffer of every connected
  \<open>t\<close>, and nothing else changed.
\<close>

definition sends :: "server \<Rightarrow> (int \<Rightarrow> bytes) \<Rightarrow> server \<Rightarrow> bool" where
  "sends sv X sv' \<longleftrightarrow> sv_data sv' = sv_data sv \<and> sv_ticks sv' = sv_ticks sv
     \<and> sv_trace sv' = sv_trace sv \<and> sv_running sv' = sv_running sv \<and> sv_server_fd sv' = sv_server_fd sv
     \<and> (\<forall>t. omap_find (sv_clients sv') t =
           map_option (\<lambda>c. c\<lparr>cs_send_buffer := cs_send_buffer c @ X t\<rparr>) (omap_find (sv_clients sv) t))
     \<and> (omap_wf (sv_clients sv) \<longrightarrow> omap_wf (sv_clients sv'))"

lemma sends_refl [simp, intro]: "sends sv (\<lambda>_. []) sv"
  by (simp add: sends_def option.map_ident)

lemma sends_trans: "sends a X b \<Longrightarrow> sends b Y c \<Longrightarrow> sends a (\<lambda>t. X t @ Y t) c"
  by (auto simp: sends_def option.map_comp comp_def)

lemma sends_eq: "sends a X b \<Longrightarrow> (\<And>t. connected a t \<Longrightarrow> X t = Y t) \<Longrightarrow> sends a Y b"
  unfolding sends_def connected_def by (auto intro!: option.map_cong simp: map_option_case split: option.splits)

lemma queue_bytes_sends: "sends sv (\<lambda>t. if t = fd then bs else []) (queue_bytes fd bs sv)"
  by (auto simp: sends_def queue_bytes_def connected_def client_at_def omap_find_set omap_wf_set
      map_option_case split: option.splits)

definition copies :: "int \<Rightarrow> push \<Rightarrow> int \<Rightarrow> bytes" where
  "copies fd p t = (if t = fd then []
     else concat (map (\<lambda>_. pk_bytes (push_packet p)) (filter ((=) t) (push_fds p))))"

definition all_copies :: "int \<Rightarrow> push list \<Rightarrow> int \<Rightarrow> bytes" where
  "all_copies fd ps t = concat (map (\<lambda>p. copies fd p t) ps)"

text \<open>What a descriptor receives from a result: the issuer its response, the others the pushes
  addressed to them.\<close>

definition delivered :: "int \<Rightarrow> result_t \<Rightarrow> int \<Rightarrow> bytes" where
  "delivered fd r t = (if t = fd then pk_bytes (res_response r) else all_copies fd (res_pushes r) t)"

lemma fold_sends:
  assumes "\<And>x sv. sends sv (X x) (f x sv)"
  shows "sends sv (\<lambda>t. concat (map (\<lambda>x. X x t) xs)) (fold f xs sv)"
proof (induction xs arbitrary: sv)
  case (Cons x xs)
  from sends_trans[OF assms[of sv x] Cons.IH[of "f x sv"]] show ?case by simp
qed simp

lemma concat_map_filter: "concat (map (\<lambda>x. if P x then f x else []) xs) = concat (map f (filter P xs))"
  by (induction xs) auto

lemma push_one_sends: "sends sv (copies fd p) (push_one fd p sv)"
proof -
  let ?b = "pk_bytes (push_packet p)"
  have "sends sv (\<lambda>t. if t = fd then [] else if t = x then ?b else [])
      (if x = fd then sv else queue_bytes x ?b sv)" for x sv
    by (rule sends_eq[of sv "\<lambda>t. if x = fd then [] else if t = x then ?b else []"])
      (auto simp: queue_bytes_sends)
  then have "sends sv (\<lambda>t. concat (map (\<lambda>x. if t = fd then [] else if t = x then ?b else []) (push_fds p)))
      (push_one fd p sv)" unfolding push_one_def by (rule fold_sends)
  then show ?thesis
    by (rule sends_eq) (simp add: copies_def concat_map_filter)
qed

lemma push_all_sends: "sends sv (all_copies fd ps) (push_all fd ps sv)"
  unfolding push_all_def all_copies_def[abs_def] by (rule fold_sends) (rule push_one_sends)

lemma all_copies_self [simp]: "all_copies fd ps fd = []"
  by (simp add: all_copies_def copies_def)

lemma send_result_sends: "sends sv (delivered fd r) (send_result fd r sv)"
proof -
  let ?b = "pk_bytes (res_response r)"
  have "sends sv (\<lambda>t. if t = fd then ?b else []) (if ?b \<noteq> [] then queue_bytes fd ?b sv else sv)"
    by (cases "?b = []") (simp_all add: queue_bytes_sends cong: if_cong)
  from sends_trans[OF this push_all_sends[of _ fd "res_pushes r"]]
  show ?thesis unfolding send_result_def
    by (rule sends_eq) (auto simp: delivered_def)
qed

lemma sends_client:
  assumes "sends sv X sv'"
  shows "connected sv' t = connected sv t"
    and "connected sv t \<Longrightarrow> client_at sv' t = (client_at sv t)\<lparr>cs_send_buffer := send_of sv t @ X t\<rparr>"
    and "recv_of sv' t = recv_of sv t"
  using assms by (auto simp: sends_def connected_def client_at_def send_of_def recv_of_def split: option.splits)

lemma sends_send_of: "sends sv X sv' \<Longrightarrow> connected sv t \<Longrightarrow> send_of sv' t = send_of sv t @ X t"
  by (simp add: sends_client send_of_def)

lemma sends_frame:
  assumes "sends sv X sv'"
  shows "sv_data sv' = sv_data sv" "sv_ticks sv' = sv_ticks sv" "sv_trace sv' = sv_trace sv"
    "sv_running sv' = sv_running sv" "sv_server_fd sv' = sv_server_fd sv"
    "dom (omap_find (sv_clients sv')) = dom (omap_find (sv_clients sv))"
    "omap_wf (sv_clients sv) \<Longrightarrow> omap_wf (sv_clients sv')"
  using assms by (auto simp: sends_def dom_def)

section \<open>Dispatch and disconnection as deliveries\<close>

text \<open>The result a dispatched command produces, the two inline errors included.\<close>

definition dispatch_result :: "env \<Rightarrow> int \<Rightarrow> u16 \<Rightarrow> bytes \<Rightarrow> server \<Rightarrow> outcome" where
  "dispatch_result env fd cmd payload sv =
     (if omap_find (sessions (sv_data sv)) fd = None \<and> cmd \<noteq> command_code CMD_LOGIN
      then fail ERR_UNAUTHORIZED [] (sv_data sv)
      else case command_of_code cmd of
        None \<Rightarrow> fail ERR_INVALID_COMMAND [] (sv_data sv)
      | Some c \<Rightarrow> run_command c (env_uuid env (sv_ticks sv)) (env_clock env (sv_ticks sv)) fd payload
                    (sv_data sv))"

lemma error_packet_message: "error_packet e = make_message (error_code e) []"
  by (simp add: error_packet_def make_message_layout)

definition dispatch_ticks :: "int \<Rightarrow> u16 \<Rightarrow> server \<Rightarrow> nat" where
  "dispatch_ticks fd cmd sv =
     (if omap_find (sessions (sv_data sv)) fd = None \<and> cmd \<noteq> command_code CMD_LOGIN
        \<or> command_of_code cmd = None then sv_ticks sv else Suc (sv_ticks sv))"

text \<open>The state between the handler and the delivery of its result.\<close>

definition dispatched :: "env \<Rightarrow> int \<Rightarrow> u16 \<Rightarrow> bytes \<Rightarrow> server \<Rightarrow> server" where
  "dispatched env fd cmd p sv =
     (let r = dispatch_result env fd cmd p sv
      in emit (map IO_log (out_logs r)) (sv\<lparr>sv_data := out_data r, sv_ticks := dispatch_ticks fd cmd sv\<rparr>))"

text \<open>A dispatch runs its handler, updates data, clock and trace, and delivers the result.\<close>

lemma dispatch_sends:
  "sends (dispatched env fd cmd p sv) (delivered fd (out_result (dispatch_result env fd cmd p sv)))
     (dispatch env fd cmd p sv)"
proof -
  have error: "sends sv (delivered fd (out_result (fail e [] (sv_data sv)))) (queue_bytes fd (error_packet e) sv)" for e
    using queue_bytes_sends[of sv fd "error_packet e"]
    by (simp add: delivered_def[abs_def] all_copies_def error_packet_message cong: if_cong)
  have id: "emit [] sv = sv"
    by (simp add: emit_def)
  show ?thesis
  proof (cases "omap_find (sessions (sv_data sv)) fd = None \<and> cmd \<noteq> command_code CMD_LOGIN")
    case True
    then show ?thesis
      using error[of ERR_UNAUTHORIZED]
      by (simp add: dispatched_def dispatch_ticks_def dispatch_result_def dispatch_def id)
  next
    case authorized: False
    show ?thesis
    proof (cases "command_of_code cmd")
      case None
      with authorized have r: "dispatch_result env fd cmd p sv = fail ERR_INVALID_COMMAND [] (sv_data sv)"
        by (auto simp: dispatch_result_def)
      with None have "dispatched env fd cmd p sv = sv"
        by (simp add: dispatched_def dispatch_ticks_def id)
      with None authorized r error[of ERR_INVALID_COMMAND] show ?thesis
        by (auto simp: dispatch_def Let_def)
    next
      case (Some c)
      with authorized have "dispatch_result env fd cmd p sv
          = run_command c (env_uuid env (sv_ticks sv)) (env_clock env (sv_ticks sv)) fd p (sv_data sv)"
        by (auto simp: dispatch_result_def)
      with Some authorized send_result_sends show ?thesis
        by (auto simp: dispatch_def dispatched_def dispatch_ticks_def Let_def)
    qed
  qed
qed

lemma dispatched_sel [simp]:
  "sv_clients (dispatched env fd cmd p sv) = sv_clients sv"
  "sv_data (dispatched env fd cmd p sv) = out_data (dispatch_result env fd cmd p sv)"
  "sv_trace (dispatched env fd cmd p sv) = sv_trace sv @ map IO_log (out_logs (dispatch_result env fd cmd p sv))"
  "sv_ticks (dispatched env fd cmd p sv) = dispatch_ticks fd cmd sv"
  "sv_running (dispatched env fd cmd p sv) = sv_running sv"
  "sv_server_fd (dispatched env fd cmd p sv) = sv_server_fd sv"
  "client_at (dispatched env fd cmd p sv) t = client_at sv t"
  "connected (dispatched env fd cmd p sv) t = connected sv t"
  by (simp_all add: dispatched_def Let_def)

lemmas dispatch_frame [simp] =
  sends_client(1)[OF dispatch_sends, unfolded dispatched_sel]
  sends_client(3)[OF dispatch_sends, unfolded recv_of_def dispatched_sel, folded recv_of_def]
  sends_frame[OF dispatch_sends, unfolded dispatched_sel]

text \<open>What a connected client finds in its send buffer after a dispatch.\<close>

lemma dispatch_send_of:
  "connected sv t \<Longrightarrow> send_of (dispatch env fd cmd p sv) t
     = send_of sv t @ delivered fd (out_result (dispatch_result env fd cmd p sv)) t"
  using sends_send_of[OF dispatch_sends, of env fd cmd p sv t] by (simp add: send_of_def)

section \<open>Framing\<close>

text \<open>The sizes the framing arithmetic sees: below the limit nothing wraps.\<close>

lemma header_add: "s \<le> (65535 :: u32) \<Longrightarrow> unat (6 + s) = 6 + unat s"
proof -
  assume "s \<le> 65535"
  then have "unat s \<le> 65535" by (simp add: word_le_nat_alt)
  then show ?thesis by (simp add: unat_add_lem[symmetric] unat_word_ariths)
qed

lemma srv_split_def2:
  "srv_split buf =
     (if length buf < 6 then Incomplete
      else let n = of_be32 (drop 2 buf)
           in if 65535 < n then Reject
              else if length buf < 6 + unat n then Incomplete
              else Frame (of_be16 buf, take (unat n) (drop 6 buf)) (drop (6 + unat n) buf))"
  by (auto simp: srv_split_def Let_def ntohs_load16 ntohl_load32 header_add not_less)

lemma srv_split_Frame_shrink: "srv_split b = Frame f r \<Longrightarrow> length r < length b"
  by (auto simp: srv_split_def2 Let_def split: if_splits)

lemma recv_of_set_recv [simp]: "recv_of (set_recv fd b sv) t = (if t = fd then b else recv_of sv t)"
  by (simp add: recv_of_def set_recv_def client_at_upd)

function process_recv_buffer :: "env \<Rightarrow> int \<Rightarrow> server \<Rightarrow> server" where
  "process_recv_buffer env fd sv =
     (case srv_split (recv_of sv fd) of
        Incomplete \<Rightarrow> sv
      | Reject \<Rightarrow> handle_client_disconnect fd sv
      | Frame (cmd, payload) rest \<Rightarrow>
          (let sv' = dispatch env fd cmd payload (set_recv fd rest sv)
           in if \<not> connected sv' fd then sv' else process_recv_buffer env fd sv'))"
  by pat_completeness auto

termination
  by (relation "measure (\<lambda>(env, fd, sv). length (recv_of sv fd))")
    (auto dest: srv_split_Frame_shrink)

declare process_recv_buffer.simps [simp del]

text \<open>\<open>read\<close> returned \<open>n\<close> bytes; \<open>None\<close> is a result \<open>n <= 0\<close>.\<close>

abbreviation append_recv :: "int \<Rightarrow> bytes \<Rightarrow> server \<Rightarrow> server" where
  "append_recv fd bs \<equiv> upd_client fd (\<lambda>c. c\<lparr>cs_recv_buffer := cs_recv_buffer c @ bs\<rparr>)"

definition handle_client_read :: "env \<Rightarrow> int \<Rightarrow> bytes option \<Rightarrow> server \<Rightarrow> server" where
  "handle_client_read env fd n sv =
     (case n of
        None \<Rightarrow> handle_client_disconnect fd sv
      | Some tmp \<Rightarrow> process_recv_buffer env fd (append_recv fd tmp sv))"

interpretation srv: frame_splitter srv_split
proof
  fix b more :: bytes and f r
  show "srv_split b = Frame f r \<Longrightarrow> length r < length b"
    by (rule srv_split_Frame_shrink)
  show "srv_split b = Frame f r \<Longrightarrow> srv_split (b @ more) = Frame f (r @ more)"
    by (auto simp: srv_split_def2 Let_def of_be_prefix split: if_splits)
  show "srv_split b = Reject \<Longrightarrow> srv_split (b @ more) = Reject"
    by (auto simp: srv_split_def2 Let_def of_be_prefix split: if_splits)
qed

text \<open>A message built by either side is split off whole.\<close>

lemma srv_split_message:
  assumes "length p \<le> 65535"
  shows "srv_split (make_message c p @ rest) = Frame (c, p) rest"
proof -
  have n: "unat (word_of_nat (length p) :: u32) = length p"
    using assms by (simp add: unat_of_nat take_bit_nat_eq_self)
  then have "\<not> 65535 < (word_of_nat (length p) :: u32)"
    using assms by (simp add: word_less_nat_alt)
  then show ?thesis
    using n by (simp add: srv_split_def2 make_message_layout Let_def)
qed

end
