(* ===== verification/Server_Stream.thy ===== *)
theory Server_Stream
  imports Server
begin

text \<open>
  What the receive path of the server computes: the loop of \<open>_process_recv_buffer\<close> is a
  fold of dispatches over the frames of the buffer, so how the network cut the stream
  into reads does not matter; and what a disconnection leaves behind.
\<close>

section \<open>States determined by what was sent\<close>

lemma sends_unique:
  assumes "sends a X b" and "sends a X c" and "omap_wf (sv_clients a)"
  shows "b = c"
proof -
  have "sv_clients b = sv_clients c"
    using assms by (intro omap_eqI) (auto simp: sends_def)
  then show ?thesis using assms(1,2) by (simp add: sends_def server.equality)
qed

lemma sends_set_recv:
  assumes "sends a X b" and "connected a fd" and "omap_wf (sv_clients a)"
  shows "sends (set_recv fd r a) X (set_recv fd r b)"
  using assms
  by (auto simp: sends_def set_recv_def connected_def omap_find_set client_at_def omap_wf_set split: option.splits)

lemma set_recv_same: "connected sv fd \<Longrightarrow> omap_wf (sv_clients sv) \<Longrightarrow> set_recv fd (recv_of sv fd) sv = sv"
  by (simp add: set_recv_def upd_client_def recv_of_def connected_def client_at_def std_map.upd_same split: option.splits)

lemma set_recv_set_recv [simp]: "set_recv fd a (set_recv fd b sv) = set_recv fd a sv"
  by (simp add: set_recv_def)

lemma set_recv_sel [simp]:
  "sv_data (set_recv fd b sv) = sv_data sv" "sv_ticks (set_recv fd b sv) = sv_ticks sv"
  "sv_trace (set_recv fd b sv) = sv_trace sv" "sv_running (set_recv fd b sv) = sv_running sv"
  "sv_server_fd (set_recv fd b sv) = sv_server_fd sv"
  "connected (set_recv fd b sv) t \<longleftrightarrow> t = fd \<or> connected sv t"
  "send_of (set_recv fd b sv) t = send_of sv t"
  "omap_wf (sv_clients sv) \<Longrightarrow> omap_wf (sv_clients (set_recv fd b sv))"
  by (simp_all add: set_recv_def send_of_def client_at_upd omap_wf_set)

lemma set_recv_update:
  "emit es (set_recv fd b sv) = set_recv fd b (emit es sv)"
  "(set_recv fd b sv)\<lparr>sv_data := d\<rparr> = set_recv fd b (sv\<lparr>sv_data := d\<rparr>)"
  "(set_recv fd b sv)\<lparr>sv_ticks := k\<rparr> = set_recv fd b (sv\<lparr>sv_ticks := k\<rparr>)"
  by (simp_all add: set_recv_def upd_client_def emit_def client_at_def)

lemma append_recv_set_recv:
  "append_recv fd bs sv = set_recv fd (recv_of sv fd @ bs) sv"
  by (simp add: set_recv_def upd_client_def recv_of_def)

lemma dispatch_set_recv:
  assumes "connected sv fd" and "omap_wf (sv_clients sv)"
  shows "dispatch env t cmd p (set_recv fd b sv) = set_recv fd b (dispatch env t cmd p sv)"
proof (rule sends_unique[OF dispatch_sends])
  have r: "dispatch_result env t cmd p (set_recv fd b sv) = dispatch_result env t cmd p sv"
    unfolding dispatch_result_def by (simp only: set_recv_sel)
  then have "dispatched env t cmd p (set_recv fd b sv) = set_recv fd b (dispatched env t cmd p sv)"
    by (simp add: dispatched_def dispatch_ticks_def set_recv_update Let_def)
  with sends_set_recv[OF dispatch_sends, of env t cmd p sv fd b] assms r
  show "sends (dispatched env t cmd p (set_recv fd b sv))
      (delivered t (out_result (dispatch_result env t cmd p (set_recv fd b sv))))
      (set_recv fd b (dispatch env t cmd p sv))" by simp
  show "omap_wf (sv_clients (dispatched env t cmd p (set_recv fd b sv)))"
    using assms(2) by simp
qed

section \<open>Disconnection\<close>

text \<open>Without a session \<open>handle_logout\<close> has no effect and pushes nothing, so the guard on the
  session only spares the call.\<close>

definition disconnecting :: "int \<Rightarrow> server \<Rightarrow> server" where
  "disconnecting fd sv =
     (let r = handle_logout fd (sv_data sv)
      in emit (map IO_log (out_logs r)) (sv\<lparr>sv_data := out_data r\<rparr>))"

definition parting :: "int \<Rightarrow> server \<Rightarrow> server" where
  "parting fd sv = push_all fd (res_pushes (out_result (handle_logout fd (sv_data sv)))) (disconnecting fd sv)"

lemma emit_Nil [simp]: "emit [] sv = sv"
  by (simp add: emit_def)

lemma push_all_Nil [simp]: "push_all fd [] sv = sv"
  by (simp add: push_all_def)

lemma handle_client_disconnect_eq:
  "handle_client_disconnect fd sv =
     (let sv' = emit [IO_close fd] (parting fd sv) in sv'\<lparr>sv_clients := omap_erase fd (sv_clients sv')\<rparr>)"
  by (auto simp: handle_client_disconnect_def parting_def disconnecting_def Let_def handle_logout_def
      split: option.splits)

lemma parting_sends:
  "sends (disconnecting fd sv)
     (all_copies fd (res_pushes (out_result (handle_logout fd (sv_data sv))))) (parting fd sv)"
  unfolding parting_def by (rule push_all_sends)

lemma disconnecting_sel [simp]:
  "sv_clients (disconnecting fd sv) = sv_clients sv"
  "sv_data (disconnecting fd sv) = out_data (handle_logout fd (sv_data sv))"
  "sv_trace (disconnecting fd sv) = sv_trace sv @ map IO_log (out_logs (handle_logout fd (sv_data sv)))"
  "sv_ticks (disconnecting fd sv) = sv_ticks sv"
  "sv_running (disconnecting fd sv) = sv_running sv"
  "sv_server_fd (disconnecting fd sv) = sv_server_fd sv"
  "client_at (disconnecting fd sv) t = client_at sv t"
  "connected (disconnecting fd sv) t = connected sv t"
  by (simp_all add: disconnecting_def Let_def)

lemmas parting_frame = sends_frame[OF parting_sends, unfolded disconnecting_sel]

lemma disconnect_sel [simp]:
  "sv_data (handle_client_disconnect fd sv) = out_data (handle_logout fd (sv_data sv))"
  "sv_ticks (handle_client_disconnect fd sv) = sv_ticks sv"
  "sv_running (handle_client_disconnect fd sv) = sv_running sv"
  "sv_trace (handle_client_disconnect fd sv)
     = sv_trace sv @ map IO_log (out_logs (handle_logout fd (sv_data sv))) @ [IO_close fd]"
  by (simp_all add: handle_client_disconnect_eq Let_def parting_frame)

lemma disconnect_clients:
  assumes "omap_wf (sv_clients sv)"
  shows "omap_wf (sv_clients (handle_client_disconnect fd sv))"
    and "dom (omap_find (sv_clients (handle_client_disconnect fd sv))) = dom (omap_find (sv_clients sv)) - {fd}"
    and "connected (handle_client_disconnect fd sv) t \<longleftrightarrow> t \<noteq> fd \<and> connected sv t"
    and "t \<noteq> fd \<Longrightarrow> recv_of (handle_client_disconnect fd sv) t = recv_of sv t"
    and "t \<noteq> fd \<Longrightarrow> connected sv t \<Longrightarrow> send_of (handle_client_disconnect fd sv) t = send_of sv t
           @ all_copies fd (res_pushes (out_result (handle_logout fd (sv_data sv)))) t"
proof -
  have wf: "omap_wf (sv_clients (parting fd sv))"
    using assms by (rule parting_frame)
  then show "omap_wf (sv_clients (handle_client_disconnect fd sv))"
    "dom (omap_find (sv_clients (handle_client_disconnect fd sv))) = dom (omap_find (sv_clients sv)) - {fd}"
    by (simp_all add: handle_client_disconnect_eq Let_def omap_wf_erase parting_frame)
  have find: "omap_find (sv_clients (handle_client_disconnect fd sv)) t
      = (if t = fd then None else omap_find (sv_clients (parting fd sv)) t)"
    using wf by (simp add: handle_client_disconnect_eq Let_def omap_find_erase)
  note p = sends_client[OF parting_sends, of fd sv t] sends_send_of[OF parting_sends, of fd sv t]
  show "connected (handle_client_disconnect fd sv) t \<longleftrightarrow> t \<noteq> fd \<and> connected sv t"
    using find p(1) by (simp add: connected_def)
  assume "t \<noteq> fd"
  with find have at: "client_at (handle_client_disconnect fd sv) t = client_at (parting fd sv) t"
    by (simp add: client_at_def)
  then show "recv_of (handle_client_disconnect fd sv) t = recv_of sv t"
    using p(3) by (simp add: recv_of_def)
  assume "connected sv t"
  with at p(4) show "send_of (handle_client_disconnect fd sv) t = send_of sv t
      @ all_copies fd (res_pushes (out_result (handle_logout fd (sv_data sv)))) t"
    by (simp add: send_of_def)
qed

lemma disconnect_set_recv:
  assumes "connected sv fd" and "omap_wf (sv_clients sv)"
  shows "handle_client_disconnect fd (set_recv fd b sv) = handle_client_disconnect fd sv"
proof -
  have d: "disconnecting fd (set_recv fd b sv) = set_recv fd b (disconnecting fd sv)"
    by (simp add: disconnecting_def set_recv_update Let_def)
  have p: "parting fd (set_recv fd b sv) = set_recv fd b (parting fd sv)"
  proof (rule sends_unique[OF parting_sends])
    show "sends (disconnecting fd (set_recv fd b sv))
        (all_copies fd (res_pushes (out_result (handle_logout fd (sv_data (set_recv fd b sv))))))
        (set_recv fd b (parting fd sv))"
      using sends_set_recv[OF parting_sends, of fd sv fd b] assms d by simp
  qed (use assms(2) in simp)
  have wf: "omap_wf (sv_clients (parting fd sv))"
    using assms(2) by (rule parting_frame)
  then have "omap_erase fd (omap_set fd c (sv_clients (parting fd sv))) = omap_erase fd (sv_clients (parting fd sv))" for c
    by (intro omap_eqI) (simp_all add: omap_wf_erase omap_wf_set omap_find_erase omap_find_set)
  then show ?thesis
    by (simp add: handle_client_disconnect_eq Let_def p set_recv_update)
      (simp add: set_recv_def upd_client_def emit_def)
qed

section \<open>The receive loop\<close>

definition serve :: "env \<Rightarrow> int \<Rightarrow> (u16 \<times> bytes) list \<Rightarrow> server \<Rightarrow> server" where
  "serve env fd fs sv = fold (\<lambda>(cmd, payload). dispatch env fd cmd payload) fs sv"

lemma serve_simps [simp]:
  "serve env fd [] sv = sv"
  "serve env fd ((c, p) # fs) sv = serve env fd fs (dispatch env fd c p sv)"
  "serve env fd (fs @ gs) sv = serve env fd gs (serve env fd fs sv)"
  by (simp_all add: serve_def)

lemma serve_frame [simp]:
  "connected (serve env fd fs sv) t = connected sv t"
  "recv_of (serve env fd fs sv) t = recv_of sv t"
  "sv_running (serve env fd fs sv) = sv_running sv"
  "dom (omap_find (sv_clients (serve env fd fs sv))) = dom (omap_find (sv_clients sv))"
  "omap_wf (sv_clients sv) \<Longrightarrow> omap_wf (sv_clients (serve env fd fs sv))"
  by (induction fs arbitrary: sv) (simp_all add: split_paired_all)

lemma serve_set_recv:
  "connected sv fd \<Longrightarrow> omap_wf (sv_clients sv) \<Longrightarrow>
     serve env t fs (set_recv fd b sv) = set_recv fd b (serve env t fs sv)"
  by (induction fs arbitrary: sv) (auto simp: dispatch_set_recv)

lemma process_recv_buffer_serve:
  assumes "connected sv fd" and "omap_wf (sv_clients sv)"
  shows "process_recv_buffer env fd sv =
     (case frames srv_split (recv_of sv fd) of
        (fs, rest, bad) \<Rightarrow>
          if bad then handle_client_disconnect fd (serve env fd fs sv)
          else set_recv fd rest (serve env fd fs sv))"
  using assms
proof (induction "length (recv_of sv fd)" arbitrary: sv rule: less_induct)
  case less
  show ?case
  proof (cases "srv_split (recv_of sv fd)")
    case Incomplete
    then show ?thesis
      using less.prems by (simp add: process_recv_buffer.simps[of env fd sv] srv.frames_Incomplete set_recv_same)
  next
    case Reject
    then show ?thesis
      by (simp add: process_recv_buffer.simps[of env fd sv] srv.frames_Reject)
  next
    case (Frame f r)
    obtain cmd p where f: "f = (cmd, p)" by force
    let ?sv = "set_recv fd r (dispatch env fd cmd p sv)"
    obtain fs rest bad where fr: "frames srv_split r = (fs, rest, bad)"
      by (metis prod_cases3)
    have sv: "dispatch env fd cmd p (set_recv fd r sv) = ?sv"
      using less.prems by (rule dispatch_set_recv)
    have "process_recv_buffer env fd sv = process_recv_buffer env fd ?sv"
      using Frame f less.prems by (simp add: process_recv_buffer.simps[of env fd sv] Let_def sv)
    also have "\<dots> = (if bad then handle_client_disconnect fd (serve env fd fs ?sv)
          else set_recv fd rest (serve env fd fs ?sv))"
      using less.hyps[of ?sv] Frame srv.shrink[OF Frame] less.prems fr by simp
    also have "serve env fd fs ?sv = set_recv fd r (serve env fd fs (dispatch env fd cmd p sv))"
      using less.prems by (simp add: serve_set_recv)
    finally show ?thesis
      using Frame f fr less.prems by (simp add: srv.frames_Frame disconnect_set_recv)
  qed
qed

lemma handle_client_read_serve:
  assumes "connected sv fd" and "omap_wf (sv_clients sv)"
  shows "handle_client_read env fd (Some bs) sv =
     (case frames srv_split (recv_of sv fd @ bs) of
        (fs, rest, bad) \<Rightarrow>
          if bad then handle_client_disconnect fd (serve env fd fs sv)
          else set_recv fd rest (serve env fd fs sv))"
proof -
  obtain fs rest bad where fr: "frames srv_split (recv_of sv fd @ bs) = (fs, rest, bad)"
    by (metis prod_cases3)
  show ?thesis
    unfolding handle_client_read_def append_recv_set_recv option.case
    by (subst process_recv_buffer_serve)
      (use assms fr in \<open>simp_all add: serve_set_recv disconnect_set_recv\<close>)
qed

text \<open>A client's bytes, read in pieces while it stays connected.\<close>

definition read_chunks :: "env \<Rightarrow> int \<Rightarrow> bytes list \<Rightarrow> server \<Rightarrow> server" where
  "read_chunks env fd cs sv =
     fold (\<lambda>c sv. if connected sv fd then handle_client_read env fd (Some c) sv else sv) cs sv"

lemma read_chunks_disconnected: "\<not> connected sv fd \<Longrightarrow> read_chunks env fd cs sv = sv"
  unfolding read_chunks_def by (induction cs) auto

lemma read_read:
  assumes "connected sv fd" and "omap_wf (sv_clients sv)"
  shows "(let sv' = handle_client_read env fd (Some a) sv
          in if connected sv' fd then handle_client_read env fd (Some b) sv' else sv')
         = handle_client_read env fd (Some (a @ b)) sv"
proof -
  obtain fs rest bad where fr: "frames srv_split (recv_of sv fd @ a) = (fs, rest, bad)"
    by (metis prod_cases3)
  obtain gs rest' bad' where gr: "frames srv_split (rest @ b) = (gs, rest', bad')"
    by (metis prod_cases3)
  note both = srv.frames_more[OF fr, of b]
  show ?thesis
  proof (cases bad)
    case True
    with both fr assms show ?thesis
      by (simp add: handle_client_read_serve disconnect_clients(3))
  next
    case False
    with fr assms have "handle_client_read env fd (Some a) sv = set_recv fd rest (serve env fd fs sv)"
      by (simp add: handle_client_read_serve)
    with both fr gr False assms show ?thesis
      by (simp add: handle_client_read_serve serve_set_recv disconnect_set_recv)
  qed
qed

lemma read_chunks_concat:
  assumes "connected sv fd" and "omap_wf (sv_clients sv)" and "cs \<noteq> []"
  shows "read_chunks env fd cs sv = handle_client_read env fd (Some (concat cs)) sv"
  using assms(3)
proof (induction cs rule: rev_nonempty_induct)
  case (single c)
  with assms(1) show ?case by (simp add: read_chunks_def)
next
  case (snoc c cs)
  then have "read_chunks env fd (cs @ [c]) sv =
      (let sv' = handle_client_read env fd (Some (concat cs)) sv
       in if connected sv' fd then handle_client_read env fd (Some c) sv' else sv')"
    by (simp add: read_chunks_def Let_def)
  then show ?case using read_read[OF assms(1,2)] by simp
qed

end
