(* ===== verification/Server_Loop.thy ===== *)
theory Server_Loop
  imports Server_Stream
begin

text \<open>
  The outer part of src/server/Server.cpp: construction, the descriptors handed to
  \<open>poll\<close>, one round of the loop, \<open>run\<close>, \<open>shutdown\<close> and the destructor; and the states the
  server can reach. Invariants of the data (the locale of Business) become invariants of
  reachable servers here.
\<close>

section \<open>Construction and destruction\<close>

text \<open>The results of \<open>socket\<close>, \<open>bind\<close> and \<open>listen\<close> are arguments; on failure the exception's
  text and the descriptors closed before it is thrown are returned.\<close>

definition server_new :: "int \<Rightarrow> int \<Rightarrow> int \<Rightarrow> (string \<times> int list) + server" where
  "server_new sock bind_ret listen_ret =
     (if sock < 0 then Inl (''socket() failed'', [])
      else if bind_ret < 0 then Inl (''bind() failed'', [sock])
      else if listen_ret < 0 then Inl (''listen() failed'', [sock])
      else Inr (server0 sock))"

definition server_delete :: "server \<Rightarrow> server" where
  "server_delete sv = emit (map (\<lambda>(fd, _). IO_close fd) (sv_clients sv) @ [IO_close (sv_server_fd sv)]) sv"

definition shutdown :: "server \<Rightarrow> server" where
  "shutdown sv = sv\<lparr>sv_running := False\<rparr>"

section \<open>One round\<close>

record pollfd =
  pf_fd :: int
  pf_pollout :: bool

definition build_pollfds :: "server \<Rightarrow> pollfd list" where
  "build_pollfds sv =
     \<lparr>pf_fd = sv_server_fd sv, pf_pollout = False\<rparr>
     # map (\<lambda>(fd, client). \<lparr>pf_fd = fd, pf_pollout = (cs_send_buffer client \<noteq> [])\<rparr>) (sv_clients sv)"

text \<open>What \<open>poll\<close> reports for a client and what a \<open>read\<close> and a \<open>write\<close> on it return.\<close>

record readiness =
  rv_error :: bool
  rv_pollin :: bool
  rv_pollout :: bool
  rv_read :: "bytes option"
  rv_write :: int

definition service :: "env \<Rightarrow> int \<Rightarrow> readiness \<Rightarrow> server \<Rightarrow> server" where
  "service env fd r sv =
     (if \<not> connected sv fd then sv
      else if rv_error r then handle_client_disconnect fd sv
      else let sv1 = (if rv_pollin r then handle_client_read env fd (rv_read r) sv else sv)
           in if \<not> connected sv1 fd then sv1
              else if rv_pollout r then handle_client_write fd (rv_write r) sv1 else sv1)"

text \<open>\<open>accepted\<close> is the result of \<open>accept\<close>, if the listening socket was readable.\<close>

definition run_round :: "env \<Rightarrow> int option \<Rightarrow> (int \<Rightarrow> readiness) \<Rightarrow> server \<Rightarrow> server" where
  "run_round env accepted ready sv =
     (let pollfds = build_pollfds sv;
          sv1 = (case accepted of Some client_fd \<Rightarrow> handle_new_connection client_fd sv | None \<Rightarrow> sv)
      in fold (\<lambda>pfd. service env (pf_fd pfd) (ready (pf_fd pfd))) (tl pollfds) sv1)"

section \<open>The loop\<close>

text \<open>How \<open>poll\<close> can end. A signal makes it fail with \<open>EINTR\<close>, which ends the loop whatever signal it
  was; the flags say that it was \<open>SIGINT\<close>, whose handler calls \<open>shutdown\<close>. During a round (the flag of
  \<open>Ready\<close>) it is noticed by the loop condition.\<close>

datatype wakeup = Interrupted bool | Poll_failed | Ready "int option" "int \<Rightarrow> readiness" bool

datatype run_end = Returned server | Thrown string server | Waiting server

fun run_loop :: "env \<Rightarrow> wakeup list \<Rightarrow> server \<Rightarrow> run_end" where
  "run_loop env [] sv = (if sv_running sv then Waiting sv else Returned sv)"
| "run_loop env (w # ws) sv =
     (if \<not> sv_running sv then Returned sv
      else case w of
        Interrupted sigint \<Rightarrow> Returned (if sigint then shutdown sv else sv)
      | Poll_failed \<Rightarrow> Thrown ''poll() failed'' sv
      | Ready accepted ready sigint \<Rightarrow>
          (let sv1 = run_round env accepted ready sv
           in run_loop env ws (if sigint then shutdown sv1 else sv1)))"

definition run :: "env \<Rightarrow> wakeup list \<Rightarrow> server \<Rightarrow> run_end" where
  "run env ws sv = run_loop env ws (sv\<lparr>sv_running := True\<rparr>)"

section \<open>Reachable servers\<close>

text \<open>
  The steps of a running server, in any order the network may cause them. The kernel
  gives a new connection a descriptor that is not in use.
\<close>

inductive server_step :: "env \<Rightarrow> server \<Rightarrow> server \<Rightarrow> bool" for env where
  accept: "\<not> connected sv fd \<Longrightarrow> server_step env sv (handle_new_connection fd sv)"
| service: "server_step env sv (service env fd r sv)"
| sigint: "server_step env sv (shutdown sv)"

inductive reachable :: "env \<Rightarrow> server \<Rightarrow> bool" for env where
  start: "reachable env (server0 sfd\<lparr>sv_running := True\<rparr>)"
| step: "reachable env sv \<Longrightarrow> server_step env sv sv' \<Longrightarrow> reachable env sv'"

inductive_cases server_stepE: "server_step env sv sv'"

section \<open>Projections\<close>

lemma handle_new_connection_sel [simp]:
  "sv_data (handle_new_connection fd sv) = sv_data sv"
  "sv_ticks (handle_new_connection fd sv) = sv_ticks sv"
  "sv_running (handle_new_connection fd sv) = sv_running sv"
  "connected (handle_new_connection fd sv) t \<longleftrightarrow> (0 \<le> fd \<and> t = fd) \<or> connected sv t"
  by (auto simp: handle_new_connection_def connected_def omap_find_set)

lemma shutdown_sel [simp]:
  "sv_data (shutdown sv) = sv_data sv" "sv_ticks (shutdown sv) = sv_ticks sv"
  "sv_clients (shutdown sv) = sv_clients sv" "sv_trace (shutdown sv) = sv_trace sv"
  "\<not> sv_running (shutdown sv)"
  by (simp_all add: shutdown_def)

section \<open>Consistency of clients and sessions\<close>

text \<open>Clients and sessions are proper maps, a client knows its own descriptor, and only
  connected clients have sessions.\<close>

definition sv_consistent :: "server \<Rightarrow> bool" where
  "sv_consistent sv \<longleftrightarrow> omap_wf (sv_clients sv) \<and> omap_wf (sessions (sv_data sv))
     \<and> dom (omap_find (sessions (sv_data sv))) \<subseteq> dom (omap_find (sv_clients sv))
     \<and> (\<forall>fd c. omap_find (sv_clients sv) fd = Some c \<longrightarrow> cs_fd c = fd)"

lemma sv_consistentD:
  assumes "sv_consistent sv"
  shows "omap_wf (sv_clients sv)" and "omap_wf (sessions (sv_data sv))"
    and "omap_find (sessions (sv_data sv)) fd = Some s \<Longrightarrow> connected sv fd"
  using assms by (auto simp: sv_consistent_def connected_def dom_def)

lemma connected_dom: "connected sv fd \<longleftrightarrow> fd \<in> dom (omap_find (sv_clients sv))"
  by (auto simp: connected_def)

lemma sends_cs_fd:
  assumes "sends a X b" and "\<forall>fd c. omap_find (sv_clients a) fd = Some c \<longrightarrow> cs_fd c = fd"
  shows "\<forall>fd c. omap_find (sv_clients b) fd = Some c \<longrightarrow> cs_fd c = fd"
  using assms by (auto simp: sends_def)

lemma dispatch_sessions:
  assumes "omap_wf (sessions (sv_data sv))"
  shows "omap_wf (sessions (sv_data (dispatch env fd cmd p sv)))"
    and "dom (omap_find (sessions (sv_data (dispatch env fd cmd p sv))))
           \<subseteq> insert fd (dom (omap_find (sessions (sv_data sv))))"
proof -
  have "omap_wf (sessions (out_data (run_command c fresh now fd p d)))
      \<and> dom (omap_find (sessions (out_data (run_command c fresh now fd p d))))
           \<subseteq> insert fd (dom (omap_find (sessions d)))" if "omap_wf (sessions d)" for c fresh now d
    using that by (cases c fresh now fd p d rule: run_command_sessions) (auto simp: omap_wf_set omap_wf_erase)
  with assms show "omap_wf (sessions (sv_data (dispatch env fd cmd p sv)))"
    "dom (omap_find (sessions (sv_data (dispatch env fd cmd p sv))))
           \<subseteq> insert fd (dom (omap_find (sessions (sv_data sv))))"
    by (simp_all add: dispatch_result_def subset_insertI split: option.split)
qed

lemma consistent_dispatch:
  assumes "sv_consistent sv" and "connected sv fd"
  shows "sv_consistent (dispatch env fd cmd p sv)"
proof -
  have "\<forall>t c. omap_find (sv_clients (dispatch env fd cmd p sv)) t = Some c \<longrightarrow> cs_fd c = t"
    using assms(1) by (intro sends_cs_fd[OF dispatch_sends]) (simp add: sv_consistent_def)
  moreover have "dom (omap_find (sessions (sv_data (dispatch env fd cmd p sv))))
      \<subseteq> dom (omap_find (sv_clients sv))"
    using dispatch_sessions(2)[of sv env fd cmd p] assms
    unfolding sv_consistent_def connected_dom by blast
  ultimately show ?thesis
    using dispatch_sessions(1)[of sv env fd cmd p] assms(1)
    unfolding sv_consistent_def dispatch_frame(8) by simp
qed

lemma consistent_serve:
  "sv_consistent sv \<Longrightarrow> connected sv fd \<Longrightarrow> sv_consistent (serve env fd fs sv)"
  by (induction fs arbitrary: sv) (simp_all add: split_paired_all consistent_dispatch)

lemma consistent_set_recv:
  "sv_consistent sv \<Longrightarrow> connected sv fd \<Longrightarrow> sv_consistent (set_recv fd b sv)"
  by (auto simp: sv_consistent_def set_recv_def omap_wf_set omap_find_set client_at_def connected_def)

lemma consistent_disconnect:
  assumes "sv_consistent sv"
  shows "sv_consistent (handle_client_disconnect fd sv)"
proof -
  have wf: "omap_wf (sv_clients sv)" using assms by (simp add: sv_consistent_def)
  have p: "omap_wf (sv_clients (parting fd sv))"
    by (rule parting_frame(7)[OF wf])
  have "\<forall>t c. omap_find (sv_clients (disconnecting fd sv)) t = Some c \<longrightarrow> cs_fd c = t"
    using assms by (simp add: sv_consistent_def)
  from sends_cs_fd[OF parting_sends this]
  have "\<forall>t c. omap_find (sv_clients (handle_client_disconnect fd sv)) t = Some c \<longrightarrow> cs_fd c = t"
    using p by (simp add: handle_client_disconnect_eq Let_def omap_find_erase)
  moreover have ses: "omap_wf (sessions (sv_data sv))"
    using assms by (simp add: sv_consistent_def)
  then have "omap_wf (sessions (sv_data (handle_client_disconnect fd sv)))"
    by (simp add: handle_logout_sessions omap_wf_erase)
  moreover have "dom (omap_find (sessions (sv_data (handle_client_disconnect fd sv))))
      = dom (omap_find (sessions (sv_data sv))) - {fd}"
    using ses by (cases "omap_find (sessions (sv_data sv)) fd") (simp_all add: handle_logout_sessions domIff)
  moreover have "dom (omap_find (sessions (sv_data sv))) \<subseteq> dom (omap_find (sv_clients sv))"
    using assms by (simp add: sv_consistent_def)
  ultimately show ?thesis
    using disconnect_clients(1,2)[OF wf, of fd] by (simp only: sv_consistent_def) blast
qed

lemma consistent_read:
  assumes "sv_consistent sv" and "connected sv fd"
  shows "sv_consistent (handle_client_read env fd n sv)"
proof (cases n)
  case None
  with assms show ?thesis by (simp add: handle_client_read_def consistent_disconnect)
next
  case (Some bs)
  with assms sv_consistentD(1)[OF assms(1)] show ?thesis
    by (auto simp: handle_client_read_serve consistent_serve consistent_disconnect consistent_set_recv
        split: prod.splits)
qed

text \<open>A write either disconnects or moves bytes from the send buffer to the kernel.\<close>

lemma upd_client_id: "connected sv fd \<Longrightarrow> omap_wf (sv_clients sv) \<Longrightarrow> upd_client fd id sv = sv"
  by (auto simp: upd_client_def client_at_def connected_def std_map.upd_same)

lemma consistent_write:
  assumes "sv_consistent sv" and "connected sv fd"
  shows "sv_consistent (handle_client_write fd n sv)"
proof -
  have "sv_consistent (upd_client fd (\<lambda>c. c\<lparr>cs_send_buffer := b\<rparr>) (emit es sv))" for b es
    using assms by (auto simp: sv_consistent_def omap_wf_set omap_find_set client_at_def connected_def)
  with assms consistent_disconnect[OF assms(1), of fd] sv_consistentD(1)[OF assms(1)] show ?thesis
    by (simp add: handle_client_write_def upd_client_id Let_def)
qed

lemma consistent_service: "sv_consistent sv \<Longrightarrow> sv_consistent (service env fd r sv)"
  by (simp add: service_def Let_def consistent_disconnect consistent_read consistent_write)

lemma consistent_new_connection: "sv_consistent sv \<Longrightarrow> sv_consistent (handle_new_connection fd sv)"
  by (auto simp: sv_consistent_def handle_new_connection_def omap_wf_set omap_find_set)

lemma consistent_step:
  assumes "sv_consistent sv" and "server_step env sv sv'"
  shows "sv_consistent sv'"
  using assms(2,1)
  by (elim server_stepE) (auto simp: consistent_service consistent_new_connection,
      simp add: sv_consistent_def)

lemma consistent_reachable: "reachable env sv \<Longrightarrow> sv_consistent sv"
proof (induction rule: reachable.induct)
  case (start sfd)
  show ?case by (simp add: sv_consistent_def server0_def server_data0_def)
qed (rule consistent_step)

section \<open>Invariants of the data are invariants of the loop\<close>

context data_invariant
begin

lemma dispatch:
  assumes "env_uuid env = gen" and "I (sv_ticks sv) (sv_data sv)"
  shows "I (sv_ticks (dispatch env fd cmd p sv)) (sv_data (dispatch env fd cmd p sv))"
  using assms run_command
  by (auto simp: dispatch_result_def dispatch_ticks_def split: option.split)

lemma disconnect:
  "I (sv_ticks sv) (sv_data sv) \<Longrightarrow>
     I (sv_ticks (handle_client_disconnect fd sv)) (sv_data (handle_client_disconnect fd sv))"
  by (simp add: logout)

lemma serve:
  assumes "env_uuid env = gen"
  shows "I (sv_ticks sv) (sv_data sv) \<Longrightarrow>
     I (sv_ticks (serve env fd fs sv)) (sv_data (serve env fd fs sv))"
  by (induction fs arbitrary: sv) (simp_all del: dispatch_frame add: split_paired_all dispatch[OF assms])

lemma read:
  assumes "env_uuid env = gen" and "I (sv_ticks sv) (sv_data sv)"
    and "connected sv fd" and "omap_wf (sv_clients sv)"
  shows "I (sv_ticks (handle_client_read env fd n sv)) (sv_data (handle_client_read env fd n sv))"
proof (cases n)
  case None
  with assms show ?thesis by (simp add: handle_client_read_def logout)
next
  case (Some bs)
  with assms serve[OF assms(1,2)] disconnect[OF serve[OF assms(1,2)]] show ?thesis
    by (auto simp: handle_client_read_serve split: prod.splits)
qed

lemma service_keeps:
  assumes "env_uuid env = gen" and "I (sv_ticks sv) (sv_data sv)" and "omap_wf (sv_clients sv)"
  shows "I (sv_ticks (service env fd r sv)) (sv_data (service env fd r sv))"
  using assms read[OF assms(1,2), of fd]
  by (auto simp: service_def Let_def logout handle_client_write_def)

lemma step_keeps:
  assumes "env_uuid env = gen" and "I (sv_ticks sv) (sv_data sv)" and "omap_wf (sv_clients sv)"
    and "server_step env sv sv'"
  shows "I (sv_ticks sv') (sv_data sv')"
  using assms(4)
proof (cases rule: server_step.cases)
  case (service fd r)
  then show ?thesis using service_keeps[OF assms(1-3)] by (simp only:)
qed (use assms(2) in simp_all)

lemma reachable:
  assumes "env_uuid env = gen" and "I 0 server_data0" and "reachable env sv"
  shows "I (sv_ticks sv) (sv_data sv)"
  using assms(3)
proof (induction rule: reachable.induct)
  case (start sfd)
  from assms(2) show ?case by (simp add: server0_def)
next
  case (step sv sv')
  have "omap_wf (sv_clients sv)"
    using consistent_reachable[OF step.hyps(1)] by (simp add: sv_consistent_def)
  with step show ?case using step_keeps[OF assms(1)] by blast
qed

end

section \<open>The loop stays within the reachable states\<close>

lemma reachable_fold_service:
  "reachable env sv \<Longrightarrow> reachable env (fold (\<lambda>pfd. service env (pf_fd pfd) (ready (pf_fd pfd))) ps sv)"
  by (induction ps arbitrary: sv) (auto intro: reachable.step server_step.service)

lemma reachable_run_round:
  assumes "reachable env sv" and "\<And>fd. accepted = Some fd \<Longrightarrow> \<not> connected sv fd"
  shows "reachable env (run_round env accepted ready sv)"
  unfolding run_round_def Let_def
  by (rule reachable_fold_service)
    (use assms in \<open>auto split: option.split intro: reachable.step server_step.accept\<close>)

end
