(* ===== verification/Server_Output.thy ===== *)
theory Server_Output
  imports Server_Loop
begin

text \<open>
  What the server puts on its connections: every client's output stream, the bytes already
  written to it followed by those still queued, is a sequence of whole messages that only
  grows, and each of them has whatever property the handlers' results have. The locale states
  the contract between the handlers and the stream once; its first instance is that the
  results are messages at all, Backing has the second: that they are true.
\<close>

section \<open>Whole messages\<close>

definition messages_of :: "bytes \<Rightarrow> bool" where
  "messages_of bs \<longleftrightarrow> (\<exists>ms. bs = concat (map (\<lambda>(c, p). make_message c p) ms))"

text \<open>A sequence of messages of which each satisfies \<open>V\<close> in the data \<open>d\<close>.\<close>

type_synonym verdict = "server_data_t \<Rightarrow> u16 \<Rightarrow> bytes \<Rightarrow> bool"

definition said :: "verdict \<Rightarrow> server_data_t \<Rightarrow> bytes \<Rightarrow> bool" where
  "said V d bs \<longleftrightarrow> (\<exists>ms. bs = concat (map (\<lambda>(c, p). make_message c p) ms) \<and> (\<forall>(c, p) \<in> set ms. V d c p))"

definition says_packet :: "verdict \<Rightarrow> server_data_t \<Rightarrow> packet \<Rightarrow> bool" where
  "says_packet V d pk \<longleftrightarrow> (\<exists>p. pk_bytes pk = make_message (pk_code pk) p \<and> V d (pk_code pk) p)"

definition says :: "verdict \<Rightarrow> server_data_t \<Rightarrow> result_t \<Rightarrow> bool" where
  "says V d r \<longleftrightarrow> says_packet V d (res_response r) \<and> (\<forall>p \<in> set (res_pushes r). says_packet V d (push_packet p))"

lemma said_Nil [simp, intro]: "said V d []"
  unfolding said_def by (rule exI[of _ "[]"]) simp

lemma said_append [intro]: "said V d xs \<Longrightarrow> said V d ys \<Longrightarrow> said V d (xs @ ys)"
  unfolding said_def
proof (elim exE conjE)
  fix ms ns
  assume "xs = concat (map (\<lambda>(c, p). make_message c p) ms)" "ys = concat (map (\<lambda>(c, p). make_message c p) ns)"
    and "\<forall>(c, p) \<in> set ms. V d c p" "\<forall>(c, p) \<in> set ns. V d c p"
  then show "\<exists>ks. xs @ ys = concat (map (\<lambda>(c, p). make_message c p) ks) \<and> (\<forall>(c, p) \<in> set ks. V d c p)"
    by (intro exI[of _ "ms @ ns"]) auto
qed

lemma said_message: "V d c p \<Longrightarrow> said V d (make_message c p)"
  unfolding said_def by (rule exI[of _ "[(c, p)]"]) simp

lemma said_concat: "(\<And>b. b \<in> set bs \<Longrightarrow> said V d b) \<Longrightarrow> said V d (concat bs)"
  by (induction bs) auto

lemma said_mono: "said V d bs \<Longrightarrow> (\<And>c p. V d c p \<Longrightarrow> W e c p) \<Longrightarrow> said W e bs"
  unfolding said_def by fast

lemma said_packet: "says_packet V d pk \<Longrightarrow> said V d (pk_bytes pk)"
  by (auto simp: says_packet_def intro: said_message)

lemma said_messages: "said V d bs \<Longrightarrow> messages_of bs"
  unfolding said_def messages_of_def by blast

lemma says_framed: "says (\<lambda>_ _ _. True) d r \<longleftrightarrow> framed_result r"
  by (simp add: says_def says_packet_def framed_result_def framed_def)

lemma says_fail [simp, intro]: "V d (error_code e) p \<Longrightarrow> says V d (make_result (error_code e) p)"
  by (simp add: says_def says_packet_def) blast

lemma says_ok [intro]: "V d (response_code c) p \<Longrightarrow> says V d (ok c p)"
  by (simp add: says_def says_packet_def del: response_code.simps) blast

lemma says_add_push [intro]: "V d e p \<Longrightarrow> says V d r \<Longrightarrow> says V d (add_push (make_push e p fds) r)"
  by (auto simp: says_def says_packet_def)

lemma said_delivered:
  assumes "says V d r"
  shows "said V d (delivered fd r t)" and "said V d (all_copies fd (res_pushes r) t)"
proof -
  have "said V d (pk_bytes (push_packet p))" if "p \<in> set (res_pushes r)" for p
    using that assms by (simp add: says_def said_packet)
  then have "said V d (copies fd p t)" if "p \<in> set (res_pushes r)" for p
    using that by (auto simp: copies_def intro!: said_concat)
  then show "said V d (all_copies fd (res_pushes r) t)"
    by (auto simp: all_copies_def intro!: said_concat)
  then show "said V d (delivered fd r t)"
    using assms by (simp add: delivered_def says_def said_packet)
qed

text \<open>A push to distinct descriptors reaches each of them, except the issuer, once.\<close>

lemma filter_eq_distinct: "distinct xs \<Longrightarrow> filter ((=) t) xs = (if t \<in> set xs then [t] else [])"
  by (induction xs) auto

lemma copies_distinct:
  "distinct (push_fds p) \<Longrightarrow>
     copies fd p t = (if t \<noteq> fd \<and> t \<in> set (push_fds p) then pk_bytes (push_packet p) else [])"
  by (simp add: copies_def filter_eq_distinct)

section \<open>Every handler's result is framed\<close>

lemma framed_fail [simp]: "framed_result (out_result (fail e p d))"
  by simp

lemma framed_login: "framed_result (out_result (handle_login fresh fd name d))"
  by (auto simp: handle_login_def Let_def split: prod.split)

lemma framed_logout: "framed_result (out_result (handle_logout fd d))"
  by (auto simp: handle_logout_def Let_def split: option.split)

lemma framed_queries:
  "framed_result (out_result (handle_users fd d))"
  "framed_result (out_result (handle_user fd u d))"
  "framed_result (out_result (handle_messages fd u d))"
  "framed_result (out_result (handle_subscribed_teams fd d))"
  "framed_result (out_result (handle_subscribed_users fd u d))"
  by (auto simp: handle_users_def handle_user_def handle_messages_def handle_subscribed_teams_def
      handle_subscribed_users_def Let_def split: option.split)

lemma framed_send: "framed_result (out_result (handle_send now fd r b d))"
  by (auto simp: handle_send_def Let_def split: option.split)

lemma framed_subscriptions:
  "framed_result (out_result (handle_subscribe fd u d))"
  "framed_result (out_result (handle_unsubscribe fd u d))"
  by (auto simp: handle_subscribe_def handle_unsubscribe_def Let_def split: option.split)

lemma framed_use: "framed_result (out_result (handle_use fd p d))"
  by (auto simp: handle_use_def use_none_def use_team_def use_channel_def use_thread_def Let_def
      split: option.split list.split)

lemma framed_create: "framed_result (out_result (handle_create fresh now fd p d))"
proof -
  have "framed_result (out_result (create_team fresh user p d))" for user
    by (rule create_team_cases[of fresh user p d]) auto
  moreover have "framed_result (out_result (create_channel fresh user ctx p d))" for user ctx
    by (rule create_channel_cases[of fresh user ctx p d]) auto
  moreover have "framed_result (out_result (create_thread fresh now user ctx p d))" for user ctx
    by (rule create_thread_cases[of fresh now user ctx p d]) auto
  moreover have "framed_result (out_result (create_reply fresh now user ctx p d))" for user ctx
    by (rule create_reply_cases[of fresh now user ctx p d]) auto
  ultimately show ?thesis
    by (auto simp: handle_create_def split: option.split)
qed

lemma framed_list: "framed_result (out_result (handle_list fd d))"
  by (simp add: handle_list_def split: option.split)

lemma framed_info: "framed_result (out_result (handle_info fd d))"
  by (simp add: handle_info_def split: option.split)

lemma framed_run_command: "framed_result (out_result (run_command cmd fresh now fd p d))"
  unfolding run_command_def
  by (simp add: framed_login framed_logout framed_queries framed_send framed_subscriptions framed_use
      framed_create framed_list framed_info split: command.split)

section \<open>The stream of a connection\<close>

text \<open>The bytes written on a descriptor since it was last accepted.\<close>

fun written_on :: "int \<Rightarrow> io_event list \<Rightarrow> bytes \<Rightarrow> bytes" where
  "written_on fd [] acc = acc"
| "written_on fd (IO_accept f # es) acc = written_on fd es (if f = fd then [] else acc)"
| "written_on fd (IO_write f bs # es) acc = written_on fd es (if f = fd then acc @ bs else acc)"
| "written_on fd (IO_close f # es) acc = written_on fd es acc"
| "written_on fd (IO_log l # es) acc = written_on fd es acc"

definition sv_sent :: "server \<Rightarrow> int \<Rightarrow> bytes" where
  "sv_sent sv fd = written_on fd (sv_trace sv) [] @ send_of sv fd"

lemma written_on_append [simp]: "written_on fd (es @ fs) acc = written_on fd fs (written_on fd es acc)"
  by (induction fd es acc rule: written_on.induct) auto

lemma written_on_logs [simp]: "written_on fd (map IO_log ls) acc = acc"
  by (induction ls) auto

lemma sent_set_recv [simp]: "sv_sent (set_recv fd b sv) t = sv_sent sv t"
  by (simp add: sv_sent_def)

text \<open>\<open>extends V sv sv' t\<close>: between the two states \<open>t\<close>'s stream grew by messages that satisfy \<open>V\<close>.\<close>

definition extends :: "verdict \<Rightarrow> server \<Rightarrow> server \<Rightarrow> int \<Rightarrow> bool" where
  "extends V sv sv' t \<longleftrightarrow> (\<exists>new. sv_sent sv' t = sv_sent sv t @ new \<and> said V (sv_data sv') new)"

lemma extends_same [intro]: "sv_sent sv' t = sv_sent sv t \<Longrightarrow> extends V sv sv' t"
  by (auto simp: extends_def)

lemma connected_read_self:
  assumes "connected sv t" and "\<not> connected (handle_client_read env fd n sv) t" and "connected sv fd"
    and "omap_wf (sv_clients sv)"
  shows "t = fd"
proof (cases n)
  case None
  with assms show ?thesis by (simp add: handle_client_read_def disconnect_clients(3))
next
  case (Some bs)
  with assms handle_client_read_serve[OF assms(3,4), of env bs] show ?thesis
    by (auto simp: disconnect_clients(3) split: prod.splits if_splits)
qed

lemma connected_write:
  "connected sv fd \<Longrightarrow> omap_wf (sv_clients sv) \<Longrightarrow>
     connected (handle_client_write fd n sv) t \<Longrightarrow> connected sv t"
  by (auto simp: handle_client_write_def Let_def upd_client_id disconnect_clients(3) split: if_splits)

lemma read_wf:
  assumes "omap_wf (sv_clients sv)" and "connected sv fd"
  shows "omap_wf (sv_clients (handle_client_read env fd n sv))"
    and "connected (handle_client_read env fd n sv) u \<Longrightarrow> connected sv u"
proof -
  have "omap_wf (sv_clients (handle_client_read env fd n sv))
    \<and> (connected (handle_client_read env fd n sv) u \<longrightarrow> connected sv u)"
  proof (cases n)
    case None
    then show ?thesis using assms(1) by (simp add: handle_client_read_def disconnect_clients)
  next
    case (Some bs)
    with handle_client_read_serve[OF assms(2,1), of env bs] assms show ?thesis
      by (auto simp: disconnect_clients split: prod.splits)
  qed
  then show "omap_wf (sv_clients (handle_client_read env fd n sv))"
    and "connected (handle_client_read env fd n sv) u \<Longrightarrow> connected sv u" by simp_all
qed

lemma service_connected:
  assumes "omap_wf (sv_clients sv)" and "connected (service env fd r sv) t"
  shows "connected sv t"
proof -
  let ?sv = "handle_client_read env fd (rv_read r) sv"
  note read = read_wf[OF assms(1), of fd env "rv_read r"]
  show ?thesis
    using assms read connected_write[of sv fd "rv_write r" t] connected_write[of ?sv fd "rv_write r" t]
    by (auto simp: service_def Let_def disconnect_clients(3) split: if_splits)
qed

section \<open>Clock, growth and new streams\<close>

lemma serve_ticks: "sv_ticks sv \<le> sv_ticks (serve env fd fs sv)"
proof (induction fs arbitrary: sv)
  case (Cons m fs)
  obtain c p where m: "m = (c, p)" by force
  have "sv_ticks sv \<le> sv_ticks (dispatch env fd c p sv)" by (simp add: dispatch_ticks_def)
  also have "\<dots> \<le> sv_ticks (serve env fd fs (dispatch env fd c p sv))" by (rule Cons.IH)
  finally show ?case by (simp only: m serve_simps)
qed simp

lemma serve_le: "env_uuid env = gen \<Longrightarrow> data_le (sv_data sv) (sv_data (serve env fd fs sv))"
  using grown.serve[of env gen "sv_data sv" sv] by simp

lemma write_ticks: "sv_ticks (handle_client_write fd n sv) = sv_ticks sv"
  by (simp add: handle_client_write_def Let_def)

lemma write_le: "data_le (sv_data sv) (sv_data (handle_client_write fd n sv))"
  by (simp add: handle_client_write_def Let_def handle_logout_le)

lemma read_ticks:
  assumes "connected sv fd" and "omap_wf (sv_clients sv)"
  shows "sv_ticks sv \<le> sv_ticks (handle_client_read env fd n sv)"
proof (cases n)
  case (Some bs)
  then show ?thesis
    using handle_client_read_serve[OF assms, of env bs] by (auto simp: serve_ticks split: prod.split)
qed (simp add: handle_client_read_def)

lemma step_ticks:
  assumes "server_step env sv sv'" and "omap_wf (sv_clients sv)"
  shows "sv_ticks sv \<le> sv_ticks sv'"
  using assms(1) by (cases rule: server_step.cases)
    (simp_all add: service_def Let_def write_ticks read_ticks[OF _ assms(2)])

lemma step_le:
  assumes "env_uuid env = gen" and "server_step env sv sv'" and "omap_wf (sv_clients sv)"
  shows "data_le (sv_data sv) (sv_data sv')"
  using grown.step_keeps[OF assms(1) _ assms(3,2)] by simp

lemma run_command_le: "data_le d (out_data (run_command cmd fresh now fd p d))"
  using grown.run_command[where gen = "\<lambda>_. fresh" and ?d0.0 = d] by simp

text \<open>A connection that was just accepted has an empty stream.\<close>

lemma new_stream:
  assumes "\<not> connected sv fd" and "server_step env sv sv'" and "omap_wf (sv_clients sv)" and "connected sv' fd"
  shows "sv_sent sv' fd = []" and "sv_data sv' = sv_data sv"
proof -
  have "sv_sent sv' fd = [] \<and> sv_data sv' = sv_data sv"
    using assms(2)
  proof (cases rule: server_step.cases)
    case (accept f)
    with assms(1,4) have "fd = f" "0 \<le> f" by auto
    with accept show ?thesis
      by (simp add: sv_sent_def handle_new_connection_def send_of_def client_at_def omap_find_set
          client_state0_def emit_def)
  next
    case (service f r)
    then show ?thesis using service_connected[OF assms(3)] assms(1,4) by blast
  qed (use assms(1,4) in \<open>simp add: connected_def\<close>)
  then show "sv_sent sv' fd = []" "sv_data sv' = sv_data sv" by simp_all
qed

section \<open>The contract of a stream\<close>

text \<open>
  \<open>K d t xs\<close>: with the data \<open>d\<close> the stream of \<open>t\<close> may be \<open>xs\<close>. If the result of every command and the
  announcement of every departure keep \<open>K\<close>, so does every step of the server. \<open>N\<close> bounds the number
  of commands for which libuuid is assumed to work.
\<close>

locale stream_contract = data_invariant gen I for gen I +
  fixes K :: "server_data_t \<Rightarrow> int \<Rightarrow> bytes \<Rightarrow> bool" and N :: nat
  assumes refused: "err \<in> {ERR_UNAUTHORIZED, ERR_INVALID_COMMAND} \<Longrightarrow> K d t xs \<Longrightarrow> K d t (xs @ delivered fd (out_result (fail err [] d)) t)"
    and answered: "I k d \<Longrightarrow> k < N \<Longrightarrow> K d t xs \<Longrightarrow>
      K (out_data (run_command cmd (gen k) now fd p d)) t
        (xs @ delivered fd (out_result (run_command cmd (gen k) now fd p d)) t)"
    and parted: "I k d \<Longrightarrow> k \<le> N \<Longrightarrow> t \<noteq> fd \<Longrightarrow> K d t xs \<Longrightarrow>
      K (out_data (handle_logout fd d)) t (xs @ all_copies fd (res_pushes (out_result (handle_logout fd d))) t)"
begin

abbreviation fine :: "server \<Rightarrow> int \<Rightarrow> bool" where
  "fine sv t \<equiv> K (sv_data sv) t (sv_sent sv t)"

lemma fine_dispatch:
  assumes "env_uuid env = gen" and "I (sv_ticks sv) (sv_data sv)" and "dispatch_ticks fd cmd sv \<le> N"
    and "connected sv t" and "fine sv t"
  shows "fine (dispatch env fd cmd p sv) t"
proof -
  let ?r = "dispatch_result env fd cmd p sv"
  have "K (out_data ?r) t (sv_sent sv t @ delivered fd (out_result ?r) t)"
    using assms(1-3,5) answered[of "sv_ticks sv"] refused[OF _ assms(5)]
    by (auto simp: dispatch_result_def dispatch_ticks_def simp del: error_code.simps command_code.simps
        split: option.splits)
  then show ?thesis using assms(4) by (simp add: sv_sent_def dispatch_send_of)
qed

lemma fine_serve:
  assumes "env_uuid env = gen"
  shows "I (sv_ticks sv) (sv_data sv) \<Longrightarrow> sv_ticks (serve env fd fs sv) \<le> N \<Longrightarrow> connected sv t \<Longrightarrow>
    fine sv t \<Longrightarrow> fine (serve env fd fs sv) t"
proof (induction fs arbitrary: sv)
  case (Cons m fs)
  obtain c p where m: "m = (c, p)" by force
  let ?sv = "dispatch env fd c p sv"
  have inv: "I (sv_ticks ?sv) (sv_data ?sv)" by (rule dispatch[OF assms Cons.prems(1)])
  have ticks: "sv_ticks (serve env fd fs ?sv) \<le> N" using Cons.prems(2) by (simp only: m serve_simps)
  have "fine ?sv t"
    using serve_ticks[of ?sv env fd fs] ticks Cons.prems by (intro fine_dispatch[OF assms]) simp_all
  then show ?case using Cons.IH[OF inv ticks] Cons.prems(3) by (simp only: m serve_simps) simp
qed simp

lemma fine_disconnect:
  assumes "I (sv_ticks sv) (sv_data sv)" and "sv_ticks sv \<le> N"
    and "connected sv t" and "t \<noteq> fd" and "omap_wf (sv_clients sv)" and "fine sv t"
  shows "K (out_data (handle_logout fd (sv_data sv))) t (sv_sent (handle_client_disconnect fd sv) t)"
  using assms parted[OF assms(1,2,4,6)] by (simp add: sv_sent_def disconnect_clients(5))

lemma fine_read:
  assumes "env_uuid env = gen" and "I (sv_ticks sv) (sv_data sv)"
    and "sv_ticks (handle_client_read env fd n sv) \<le> N"
    and "connected sv t" and "connected sv fd" and "omap_wf (sv_clients sv)"
    and "connected (handle_client_read env fd n sv) t" and "fine sv t"
  shows "fine (handle_client_read env fd n sv) t"
proof (cases n)
  case None
  with assms show ?thesis
    by (auto simp: handle_client_read_def disconnect_clients(3) intro: fine_disconnect)
next
  case (Some bs)
  obtain fs rest bad where fr: "frames srv_split (recv_of sv fd @ bs) = (fs, rest, bad)"
    by (metis prod_cases3)
  note eq = handle_client_read_serve[OF assms(5,6), of env bs, unfolded fr prod.case]
  have ticks: "sv_ticks (serve env fd fs sv) \<le> N" using assms(3) Some eq by (simp split: if_splits)
  have served: "fine (serve env fd fs sv) t"
    using assms(1,2) ticks assms(4,8) by (rule fine_serve)
  show ?thesis
  proof (cases bad)
    case True
    with eq Some assms have "t \<noteq> fd" by (auto simp: disconnect_clients(3))
    then have "K (out_data (handle_logout fd (sv_data (serve env fd fs sv)))) t
        (sv_sent (handle_client_disconnect fd (serve env fd fs sv)) t)"
      using serve[OF assms(1,2)] ticks assms served by (intro fine_disconnect) simp_all
    then show ?thesis using True eq Some by simp
  next
    case False
    with eq Some served show ?thesis by simp
  qed
qed

lemma fine_write:
  assumes "I (sv_ticks sv) (sv_data sv)" and "sv_ticks sv \<le> N"
    and "connected sv t" and "connected sv fd" and "omap_wf (sv_clients sv)"
    and "connected (handle_client_write fd n sv) t" and "fine sv t"
  shows "fine (handle_client_write fd n sv) t"
proof (cases "send_of sv fd \<noteq> [] \<and> n < 0")
  case True
  with assms have "t \<noteq> fd"
    by (auto simp: handle_client_write_def Let_def upd_client_id disconnect_clients(3))
  with True assms show ?thesis
    by (auto simp: handle_client_write_def Let_def upd_client_id intro: fine_disconnect)
next
  case False
  with assms have "sv_sent (handle_client_write fd n sv) t = sv_sent sv t"
    by (auto simp: handle_client_write_def Let_def upd_client_id sv_sent_def send_of_def client_at_upd)
  moreover have "sv_data (handle_client_write fd n sv) = sv_data sv"
    using False assms(4,5) by (auto simp: handle_client_write_def Let_def upd_client_id)
  ultimately show ?thesis using assms(7) by simp
qed

lemma fine_service:
  assumes "env_uuid env = gen" and "I (sv_ticks sv) (sv_data sv)" and "sv_ticks (service env fd r sv) \<le> N"
    and "sv_consistent sv" and "connected sv t" and "connected (service env fd r sv) t" and "fine sv t"
  shows "fine (service env fd r sv) t"
proof (cases "connected sv fd \<and> \<not> rv_error r")
  case False
  with assms sv_consistentD(1)[OF assms(4)] show ?thesis
    by (auto simp: service_def disconnect_clients(3) intro: fine_disconnect)
next
  case fd: True
  let ?sv = "if rv_pollin r then handle_client_read env fd (rv_read r) sv else sv"
  have c: "sv_consistent ?sv"
    using assms(4) fd by (simp add: consistent_read)
  note wf = sv_consistentD(1)[OF assms(4)] sv_consistentD(1)[OF c]
  have t: "connected ?sv t"
  proof (rule ccontr)
    assume n: "\<not> connected ?sv t"
    then have "t = fd" using connected_read_self[OF assms(5) _ _ wf(1)] fd assms(5) by (auto split: if_splits)
    with n fd assms(6) show False by (auto simp: service_def Let_def split: if_splits)
  qed
  have inv: "I (sv_ticks ?sv) (sv_data ?sv)"
    using read[OF assms(1,2) _ wf(1)] fd assms(2) by simp
  have ticks: "sv_ticks ?sv \<le> N"
    using assms(3) fd by (auto simp: service_def Let_def write_ticks split: if_splits)
  have "fine ?sv t"
    using fine_read[OF assms(1,2) _ assms(5) _ wf(1) _ assms(7)] fd t ticks assms(7) by (auto split: if_splits)
  then show ?thesis
    using fine_write[OF inv ticks t _ wf(2)] assms(6) fd by (auto simp: service_def Let_def)
qed

lemma fine_step:
  assumes "env_uuid env = gen" and "I (sv_ticks sv) (sv_data sv)" and "sv_ticks sv' \<le> N"
    and "sv_consistent sv" and "server_step env sv sv'" and "connected sv t" and "connected sv' t" and "fine sv t"
  shows "fine sv' t"
  using assms(5)
proof (cases rule: server_step.cases)
  case (accept fd)
  with assms(6) have "t \<noteq> fd" by auto
  with accept assms(8) show ?thesis
    by (simp add: sv_sent_def handle_new_connection_def send_of_def client_at_def omap_find_set emit_def)
next
  case (service fd r)
  then show ?thesis using assms fine_service[OF assms(1,2)] by metis
next
  case sigint
  then show ?thesis using assms(8) by (simp add: sv_sent_def send_of_def client_at_def)
qed

text \<open>If an empty stream is fine for a connection without session, the streams of a reachable server are.\<close>

lemma fine_reachable:
  assumes "env_uuid env = gen" and "I 0 server_data0" and "reachable env sv"
    and empty: "\<And>d t. omap_find (sessions d) t = None \<Longrightarrow> K d t []"
  shows "connected sv t \<Longrightarrow> sv_ticks sv \<le> N \<Longrightarrow> fine sv t"
  using assms(3)
proof (induction rule: reachable.induct)
  case (start sfd)
  then show ?case by (simp add: connected_def server0_def)
next
  case (step sv sv')
  note c = consistent_reachable[OF step.hyps(1)]
  have ticks: "sv_ticks sv \<le> N" using step_ticks[OF step.hyps(2) sv_consistentD(1)[OF c]] step.prems(2) by simp
  show ?case
  proof (cases "connected sv t")
    case True
    then show ?thesis
      using fine_step[OF assms(1) reachable[OF assms(1,2) step.hyps(1)] step.prems(2) c step.hyps(2) True step.prems(1)]
        step.IH[OF True ticks] by blast
  next
    case False
    note new = new_stream[OF False step.hyps(2) sv_consistentD(1)[OF c] step.prems(1)]
    have "omap_find (sessions (sv_data sv')) t = None" using new(2) False sv_consistentD(3)[OF c] by (cases "omap_find (sessions (sv_data sv)) t") auto
    then show ?thesis unfolding new(1) by (rule empty)
  qed
qed

end

text \<open>
  A verdict on messages that growth of the data does not change. If the result of every command
  satisfies it, so does every stream, and so does what any step adds to it.
\<close>

locale output_contract = data_invariant gen I for gen I +
  fixes V :: verdict and N :: nat
  assumes stays: "data_le d e \<Longrightarrow> V d c p \<Longrightarrow> V e c p"
    and refusal: "err \<in> {ERR_UNAUTHORIZED, ERR_INVALID_COMMAND} \<Longrightarrow> V d (error_code err) []"
    and answers: "I k d \<Longrightarrow> k < N \<Longrightarrow>
      says V (out_data (run_command cmd (gen k) now fd p d)) (out_result (run_command cmd (gen k) now fd p d))"
    and partings: "I k d \<Longrightarrow> k \<le> N \<Longrightarrow>
      says V (out_data (handle_logout fd d)) (out_result (handle_logout fd d))"
begin

lemma said_stays: "data_le d e \<Longrightarrow> said V d bs \<Longrightarrow> said V e bs"
  using said_mono[of V d bs V e] stays by blast

lemma said_grows: "data_le d e \<Longrightarrow> \<exists>new. xs = old @ new \<and> said V d new \<Longrightarrow> said V e ys \<Longrightarrow>
    \<exists>new. xs @ ys = old @ new \<and> said V e new"
  using said_stays by fastforce

end

sublocale output_contract \<subseteq> added: stream_contract gen I "\<lambda>d t xs. \<exists>new. xs = old @ new \<and> said V d new" N for old
proof (unfold_locales, goal_cases)
  case (1 err d t xs fd)
  have "says V d (out_result (fail err [] d))" using refusal[OF 1(1)] by (simp add: says_fail del: error_code.simps)
  from said_delivered(1)[OF this] show ?case by (rule said_grows[OF data_le_refl 1(2)])
next
  case (2 k d t xs cmd now fd p)
  show ?case
    by (rule said_grows[OF run_command_le 2(3) said_delivered(1)[OF answers[OF 2(1,2)]]])
next
  case (3 k d t fd xs)
  show ?case
    by (rule said_grows[OF handle_logout_le 3(4) said_delivered(2)[OF partings[OF 3(1,2)]]])
qed

context output_contract
begin

lemma extends_step:
  assumes "env_uuid env = gen" and "I (sv_ticks sv) (sv_data sv)" and "sv_ticks sv' \<le> N"
    and "sv_consistent sv" and "server_step env sv sv'" and "connected sv t" and "connected sv' t"
  shows "extends V sv sv' t"
  using added.fine_step[OF assms, of "sv_sent sv t"] by (auto simp: extends_def)

lemma stream:
  assumes "env_uuid env = gen" and "I 0 server_data0" and "reachable env sv"
  shows "connected sv fd \<Longrightarrow> sv_ticks sv \<le> N \<Longrightarrow> said V (sv_data sv) (sv_sent sv fd)"
  using added.fine_reachable[OF assms, of "[]"] by simp

end

section \<open>The streams consist of messages\<close>

interpretation whole: output_contract gen "\<lambda>_ _. True" "\<lambda>_ _ _. True" N for gen N
  by unfold_locales (simp_all add: says_framed framed_run_command framed_logout)

lemma extends_step_whole:
  assumes "sv_consistent sv" and "server_step env sv sv'" and "connected sv t" and "connected sv' t"
  shows "\<exists>new. sv_sent sv' t = sv_sent sv t @ new \<and> messages_of new"
  using whole.extends_step[OF refl TrueI le_refl assms] by (auto simp: extends_def intro: said_messages)

lemma stream_messages: "reachable env sv \<Longrightarrow> connected sv fd \<Longrightarrow> messages_of (sv_sent sv fd)"
  using whole.stream[OF refl TrueI _ _ le_refl] by (rule said_messages)

section \<open>No request is left lying\<close>

text \<open>No connected client has a whole frame, or a rejected header, in its receive buffer.\<close>

definition drained :: "server \<Rightarrow> bool" where
  "drained sv \<longleftrightarrow> (\<forall>t. connected sv t \<longrightarrow> srv_split (recv_of sv t) = Incomplete)"

lemma drained_disconnect:
  "drained sv \<Longrightarrow> omap_wf (sv_clients sv) \<Longrightarrow> drained (handle_client_disconnect fd sv)"
  by (auto simp: drained_def disconnect_clients)

lemma drained_read:
  assumes "drained sv" and "connected sv fd" and "omap_wf (sv_clients sv)"
  shows "drained (handle_client_read env fd n sv)"
proof (cases n)
  case None
  then show ?thesis using drained_disconnect assms by (simp add: handle_client_read_def)
next
  case (Some bs)
  obtain fs rest bad where fr: "frames srv_split (recv_of sv fd @ bs) = (fs, rest, bad)" by (metis prod_cases3)
  have others: "connected (serve env fd fs sv) t \<Longrightarrow> srv_split (recv_of (serve env fd fs sv) t) = Incomplete" for t
    using assms(1) by (simp add: drained_def)
  show ?thesis
  proof (cases bad)
    case True
    then show ?thesis
      using Some fr assms others
      by (simp add: handle_client_read_serve drained_disconnect drained_def)
        (simp add: drained_def disconnect_clients)
  next
    case False
    then have "srv_split rest = Incomplete" using srv.frames_end[OF fr] by simp
    then show ?thesis
      using Some fr assms others False
      by (auto simp: handle_client_read_serve drained_def)
  qed
qed

lemma drained_write:
  assumes "drained sv" and "connected sv fd" and "omap_wf (sv_clients sv)"
  shows "drained (handle_client_write fd n sv)"
proof (cases "send_of sv fd \<noteq> [] \<and> n < 0")
  case True
  with assms show ?thesis
    by (simp add: handle_client_write_def Let_def upd_client_id drained_disconnect)
next
  case False
  with assms show ?thesis
    by (auto simp: handle_client_write_def Let_def upd_client_id drained_def recv_of_def client_at_upd)
qed

lemma drained_step:
  assumes "sv_consistent sv" and "drained sv" and "server_step env sv sv'"
  shows "drained sv'"
  using assms(3)
proof (cases rule: server_step.cases)
  case (accept fd)
  have "srv_split [] = Incomplete" by (simp add: srv_split_def)
  then show ?thesis using assms(2) accept
    by (auto simp: drained_def handle_new_connection_def emit_def connected_def recv_of_def client_at_def
        omap_find_set client_state0_def split: if_splits)
next
  case (service fd r)
  have wf: "omap_wf (sv_clients sv)" by (rule sv_consistentD(1)[OF assms(1)])
  let ?sv1 = "if rv_pollin r then handle_client_read env fd (rv_read r) sv else sv"
  have c1: "connected sv fd \<Longrightarrow> drained ?sv1 \<and> omap_wf (sv_clients ?sv1)"
    using drained_read assms(2) wf sv_consistentD(1)[OF consistent_read[OF assms(1)]] by auto
  show ?thesis
    unfolding service service_def Let_def
    using c1 drained_disconnect[OF assms(2) wf] assms(2) drained_write[of ?sv1 fd "rv_write r"]
    by auto
qed (use assms(2) in \<open>auto simp: drained_def recv_of_def client_at_def connected_def\<close>)

lemma drained_reachable: "reachable env sv \<Longrightarrow> drained sv"
proof (induction rule: reachable.induct)
  case (start sfd)
  then show ?case by (simp add: drained_def connected_def server0_def)
qed (use drained_step consistent_reachable in blast)

end
