(* ===== verification/Service_Spec.thy ===== *)
theory Service_Spec
  imports Business
begin

text \<open>
  What the service promises, without vectors, arrays and pointers. A world knows the users
  and their names, who sits behind which descriptor and where, who belongs to which team,
  what is stored at each place, and the private messages sent. A place is the path of
  UUIDs that leads to it: team, channel, thread, reply. An action is allowed or not; an
  allowed action has one effect. Service_Refinement shows that the handlers of
  src/server/handlers implement exactly this.
\<close>

section \<open>Worlds and actions\<close>

datatype node =
  Team_node bytes bytes
| Channel_node bytes bytes
| Thread_node bytes bytes bytes u64
| Reply_node bytes bytes u64

record world =
  w_name :: "bytes \<Rightarrow> bytes option"
  w_session :: "int \<Rightarrow> bytes option"
  w_place :: "int \<Rightarrow> bytes list option"
  w_node :: "bytes list \<Rightarrow> node option"
  w_member :: "(bytes \<times> bytes) set"
  w_mail :: "(bytes \<times> bytes \<times> bytes \<times> u64) list"

datatype act =
  Login bytes bytes
| Logout
| Ask
| Ask_user bytes
| Ask_members bytes
| Send bytes bytes u64
| Subscribe bytes
| Unsubscribe bytes
| Move "bytes list"
| Create bytes bytes u64

text \<open>What a creation at a place stores, and how many bytes it must be given.\<close>

definition new_node :: "bytes list \<Rightarrow> bytes \<Rightarrow> bytes \<Rightarrow> u64 \<Rightarrow> node" where
  "new_node place author p now =
     (if length place = 0 then Team_node (take 32 p) (take 255 (drop 32 p))
      else if length place = 1 then Channel_node (take 32 p) (take 255 (drop 32 p))
      else if length place = 2 then Thread_node author (take 32 p) (take 512 (drop 32 p)) now
      else Reply_node author (take 512 p) now)"

definition node_bytes :: "bytes list \<Rightarrow> nat" where
  "node_bytes place =
     (if length place \<le> 1 then 32 + 255 else if length place = 2 then 32 + 512 else 512)"

text \<open>A user may enter a team, and anything below it, only as a member.\<close>

definition may_enter :: "world \<Rightarrow> bytes \<Rightarrow> bytes list \<Rightarrow> bool" where
  "may_enter w user place \<longleftrightarrow> place = [] \<or> (user, hd place) \<in> w_member w"

definition allowed :: "world \<Rightarrow> int \<Rightarrow> act \<Rightarrow> bool" where
  "allowed w fd a =
     (case a of
        Login u n \<Rightarrow> w_name w u = Some n \<or> (w_name w u = None \<and> n \<notin> ran (w_name w))
      | _ \<Rightarrow>
        (case w_session w fd of
           None \<Rightarrow> False
         | Some user \<Rightarrow>
           (case a of
              Ask_user u \<Rightarrow> w_name w u \<noteq> None
            | Ask_members t \<Rightarrow> w_node w [t] \<noteq> None \<and> (user, t) \<in> w_member w
            | Send r body now \<Rightarrow> w_name w r \<noteq> None
            | Subscribe t \<Rightarrow> w_node w [t] \<noteq> None
            | Unsubscribe t \<Rightarrow> w_node w [t] \<noteq> None \<and> (user, t) \<in> w_member w
            | Move place \<Rightarrow> place = [] \<or> length place \<le> 3 \<and> w_node w place \<noteq> None \<and> may_enter w user place
            | Create u p now \<Rightarrow>
                (case w_place w fd of
                   None \<Rightarrow> False
                 | Some place \<Rightarrow> node_bytes place \<le> length p \<and> may_enter w user place
                      \<and> w_node w (place @ [u]) = None)
            | _ \<Rightarrow> True)))"

text \<open>A login under a new name stores at most 32 bytes of it.\<close>

definition perform :: "int \<Rightarrow> act \<Rightarrow> world \<Rightarrow> world" where
  "perform fd a w =
     (case a of
        Login u n \<Rightarrow>
          w\<lparr>w_name := (if w_name w u = None then (w_name w)(u \<mapsto> take 32 n) else w_name w),
            w_session := (w_session w)(fd \<mapsto> u), w_place := (w_place w)(fd \<mapsto> [])\<rparr>
      | Logout \<Rightarrow> w\<lparr>w_session := (w_session w)(fd := None), w_place := (w_place w)(fd := None)\<rparr>
      | Send r body now \<Rightarrow> w\<lparr>w_mail := w_mail w @ [(the (w_session w fd), r, body, now)]\<rparr>
      | Subscribe t \<Rightarrow> w\<lparr>w_member := insert (the (w_session w fd), t) (w_member w)\<rparr>
      | Unsubscribe t \<Rightarrow> w\<lparr>w_member := w_member w - {(the (w_session w fd), t)}\<rparr>
      | Move place \<Rightarrow> w\<lparr>w_place := (w_place w)(fd \<mapsto> place)\<rparr>
      | Create u p now \<Rightarrow>
          (let user = the (w_session w fd); place = the (w_place w fd)
           in w\<lparr>w_node := (w_node w)(place @ [u] \<mapsto> new_node place user p now),
                w_member := (if place = [] then insert (user, u) (w_member w) else w_member w)\<rparr>)
      | _ \<Rightarrow> w)"

text \<open>One allowed action by somebody.\<close>

inductive evolves :: "world \<Rightarrow> world \<Rightarrow> bool" where
  evolves_refl: "evolves w w"
| evolves_act: "evolves w w' \<Longrightarrow> allowed w' fd a \<Longrightarrow> evolves w (perform fd a w')"

definition world0 :: world where
  "world0 = \<lparr>w_name = Map.empty, w_session = Map.empty, w_place = Map.empty, w_node = Map.empty,
     w_member = {}, w_mail = []\<rparr>"

section \<open>What the specification guarantees\<close>

text \<open>
  A sane world: whoever has a session is a known user, places are occupied only by sessions
  and lead to something, members are known users of known teams, and everything stored is
  inside something stored.
\<close>

definition sane :: "world \<Rightarrow> bool" where
  "sane w \<longleftrightarrow> ran (w_session w) \<subseteq> dom (w_name w) \<and> dom (w_place w) = dom (w_session w)
     \<and> ran (w_place w) \<subseteq> insert [] (dom (w_node w))
     \<and> (\<forall>(u, t) \<in> w_member w. w_name w u \<noteq> None \<and> w_node w [t] \<noteq> None)
     \<and> (\<forall>q i. w_node w (q @ [i]) \<noteq> None \<longrightarrow> q = [] \<or> w_node w q \<noteq> None)
     \<and> w_node w [] = None
     \<and> (\<forall>(s, r, b, n) \<in> set (w_mail w). w_name w s \<noteq> None \<and> w_name w r \<noteq> None)"

lemma sane_world0: "sane world0"
  by (simp add: sane_def world0_def)

text \<open>What an allowed action needs, action by action.\<close>

lemma allowed_Login:
  "allowed w fd (Login u n) \<longleftrightarrow> w_name w u = Some n \<or> (w_name w u = None \<and> n \<notin> ran (w_name w))"
  by (simp add: allowed_def)

lemma allowed_needs_session:
  assumes "allowed w fd a"
  obtains (login) u n where "a = Login u n" | (session) s where "w_session w fd = Some s"
  using assms by (cases a; cases "w_session w fd") (auto simp: allowed_def)

lemma allowed_with_session:
  assumes "w_session w fd = Some user"
  shows "allowed w fd Logout" and "allowed w fd Ask"
    and "allowed w fd (Ask_user u) \<longleftrightarrow> w_name w u \<noteq> None"
    and "allowed w fd (Ask_members t) \<longleftrightarrow> w_node w [t] \<noteq> None \<and> (user, t) \<in> w_member w"
    and "allowed w fd (Send r body now) \<longleftrightarrow> w_name w r \<noteq> None"
    and "allowed w fd (Subscribe t) \<longleftrightarrow> w_node w [t] \<noteq> None"
    and "allowed w fd (Unsubscribe t) \<longleftrightarrow> w_node w [t] \<noteq> None \<and> (user, t) \<in> w_member w"
    and "allowed w fd (Move place) \<longleftrightarrow>
           place = [] \<or> length place \<le> 3 \<and> w_node w place \<noteq> None \<and> may_enter w user place"
  using assms by (simp_all add: allowed_def)

lemma allowed_Create:
  "allowed w fd (Create u p now) \<longleftrightarrow>
     (\<exists>user place. w_session w fd = Some user \<and> w_place w fd = Some place
        \<and> node_bytes place \<le> length p \<and> may_enter w user place \<and> w_node w (place @ [u]) = None)"
  by (auto simp: allowed_def split: option.splits)

lemma no_session_not_allowed:
  "w_session w fd = None \<Longrightarrow> (\<And>u n. a \<noteq> Login u n) \<Longrightarrow> \<not> allowed w fd a"
  by (cases a) (auto simp: allowed_def)

lemma saneD:
  assumes "sane w"
  shows "w_session w fd = Some s \<Longrightarrow> w_name w s \<noteq> None"
    and "w_place w fd = None \<longleftrightarrow> w_session w fd = None"
    and "w_place w fd = Some q \<Longrightarrow> q = [] \<or> w_node w q \<noteq> None"
    and "(u, t) \<in> w_member w \<Longrightarrow> w_name w u \<noteq> None \<and> w_node w [t] \<noteq> None"
    and "w_node w (q @ [i]) \<noteq> None \<Longrightarrow> q = [] \<or> w_node w q \<noteq> None"
    and "w_node w [] = None"
    and "(s, r, b, n) \<in> set (w_mail w) \<Longrightarrow> w_name w s \<noteq> None \<and> w_name w r \<noteq> None"
  using assms unfolding sane_def by (blast intro: ranI, blast, blast intro: ranI, blast, blast, blast, blast)

lemma saneI:
  assumes "\<And>fd s. w_session w fd = Some s \<Longrightarrow> w_name w s \<noteq> None"
    and "\<And>fd. w_place w fd = None \<longleftrightarrow> w_session w fd = None"
    and "\<And>fd q. w_place w fd = Some q \<Longrightarrow> q = [] \<or> w_node w q \<noteq> None"
    and "\<And>u t. (u, t) \<in> w_member w \<Longrightarrow> w_name w u \<noteq> None \<and> w_node w [t] \<noteq> None"
    and "\<And>q i. w_node w (q @ [i]) \<noteq> None \<Longrightarrow> q = [] \<or> w_node w q \<noteq> None"
    and "w_node w [] = None"
    and "\<And>s r b n. (s, r, b, n) \<in> set (w_mail w) \<Longrightarrow> w_name w s \<noteq> None \<and> w_name w r \<noteq> None"
  shows "sane w"
proof -
  have "ran (w_session w) \<subseteq> dom (w_name w)" using assms(1) by (auto simp: ran_def)
  moreover have "dom (w_place w) = dom (w_session w)" by (rule set_eqI) (metis assms(2) domIff)
  moreover have "ran (w_place w) \<subseteq> insert [] (dom (w_node w))" using assms(3) by (auto simp: ran_def)
  ultimately show ?thesis using assms(4-) unfolding sane_def by blast
qed

lemmas sane_dests = saneD(1,3,4,5,7)

lemma sane_perform:
  assumes "sane w" and "allowed w fd a"
  shows "sane (perform fd a w)"
proof (cases a)
  case (Login u n)
  show ?thesis
    by (rule saneI) (use sane_dests[OF assms(1)] saneD(2,6)[OF assms(1)] in
        \<open>auto simp: Login perform_def split: if_splits\<close>)
next
  case (Create u p now)
  then obtain user place where c: "w_session w fd = Some user" "w_place w fd = Some place"
    using assms(2) by (auto simp: allowed_Create)
  show ?thesis
    by (rule saneI) (use sane_dests[OF assms(1)] saneD(2,6)[OF assms(1)] c in
        \<open>auto simp: Create perform_def Let_def split: if_splits\<close>)
next
  case Logout
  show ?thesis
    by (rule saneI) (use sane_dests[OF assms(1)] saneD(2,6)[OF assms(1)] in
        \<open>auto simp: Logout perform_def split: if_splits\<close>)
next
  case (Move q)
  then obtain user where "w_session w fd = Some user" "q = [] \<or> w_node w q \<noteq> None"
    using assms(2) by (auto simp: allowed_def split: option.splits)
  then show ?thesis
    by (intro saneI) (use sane_dests[OF assms(1)] saneD(2,6)[OF assms(1)] in
        \<open>auto simp: Move perform_def split: if_splits\<close>)
qed (use assms saneD(1)[OF assms(1), of fd] in \<open>auto simp: perform_def allowed_def sane_def split: option.splits\<close>)

lemma evolves_sane: "evolves w w' \<Longrightarrow> sane w \<Longrightarrow> sane w'"
  by (induction rule: evolves.induct) (auto intro: sane_perform)

end
