(* ===== verification/Service_Refinement.thy ===== *)
theory Service_Refinement
  imports Service_Spec Server_Loop
begin

text \<open>
  The handlers implement the specification of Service_Spec: \<open>world_of\<close> reads the world off
  the server's data; a command succeeds exactly when the action it asks for is allowed, and
  then changes the world by exactly that action; otherwise it answers with an error and
  changes nothing.
\<close>

section \<open>The world the data stands for\<close>

text \<open>A level of the tree: what is at the node itself, and below it the elements of a vector by
  their UUIDs.\<close>

definition tree :: "node option \<Rightarrow> ('a \<Rightarrow> bytes) \<Rightarrow> ('a \<Rightarrow> bytes list \<Rightarrow> node option) \<Rightarrow> 'a list
    \<Rightarrow> bytes list \<Rightarrow> node option" where
  "tree here key below xs path =
     (case path of
        [] \<Rightarrow> here
      | k # q \<Rightarrow>
          if length k = 36
          then (case find_idx (\<lambda>x. take 36 (key x) = k) xs of
                  None \<Rightarrow> None | Some i \<Rightarrow> below (xs ! i) q)
          else None)"

definition reply_nodes :: "reply_t \<Rightarrow> bytes list \<Rightarrow> node option" where
  "reply_nodes r = [[] \<mapsto> Reply_node (cstr (reply_creator_uuid r)) (reply_body r) (reply_timestamp r)]"

definition thread_nodes :: "thread_t \<Rightarrow> bytes list \<Rightarrow> node option" where
  "thread_nodes h = tree (Some (Thread_node (cstr (thread_creator_uuid h)) (thread_title h) (thread_body h)
     (thread_timestamp h))) reply_uuid reply_nodes (thread_replies h)"

definition channel_nodes :: "channel_t \<Rightarrow> bytes list \<Rightarrow> node option" where
  "channel_nodes c = tree (Some (Channel_node (channel_name c) (channel_description c)))
     thread_uuid thread_nodes (channel_threads c)"

definition team_nodes :: "team_t \<Rightarrow> bytes list \<Rightarrow> node option" where
  "team_nodes t = tree (Some (Team_node (team_name t) (team_description t)))
     channel_uuid channel_nodes (team_channels t)"

definition place_of :: "client_context_t \<Rightarrow> bytes list" where
  "place_of c = take (unat (ctx_level c))
     [take 36 (ctx_team_uuid c), take 36 (ctx_channel_uuid c), take 36 (ctx_thread_uuid c)]"

definition world_of :: "server_data_t \<Rightarrow> world" where
  "world_of d = \<lparr>
     w_name = (\<lambda>u. map_option (\<lambda>i. cstr (user_name (users d ! i))) (find_user_by_uuid d u)),
     w_session = omap_find (sessions d),
     w_place = (\<lambda>fd. map_option place_of (omap_find (client_contexts d) fd)),
     w_node = tree None team_uuid team_nodes (teams d),
     w_member = {(s, t). \<exists>i. find_team_by_uuid d t = Some i \<and> s \<in> set (team_member_uuids (teams d ! i))},
     w_mail = map (\<lambda>m. (cstr (msg_sender_uuid m), cstr (msg_receiver_uuid m), cstr (msg_body m),
                msg_timestamp m)) (messages d)\<rparr>"

lemma world_of_sel [simp]:
  "w_name (world_of d) = (\<lambda>u. map_option (\<lambda>i. cstr (user_name (users d ! i))) (find_user_by_uuid d u))"
  "w_session (world_of d) = omap_find (sessions d)"
  "w_place (world_of d) = (\<lambda>fd. map_option place_of (omap_find (client_contexts d) fd))"
  "w_node (world_of d) = tree None team_uuid team_nodes (teams d)"
  "w_member (world_of d)
     = {(s, t). \<exists>i. find_team_by_uuid d t = Some i \<and> s \<in> set (team_member_uuids (teams d ! i))}"
  "w_mail (world_of d) = map (\<lambda>m. (cstr (msg_sender_uuid m), cstr (msg_receiver_uuid m), cstr (msg_body m),
                msg_timestamp m)) (messages d)"
  by (simp_all add: world_of_def)

section \<open>Trees under change\<close>

lemma tree_Nil [simp]: "tree here key below xs [] = here"
  by (simp add: tree_def)

text \<open>A new leaf at the end of the vector.\<close>

lemma tree_append:
  assumes "length u = 36" and "take 36 (key y) = u" and "\<forall>x \<in> set xs. take 36 (key x) \<noteq> u"
    and "below y = [[] \<mapsto> n]"
  shows "tree here key below (xs @ [y]) = (tree here key below xs)([u] \<mapsto> n)"
proof (rule ext)
  fix path
  have u: "find_idx (\<lambda>x. take 36 (key x) = u) xs = None" using assms(3) by (simp add: find_idx_None_iff)
  show "tree here key below (xs @ [y]) path = ((tree here key below xs)([u] \<mapsto> n)) path"
  proof (cases path)
    case (Cons k q)
    show ?thesis
    proof (cases "k = u")
      case True
      then show ?thesis using Cons u assms by (simp add: tree_def find_idx_append)
    next
      case False
      then have "find_idx (\<lambda>x. take 36 (key x) = k) (xs @ [y]) = find_idx (\<lambda>x. take 36 (key x) = k) xs"
        using assms(2) by (simp add: find_idx_append split: option.splits)
      then show ?thesis using Cons False
        by (auto simp: tree_def nth_append split: option.splits dest: find_idx_SomeD)
    qed
  qed simp
qed

text \<open>A change below the element found under \<open>k\<close>.\<close>

lemma tree_update:
  assumes "find_idx (\<lambda>x. take 36 (key x) = k) xs = Some i" and "length k = 36"
    and "key y = key (xs ! i)"
  shows "tree here key below (xs[i := y])
    = (\<lambda>path. case path of [] \<Rightarrow> here | k' # q \<Rightarrow> if k' = k then below y q else tree here key below xs path)"
proof (rule ext)
  fix path
  have i: "i < length xs" "take 36 (key (xs ! i)) = k" using find_idx_SomeD[OF assms(1)] by simp_all
  have same: "find_idx (\<lambda>x. take 36 (key x) = k') (xs[i := y]) = find_idx (\<lambda>x. take 36 (key x) = k') xs" for k'
    by (rule find_idx_list_update) (simp add: assms(3))
  show "tree here key below (xs[i := y]) path
    = (case path of [] \<Rightarrow> here | k' # q \<Rightarrow> if k' = k then below y q else tree here key below xs path)"
  proof (cases path)
    case (Cons k' q)
    show ?thesis
    proof (cases "k' = k")
      case True
      then show ?thesis using Cons assms i same by (simp add: tree_def)
    next
      case False
      then have "find_idx (\<lambda>x. take 36 (key x) = k') xs \<noteq> Some i" using i by (auto dest: find_idx_SomeD)
      then show ?thesis using Cons False same by (auto simp: tree_def split: option.splits)
    qed
  qed simp
qed

lemma tree_update_at:
  assumes "find_idx (\<lambda>x. take 36 (key x) = k) xs = Some i" and "length k = 36"
    and "key y = key (xs ! i)" and "below y = (below (xs ! i))(q \<mapsto> n)"
  shows "tree here key below (xs[i := y]) = (tree here key below xs)(k # q \<mapsto> n)"
  unfolding tree_update[OF assms(1-3)]
  by (rule ext) (simp add: tree_def assms split: list.splits)

lemma tree_update_same:
  assumes "find_idx (\<lambda>x. take 36 (key x) = k) xs = Some i" and "length k = 36"
    and "key y = key (xs ! i)" and "below y = below (xs ! i)"
  shows "tree here key below (xs[i := y]) = tree here key below xs"
  unfolding tree_update[OF assms(1-3)]
  by (rule ext) (simp add: tree_def assms split: list.splits)

section \<open>Implementing an action\<close>

definition refused :: "outcome \<Rightarrow> bool" where
  "refused r \<longleftrightarrow> (\<exists>e. pk_code (res_response (out_result r)) = error_code e)"

definition implements :: "server_data_t \<Rightarrow> int \<Rightarrow> act \<Rightarrow> outcome \<Rightarrow> bool" where
  "implements d fd a r \<longleftrightarrow>
     (if allowed (world_of d) fd a
      then \<not> refused r \<and> world_of (out_data r) = perform fd a (world_of d)
      else refused r \<and> out_data r = d)"

lemma refused_simps [simp]:
  "refused (fail e p d)" "\<not> refused (ok c p, l, d)" "\<not> refused (add_push q (ok c p), l, d)"
  by (auto simp: refused_def)

lemma implements_fail [simp]: "implements d fd a (fail e p d) \<longleftrightarrow> \<not> allowed (world_of d) fd a"
  by (auto simp: implements_def)

lemma implements_ok:
  "implements d fd a (ok c p, l, d') \<longleftrightarrow> allowed (world_of d) fd a \<and> world_of d' = perform fd a (world_of d)"
  "implements d fd a (add_push q (ok c p), l, d') \<longleftrightarrow>
     allowed (world_of d) fd a \<and> world_of d' = perform fd a (world_of d)"
  by (auto simp: implements_def)

lemma perform_Ask [simp]:
  "perform fd Ask w = w" "perform fd (Ask_user u) w = w" "perform fd (Ask_members t) w = w"
  by (simp_all add: perform_def)

text \<open>Without a session only a login is possible.\<close>

lemma unauthorized_implements:
  "omap_find (sessions d) fd = None \<Longrightarrow> (\<And>u n. a \<noteq> Login u n) \<Longrightarrow>
     implements d fd a (fail ERR_UNAUTHORIZED [] d)"
  by (simp add: no_session_not_allowed)

lemma find_team_length: "find_team_by_uuid d t = Some i \<Longrightarrow> length t = 36"
  by (rule find_team_by_uuidD)

lemma team_exists: "tree None team_uuid team_nodes (teams d) [t] \<noteq> None \<longleftrightarrow> find_team_by_uuid d t \<noteq> None"
  by (auto simp: tree_def find_team_by_uuid_def is_uuid36_def team_nodes_def split: option.splits)

lemma team_found: "find_team_by_uuid d t = Some i \<Longrightarrow> tree None team_uuid team_nodes (teams d) [t] \<noteq> None"
  using team_exists[of d t] by simp

section \<open>Queries\<close>

lemma handle_users_implements: "implements d fd Ask (handle_users fd d)"
  by (cases "omap_find (sessions d) fd")
    (simp_all add: handle_users_def is_logged_in_def implements_ok allowed_with_session unauthorized_implements
      no_session_not_allowed)

lemma handle_user_implements: "length u = 36 \<Longrightarrow> implements d fd (Ask_user u) (handle_user fd u d)"
  by (cases "omap_find (sessions d) fd")
    (auto simp: handle_user_def is_logged_in_def is_uuid36_def implements_ok allowed_with_session
      no_session_not_allowed split: option.splits)

lemma handle_messages_implements: "length u = 36 \<Longrightarrow> implements d fd (Ask_user u) (handle_messages fd u d)"
  by (cases "omap_find (sessions d) fd")
    (auto simp: handle_messages_def is_uuid36_def implements_ok allowed_with_session no_session_not_allowed Let_def)

lemma handle_subscribed_teams_implements: "implements d fd Ask (handle_subscribed_teams fd d)"
  by (cases "omap_find (sessions d) fd")
    (auto simp: handle_subscribed_teams_def implements_ok allowed_with_session no_session_not_allowed Let_def)

lemma handle_subscribed_users_implements:
  "length t = 36 \<Longrightarrow> implements d fd (Ask_members t) (handle_subscribed_users fd t d)"
  by (cases "omap_find (sessions d) fd")
    (auto simp: handle_subscribed_users_def is_uuid36_def implements_ok allowed_with_session no_session_not_allowed
      Let_def is_subscribed_to_def team_found split: option.splits)

text \<open>A session of a well-formed state stands in a place that exists, so its listings succeed.\<close>

lemma handle_list_implements:
  assumes "wf_data d"
  shows "implements d fd Ask (handle_list fd d)" and "implements d fd Ask (handle_info fd d)"
proof -
  have "implements d fd Ask (handle_list fd d) \<and> implements d fd Ask (handle_info fd d)"
  proof (cases "omap_find (sessions d) fd")
    case None
    then show ?thesis by (simp add: handle_list_def handle_info_def unauthorized_implements no_session_not_allowed)
  next
    case (Some s)
    then obtain c where c: "omap_find (client_contexts d) fd = Some c" "ctx_valid d c"
      using wf_context_of_session[OF assms] by metis
    have a: "allowed (world_of d) fd Ask" using Some by (simp add: allowed_with_session)
    from c(2) show ?thesis
      by (rule ctx_valid_cases)
        (use a handle_list_levels[OF Some c(1)] handle_info_levels[OF Some c(1)] in \<open>simp_all add: implements_ok\<close>)
  qed
  then show "implements d fd Ask (handle_list fd d)" "implements d fd Ask (handle_info fd d)" by auto
qed

section \<open>Messages and memberships\<close>

lemma cstr_cut: "cstr (take n (cstr b) @ zeros m) = take n (cstr b)"
  by (rule cstr_append_zeros) (meson cstr_no_zero in_set_takeD)

lemma handle_send_implements:
  assumes "wf_data d" and "length r = 36"
  shows "implements d fd (Send r (take 512 (cstr body)) now) (handle_send now fd r body d)"
proof (cases "omap_find (sessions d) fd")
  case None
  then show ?thesis by (simp add: handle_send_def no_session_not_allowed)
next
  case (Some s)
  show ?thesis
  proof (cases "find_user_by_uuid d r")
    case None
    then show ?thesis using Some assms by (simp add: handle_send_def is_uuid36_def allowed_with_session)
  next
    case (Some i)
    let ?d' = "d\<lparr>messages := messages d @ [make_private_message s r body now]\<rparr>"
    have a: "allowed (world_of d) fd (Send r (take 512 (cstr body)) now)"
      using \<open>omap_find (sessions d) fd = Some s\<close> Some by (simp add: allowed_with_session)
    have u: "valid_uuid36 s" "valid_uuid36 r"
      using wf_session_uuid(1)[OF assms(1) \<open>omap_find (sessions d) fd = Some s\<close>]
        find_user_by_uuid_total[OF assms(1), of r] Some user_ids_valid[OF assms(1)] by auto
    have m: "cstr (msg_sender_uuid (make_private_message s r body now)) = s"
      "cstr (msg_receiver_uuid (make_private_message s r body now)) = r"
      "cstr (msg_body (make_private_message s r body now)) = take 512 (cstr body)"
      using u by (simp_all add: valid_uuid_length cstr_append_nul valid_uuid36_def make_private_message_body
          cstr_cut)
    have w: "world_of ?d' = perform fd (Send r (take 512 (cstr body)) now) (world_of d)"
      using \<open>omap_find (sessions d) fd = Some s\<close> m
      by (simp add: perform_def world_of_def find_user_by_uuid_cong[of ?d' d] find_team_by_uuid_cong[of ?d' d])
    show ?thesis
      using \<open>omap_find (sessions d) fd = Some s\<close> Some assms(2) a w
      by (simp add: handle_send_def is_uuid36_def Let_def implements_ok)
  qed
qed

lemma world_set_members:
  assumes "find_team_by_uuid d t = Some i"
  shows "world_of (set_members i ms d) = (world_of d)\<lparr>w_member :=
    {(s, t'). if t' = t then s \<in> set ms else (s, t') \<in> w_member (world_of d)}\<rparr>"
proof -
  let ?d' = "set_members i ms d"
  note i = find_team_by_uuidD[OF assms]
  have f: "find_team_by_uuid ?d' = find_team_by_uuid d" by (rule find_team_by_uuid_map) simp
  have n: "tree None team_uuid team_nodes (teams ?d') = tree None team_uuid team_nodes (teams d)"
    using assms i(3) unfolding set_members_def
    by (simp add: find_team_by_uuid_def is_uuid36_def, intro tree_update_same[where k = t and i = i])
      (simp_all add: team_nodes_def)
  have "(\<exists>j. find_team_by_uuid d t' = Some j \<and> s \<in> set (team_member_uuids (teams ?d' ! j)))
    \<longleftrightarrow> (if t' = t then s \<in> set ms else \<exists>j. find_team_by_uuid d t' = Some j \<and> s \<in> set (team_member_uuids (teams d ! j)))"
    for s t'
  proof (cases "t' = t")
    case False
    then have "find_team_by_uuid d t' \<noteq> Some i" using i(2) find_team_by_uuidD(2)[of d t' i] by auto
    then show ?thesis using False i(1) by (auto simp: set_members_nth)
  qed (use assms i(1) in \<open>simp add: set_members_nth\<close>)
  then show ?thesis
    by (simp add: world_of_def f n find_user_by_uuid_cong[of ?d' d])
qed

lemma handle_subscribe_implements:
  assumes "length t = 36"
  shows "implements d fd (Subscribe t) (handle_subscribe fd t d)"
proof (cases "omap_find (sessions d) fd")
  case None
  then show ?thesis by (simp add: handle_subscribe_def no_session_not_allowed)
next
  case (Some s)
  show ?thesis
  proof (cases "find_team_by_uuid d t")
    case None
    then show ?thesis
      using Some assms team_exists[of d t] by (simp add: handle_subscribe_def is_uuid36_def allowed_with_session)
  next
    case (Some i)
    note t = Some
    let ?ms = "team_member_uuids (teams d ! i)"
    have a: "allowed (world_of d) fd (Subscribe t)"
      using \<open>omap_find (sessions d) fd = Some s\<close> team_found[OF t] by (simp add: allowed_with_session)
    have p: "perform fd (Subscribe t) (world_of d) = (world_of d)\<lparr>w_member := insert (s, t) (w_member (world_of d))\<rparr>"
      using \<open>omap_find (sessions d) fd = Some s\<close> by (simp add: perform_def)
    show ?thesis
    proof (cases "s \<in> set ?ms")
      case True
      then have "(s, t) \<in> w_member (world_of d)" using t by simp
      then have "perform fd (Subscribe t) (world_of d) = world_of d"
        unfolding p by (simp only: insert_absorb) simp
      then show ?thesis
        using \<open>omap_find (sessions d) fd = Some s\<close> t assms True a
        by (simp add: handle_subscribe_def is_uuid36_def is_subscribed_to_def implements_ok Let_def)
    next
      case False
      have "insert (s, t) (w_member (world_of d))
          = {(u, t'). if t' = t then u \<in> set (?ms @ [s]) else (u, t') \<in> w_member (world_of d)}"
        using t by (auto split: if_splits)
      then have "world_of (set_members i (?ms @ [s]) d) = perform fd (Subscribe t) (world_of d)"
        unfolding p world_set_members[OF t] by (simp only:)
      then show ?thesis
        using \<open>omap_find (sessions d) fd = Some s\<close> t assms False a
        by (simp add: handle_subscribe_def is_uuid36_def is_subscribed_to_def implements_ok Let_def)
    qed
  qed
qed

lemma handle_unsubscribe_implements:
  assumes "wf_data d" and "length t = 36"
  shows "implements d fd (Unsubscribe t) (handle_unsubscribe fd t d)"
proof (cases "omap_find (sessions d) fd")
  case None
  then show ?thesis by (simp add: handle_unsubscribe_def no_session_not_allowed)
next
  case (Some s)
  show ?thesis
  proof (cases "find_team_by_uuid d t")
    case None
    then show ?thesis
      using Some assms by (simp add: handle_unsubscribe_def is_uuid36_def allowed_with_session)
  next
    case (Some i)
    note t = Some
    let ?ms = "team_member_uuids (teams d ! i)"
    have "w_member (world_of d) - {(s, t)}
       = {(u, t'). if t' = t then u \<in> set (remove1 s ?ms) else (u, t') \<in> w_member (world_of d)}"
      using t members_wf(2)[OF assms(1) t] by (auto simp: split: if_splits)
    then have "world_of (set_members i (remove1 s ?ms) d) = perform fd (Unsubscribe t) (world_of d)"
      using \<open>omap_find (sessions d) fd = Some s\<close> t
      by (simp add: perform_def world_set_members)
    then show ?thesis
      using \<open>omap_find (sessions d) fd = Some s\<close> t assms(2) team_found[OF t]
      by (auto simp: handle_unsubscribe_def is_uuid36_def implements_ok Let_def allowed_with_session)
  qed
qed

section \<open>Moving\<close>

lemma tree_Cons:
  assumes "find_idx (\<lambda>x. take 36 (key x) = k) xs = Some i" and "length k = 36"
  shows "tree here key below xs (k # q) = below (xs ! i) q"
  using assms by (simp add: tree_def)

lemma tree_Cons_None:
  "find_idx (\<lambda>x. take 36 (key x) = k) xs = None \<Longrightarrow> tree here key below xs (k # q) = None"
  by (simp add: tree_def)

text \<open>What is stored along a path, in terms of the program's lookups.\<close>

lemma lookup_nodes:
  "find_team_by_uuid d t = Some i \<Longrightarrow>
     tree None team_uuid team_nodes (teams d) (t # q) = team_nodes (teams d ! i) q"
  "find_team_by_uuid d t = None \<Longrightarrow> tree None team_uuid team_nodes (teams d) (t # q) = None"
  "find_channel_by_uuid tm c = Some j \<Longrightarrow> team_nodes tm (c # q) = channel_nodes (team_channels tm ! j) q"
  "find_channel_by_uuid tm c = None \<Longrightarrow> team_nodes tm (c # q) = None"
  "find_thread_by_uuid ch h = Some k \<Longrightarrow> channel_nodes ch (h # q) = thread_nodes (channel_threads ch ! k) q"
  "find_thread_by_uuid ch h = None \<Longrightarrow> channel_nodes ch (h # q) = None"
  by (auto simp: team_nodes_def channel_nodes_def tree_def find_team_by_uuid_def find_channel_by_uuid_def
      find_thread_by_uuid_def is_uuid36_def split: if_splits)

lemma nodes_here [simp]:
  "team_nodes tm [] = Some (Team_node (team_name tm) (team_description tm))"
  "channel_nodes ch [] = Some (Channel_node (channel_name ch) (channel_description ch))"
  "thread_nodes h [] = Some (Thread_node (cstr (thread_creator_uuid h)) (thread_title h) (thread_body h)
     (thread_timestamp h))"
  by (simp_all add: team_nodes_def channel_nodes_def thread_nodes_def)

lemma world_set_context:
  "world_of (set_context fd c d) = (world_of d)\<lparr>w_place := (w_place (world_of d))(fd \<mapsto> place_of c)\<rparr>"
  by (simp add: world_of_def find_user_by_uuid_cong[of "set_context fd c d" d]
      find_team_by_uuid_cong[of "set_context fd c d" d] std_map.find_upd fun_eq_iff omap_find_set)

lemma place_of_levels:
  "place_of (context0\<lparr>ctx_level := use_code USE_NONE\<rparr>) = []"
  "length t = 36 \<Longrightarrow> place_of (context0\<lparr>ctx_level := use_code USE_TEAM, ctx_team_uuid := ctx_field t\<rparr>) = [t]"
  "length t = 36 \<Longrightarrow> length c = 36 \<Longrightarrow> place_of (context0\<lparr>ctx_level := use_code USE_CHANNEL,
     ctx_team_uuid := ctx_field t, ctx_channel_uuid := ctx_field c\<rparr>) = [t, c]"
  "length t = 36 \<Longrightarrow> length c = 36 \<Longrightarrow> length h = 36 \<Longrightarrow> place_of (context0\<lparr>ctx_level := use_code USE_THREAD,
     ctx_team_uuid := ctx_field t, ctx_channel_uuid := ctx_field c, ctx_thread_uuid := ctx_field h\<rparr>) = [t, c, h]"
  by (simp_all add: place_of_def context0_def take_Cons_numeral)

text \<open>The place a payload of \<open>/use\<close> names.\<close>

definition use_path :: "bytes \<Rightarrow> bytes list" where
  "use_path p = map (use_uuid p) [0..<unat (p ! 0)]"

lemma use_path_levels:
  "p ! 0 = use_code USE_NONE \<Longrightarrow> use_path p = []"
  "p ! 0 = use_code USE_TEAM \<Longrightarrow> use_path p = [use_uuid p 0]"
  "p ! 0 = use_code USE_CHANNEL \<Longrightarrow> use_path p = [use_uuid p 0, use_uuid p 1]"
  "p ! 0 = use_code USE_THREAD \<Longrightarrow> use_path p = [use_uuid p 0, use_uuid p 1, use_uuid p 2]"
  by (simp_all add: use_path_def upt_rec) (simp add: numeral_2_eq_2)

lemma may_enter_team:
  "find_team_by_uuid d t = Some i \<Longrightarrow>
     may_enter (world_of d) s (t # q) \<longleftrightarrow> s \<in> set (team_member_uuids (teams d ! i))"
  by (simp add: may_enter_def)

lemma allowed_Move:
  "omap_find (sessions d) fd = Some s \<Longrightarrow> allowed (world_of d) fd (Move q) \<longleftrightarrow>
     q = [] \<or> length q \<le> 3 \<and> tree None team_uuid team_nodes (teams d) q \<noteq> None \<and> may_enter (world_of d) s q"
  using allowed_with_session(8)[of "world_of d" fd s q] by simp

lemmas use_implements_simps =
  implements_ok allowed_Move use_path_levels place_of_levels world_set_context may_enter_team lookup_nodes
  is_subscribed_to_def Let_def

lemma use_none_implements:
  assumes "omap_find (sessions d) fd = Some s" and "p ! 0 = use_code USE_NONE"
  shows "implements d fd (Move (use_path p)) (use_none fd s d)"
  using assms(1) unfolding use_none_def use_path_levels(1)[OF assms(2)]
  by (simp add: use_implements_simps perform_def del: world_of_sel use_code.simps)

lemma use_team_implements:
  assumes "omap_find (sessions d) fd = Some s" and "p ! 0 = use_code USE_TEAM" and "1 + 36 \<le> length p"
  shows "implements d fd (Move (use_path p)) (use_team fd s p d)"
  using assms(1,3) length_use_uuid[of 0 p] unfolding use_team_def use_path_levels(2)[OF assms(2)]
  by (cases "find_team_by_uuid d (use_uuid p 0)")
    (simp_all add: use_implements_simps perform_def del: world_of_sel use_code.simps)

lemma use_channel_implements:
  assumes "omap_find (sessions d) fd = Some s" and "p ! 0 = use_code USE_CHANNEL" and "1 + 36 + 36 \<le> length p"
  shows "implements d fd (Move (use_path p)) (use_channel fd s p d)"
proof (cases "find_team_by_uuid d (use_uuid p 0)")
  case (Some i)
  then show ?thesis
    using assms(1,3) length_use_uuid[of 0 p] length_use_uuid[of 1 p]
    unfolding use_channel_def use_path_levels(3)[OF assms(2)]
    by (cases "find_channel_by_uuid (teams d ! i) (use_uuid p 1)")
      (simp_all add: use_implements_simps perform_def del: world_of_sel use_code.simps)
qed (use assms in \<open>simp add: use_channel_def use_implements_simps perform_def del: world_of_sel use_code.simps\<close>)

lemma use_thread_implements:
  assumes "omap_find (sessions d) fd = Some s" and "p ! 0 = use_code USE_THREAD" and "1 + 36 + 36 + 36 \<le> length p"
  shows "implements d fd (Move (use_path p)) (use_thread fd s p d)"
proof (cases "find_team_by_uuid d (use_uuid p 0)")
  case (Some i)
  note len = length_use_uuid[of 0 p] length_use_uuid[of 1 p] length_use_uuid[of 2 p]
  show ?thesis
  proof (cases "find_channel_by_uuid (teams d ! i) (use_uuid p 1)")
    case (Some j)
    then show ?thesis
      using \<open>find_team_by_uuid d (use_uuid p 0) = Some i\<close> assms(1,3) len
      unfolding use_thread_def use_path_levels(4)[OF assms(2)]
      by (cases "find_thread_by_uuid (team_channels (teams d ! i) ! j) (use_uuid p 2)")
        (simp_all add: use_implements_simps perform_def del: world_of_sel use_code.simps)
  qed (use \<open>find_team_by_uuid d (use_uuid p 0) = Some i\<close> assms in
      \<open>simp add: use_thread_def use_implements_simps perform_def del: world_of_sel use_code.simps\<close>)
qed (use assms in \<open>simp add: use_thread_def use_implements_simps perform_def del: world_of_sel use_code.simps\<close>)

text \<open>A payload of \<open>/use\<close> is well formed if its level is one of the four and its UUIDs are there.\<close>

definition use_ok :: "bytes \<Rightarrow> bool" where
  "use_ok p \<longleftrightarrow> p \<noteq> [] \<and> p ! 0 \<le> 3 \<and> 1 + 36 * unat (p ! 0) \<le> length p"

lemma byte_le_3:
  fixes b :: byte
  shows "b \<le> 3 \<longleftrightarrow> b = 0 \<or> b = 1 \<or> b = 2 \<or> b = 3"
proof
  assume "b \<le> 3"
  then have "unat b \<le> 3" by (simp add: word_le_nat_alt)
  then have "unat b \<in> {0, 1, 2, 3}" by auto
  then have "(of_nat (unat b) :: byte) \<in> of_nat ` {0, 1, 2, 3}" by (rule imageI)
  then show "b = 0 \<or> b = 1 \<or> b = 2 \<or> b = 3"
by simp
qed auto

lemma handle_use_implements:
  assumes "use_ok p"
  shows "implements d fd (Move (use_path p)) (handle_use fd p d)"
proof (cases "omap_find (sessions d) fd")
  case None
  then show ?thesis by (simp add: handle_use_def no_session_not_allowed)
next
  case (Some s)
  obtain l rest where p: "p = l # rest" using assms by (cases p) (auto simp: use_ok_def)
  have l: "l = use_code USE_NONE \<or> l = use_code USE_TEAM \<and> 1 + 36 \<le> length p
    \<or> l = use_code USE_CHANNEL \<and> 1 + 36 + 36 \<le> length p \<or> l = use_code USE_THREAD \<and> 1 + 36 + 36 + 36 \<le> length p"
    using assms byte_le_3[of l] by (auto simp: use_ok_def p)
  have "handle_use fd p d = (if l = use_code USE_NONE then use_none fd s d
     else if l = use_code USE_TEAM then use_team fd s p d
     else if l = use_code USE_CHANNEL then use_channel fd s p d else use_thread fd s p d)"
    using Some l by (simp add: handle_use_def p) auto
  then show ?thesis
    using l use_none_implements[OF Some, of p] use_team_implements[OF Some, of p]
      use_channel_implements[OF Some, of p] use_thread_implements[OF Some, of p]
    by (auto simp: p simp del: use_code.simps)
qed

lemma handle_use_malformed:
  assumes "\<not> use_ok p"
  shows "refused (handle_use fd p d)" and "out_data (handle_use fd p d) = d"
proof -
  have "\<exists>e. handle_use fd p d = fail e [] d"
  proof (cases p)
    case (Cons l rest)
    then show ?thesis
      using assms byte_le_3[of l]
      by (auto simp: handle_use_def use_ok_def use_team_def use_channel_def use_thread_def split: option.splits)
  qed (auto simp: handle_use_def split: option.splits)
  then show "refused (handle_use fd p d)" and "out_data (handle_use fd p d) = d" by auto
qed

section \<open>Logging in and out\<close>

text \<open>The user a login opens a session for.\<close>

definition login_id :: "bytes \<Rightarrow> bytes \<Rightarrow> server_data_t \<Rightarrow> bytes" where
  "login_id fresh name d =
     (case find_user_by_name d name of Some i \<Rightarrow> cstr (user_uuid (users d ! i)) | None \<Rightarrow> cstr fresh)"

lemma find_user_nth:
  assumes "wf_users d" and "i < length (users d)"
  shows "find_user_by_uuid d (cstr (user_uuid (users d ! i))) = Some i"
proof -
  have u: "valid_uuid37 (user_uuid u)" if "u \<in> set (users d)" for u
    using assms(1) that by (auto simp: wf_users_def wf_user_def)
  have "find_idx (\<lambda>v. user_uuid v = user_uuid (users d ! i)) (users d) = Some i"
    using assms by (auto simp: wf_users_def intro: find_idx_distinct)
  moreover have "find_idx (\<lambda>v. take 36 (user_uuid v) = cstr (user_uuid (users d ! i))) (users d)
      = find_idx (\<lambda>v. user_uuid v = user_uuid (users d ! i)) (users d)"
    by (rule find_idx_cong) (use assms(2) u in \<open>auto simp: valid_uuid37_cstr[symmetric] valid_uuid37_inj\<close>)
  ultimately show ?thesis
    using valid_uuid36_cstr[OF u, of "users d ! i"] assms(2)
    by (simp add: find_user_by_uuid_def is_uuid36_def valid_uuid36_def)
qed

lemma fresh_user:
  assumes "wf_users d" and "valid_uuid37 fresh" and "fresh \<notin> user_uuid ` set (users d)"
  shows "find_user_by_uuid d (cstr fresh) = None"
proof -
  have "take 36 (user_uuid u) \<noteq> cstr fresh" if "u \<in> set (users d)" for u
    using assms that by (auto simp: wf_users_def wf_user_def valid_uuid37_cstr[symmetric] valid_uuid37_inj)
  then show ?thesis by (simp add: find_user_by_uuid_def find_idx_None_iff)
qed

text \<open>The second half of a login only touches bookkeeping, the session and the context.\<close>

lemma world_login_session:
  assumes "i < length (users d)"
  shows "world_of (login_session fd i d) = (world_of d)\<lparr>
    w_session := (w_session (world_of d))(fd \<mapsto> cstr (user_uuid (users d ! i))),
    w_place := (w_place (world_of d))(fd \<mapsto> [])\<rparr>"
proof -
  let ?e = "login_session fd i d"
  have u: "find_user_by_uuid ?e = find_user_by_uuid d"
    by (rule find_user_by_uuid_map) (simp add: map_list_update_same)
  have "cstr (user_name (users ?e ! j)) = cstr (user_name (users d ! j))" for j
    using assms by (cases "j = i") auto
  moreover have "place_of context0 = []" by (simp add: place_of_def context0_def)
  ultimately show ?thesis
    by (simp add: world_of_def u find_team_by_uuid_cong[of ?e d] fun_eq_iff omap_find_set)
qed

lemma world_add_user:
  assumes "find_user_by_uuid d (cstr (user_uuid u)) = None" and "valid_uuid37 (user_uuid u)"
  shows "world_of (d\<lparr>users := users d @ [u]\<rparr>)
    = (world_of d)\<lparr>w_name := (w_name (world_of d))(cstr (user_uuid u) \<mapsto> cstr (user_name u))\<rparr>"
proof -
  let ?e = "d\<lparr>users := users d @ [u]\<rparr>"
  have l: "length (cstr (user_uuid u)) = 36" using valid_uuid36_cstr[OF assms(2)] by (simp add: valid_uuid36_def)
  have n: "find_idx (\<lambda>v. take 36 (user_uuid v) = cstr (user_uuid u)) (users d) = None"
    using assms(1) l by (simp add: find_user_by_uuid_def is_uuid36_def)
  have "map_option (\<lambda>j. cstr (user_name ((users d @ [u]) ! j))) (find_user_by_uuid ?e k)
      = (if k = cstr (user_uuid u) then Some (cstr (user_name u))
         else map_option (\<lambda>j. cstr (user_name (users d ! j))) (find_user_by_uuid d k))" for k
  proof (cases "k = cstr (user_uuid u)")
    case True
    then show ?thesis
      using n l valid_uuid37_cstr[OF assms(2)]
      by (simp add: find_user_by_uuid_def is_uuid36_def find_idx_append)
  next
    case False
    then have "find_user_by_uuid ?e k = find_user_by_uuid d k"
      using valid_uuid37_cstr[OF assms(2)]
      by (simp add: find_user_by_uuid_def find_idx_append split: option.splits)
    then show ?thesis using False
      by (cases "find_user_by_uuid d k") (auto simp: nth_append dest: find_user_by_uuidD(1))
  qed
  then show ?thesis
    by (simp add: world_of_def find_team_by_uuid_cong[of ?e d] fun_eq_iff)
qed

lemma handle_login_eq:
  assumes "login_user fresh fd (cstr name0) d = (d1, i, logs)"
  shows "out_data (handle_login fresh fd name0 d) = login_session fd i d1"
    and "\<not> refused (handle_login fresh fd name0 d)"
  using assms by (simp_all add: handle_login_def Let_def trim_padded_name_cstr)

lemma handle_login_implements:
  assumes "wf_data d" and "fresh_uuid fresh d"
  shows "implements d fd (Login (login_id fresh (cstr name) d) (cstr name)) (handle_login fresh fd name d)"
proof -
  have wf: "wf_users d" using assms(1) by (simp add: wf_data_def)
  have name32: "cstr (take 32 (user_name (users d ! i))) = cstr (user_name (users d ! i))" if "i < length (users d)" for i
    using wf_user_nth[OF assms(1) that] by (simp add: wf_user_def)
  let ?e = "out_data (handle_login fresh fd name d)" and ?n = "cstr name"
  let ?a = "Login (login_id fresh ?n d) ?n"
  have "allowed (world_of d) fd ?a \<and> world_of ?e = perform fd ?a (world_of d)"
  proof (cases "find_user_by_name d ?n")
    case (Some i)
    note i = find_user_by_nameD[OF Some]
    have u: "find_user_by_uuid d (cstr (user_uuid (users d ! i))) = Some i" by (rule find_user_nth[OF wf i(1)])
    have "login_user fresh fd ?n d = (d, i, [])" using Some by (simp add: login_user_def)
    then have "world_of ?e = world_of (login_session fd i d)" by (simp add: handle_login_eq(1))
    moreover have "allowed (world_of d) fd ?a" using Some u i name32[OF i(1)]
      by (simp add: login_id_def allowed_Login)
    ultimately show ?thesis using Some u
      by (simp add: world_login_session[OF i(1)] login_id_def perform_def)
  next
    case None
    note f = fresh_user[OF wf fresh_uuidD(1,2)[OF assms(2)]]
    let ?u = "\<lparr>user_uuid = fresh, user_name = set_fixed_name ?n, user_is_logged = True, user_fd = fd\<rparr>"
    let ?d1 = "d\<lparr>users := users d @ [?u]\<rparr>"
    have "login_user fresh fd ?n d = (?d1, length (users d), [server_event_user_created fresh (set_fixed_name ?n)])"
      using None by (simp add: login_user_def Let_def)
    then have e: "world_of ?e = world_of (login_session fd (length (users d)) ?d1)"
      by (simp add: handle_login_eq(1))
    have "?n \<noteq> cstr (user_name (users d ! i))" if "i < length (users d)" for i
      using None that name32[OF that] by (auto simp: find_user_by_name_def find_idx_None_iff trim_padded_name_cstr)
    then have "allowed (world_of d) fd ?a"
      using None f by (auto simp: login_id_def allowed_Login ran_def) (metis find_user_by_uuidD(1))
    moreover have "world_of ?d1 = (world_of d)\<lparr>w_name := (w_name (world_of d))(cstr fresh \<mapsto> take 32 ?n)\<rparr>"
      using world_add_user[of d ?u] f fresh_uuidD(1)[OF assms(2)] by (simp add: cstr_set_fixed_name)
    ultimately show ?thesis using None f e
      by (simp add: world_login_session login_id_def perform_def del: world_of_sel(2-))
  qed
  moreover obtain d1 i logs where "login_user fresh fd (cstr name) d = (d1, i, logs)" by (metis prod_cases3)
  then have "\<not> refused (handle_login fresh fd name d)" by (rule handle_login_eq(2))
  ultimately show ?thesis by (simp add: implements_def del: world_of_sel)
qed

lemma handle_logout_implements:
  assumes "wf_data d"
  shows "implements d fd Logout (handle_logout fd d)"
proof (cases "omap_find (sessions d) fd")
  case None
  then show ?thesis by (simp add: handle_logout_def no_session_not_allowed)
next
  case (Some s)
  let ?e = "logout_session fd s d"
  have r: "\<not> refused (handle_logout fd d)" "out_data (handle_logout fd d) = ?e"
    using Some by (simp_all add: handle_logout_def Let_def)
  have u: "find_user_by_uuid ?e = find_user_by_uuid d"
    by (rule find_user_by_uuid_map[OF logout_session_uuids])
  have n: "user_name (users ?e ! j) = user_name (users d ! j)" for j
    by (cases "find_idx (\<lambda>u. take 36 (user_uuid u) = s) (users d)")
      (auto simp: logout_session_def nth_list_update dest: find_idx_SomeD)
  have "world_of ?e = perform fd Logout (world_of d)"
    using wf_omaps[OF assms]
    by (auto simp: world_of_def perform_def u n find_team_by_uuid_cong[of ?e d] fun_eq_iff omap_find_erase)
  then show ?thesis
    using r Some by (simp add: implements_def allowed_with_session del: world_of_sel) (simp add: allowed_def)
qed

section \<open>Creating\<close>

lemma fresh_keys:
  assumes "valid_uuid37 fresh" and "\<And>x. x \<in> set xs \<Longrightarrow> valid_uuid37 (key x)" and "fresh \<notin> key ` set xs"
  shows "\<forall>x \<in> set xs. take 36 (key x) \<noteq> cstr fresh"
  using assms by (auto simp: valid_uuid37_cstr[symmetric] valid_uuid37_inj)

lemma tree_fresh:
  "\<forall>x \<in> set xs. take 36 (key x) \<noteq> u \<Longrightarrow> tree here key below xs (u # q) = None"
  by (rule tree_Cons_None) (simp add: find_idx_None_iff)

text \<open>A leaf added under the path a context resolves to.\<close>

lemma resolve_keys:
  "resolve_team d c = Some i \<Longrightarrow>
     find_idx (\<lambda>t. take 36 (team_uuid t) = take 36 (ctx_team_uuid c)) (teams d) = Some i
     \<and> length (take 36 (ctx_team_uuid c)) = 36"
  "resolve_channel d c = Some (i, j) \<Longrightarrow>
     find_idx (\<lambda>t. take 36 (channel_uuid t) = take 36 (ctx_channel_uuid c)) (team_channels (teams d ! i)) = Some j
     \<and> length (take 36 (ctx_channel_uuid c)) = 36"
  "resolve_thread d c = Some (i, j, k) \<Longrightarrow>
     find_idx (\<lambda>t. take 36 (thread_uuid t) = take 36 (ctx_thread_uuid c))
       (channel_threads (team_channels (teams d ! i) ! j)) = Some k
     \<and> length (take 36 (ctx_thread_uuid c)) = 36"
  by (auto simp: resolve_team_def resolve_channel_def resolve_thread_def find_team_by_uuid_def
      find_channel_by_uuid_def find_thread_by_uuid_def is_uuid36_def split: option.splits if_splits)

lemma world_upd_team:
  assumes "resolve_team d c = Some i" and "team_uuid (f (teams d ! i)) = team_uuid (teams d ! i)"
    and "team_member_uuids (f (teams d ! i)) = team_member_uuids (teams d ! i)"
    and "team_nodes (f (teams d ! i)) = (team_nodes (teams d ! i))(q \<mapsto> n)"
  shows "world_of (upd_team i f d)
    = (world_of d)\<lparr>w_node := (w_node (world_of d))(take 36 (ctx_team_uuid c) # q \<mapsto> n)\<rparr>"
proof -
  let ?e = "upd_team i f d"
  have i: "i < length (teams d)" by (rule resolve_teamD[OF assms(1)])
  have f: "find_team_by_uuid ?e = find_team_by_uuid d"
    by (rule find_team_by_uuid_map) (use assms(2) in \<open>simp add: upd_team_def map_list_update_same\<close>)
  have m: "team_member_uuids (teams ?e ! j) = team_member_uuids (teams d ! j)" for j
    using i assms(3) by (cases "j = i") auto
  have "tree None team_uuid team_nodes (teams ?e)
      = (tree None team_uuid team_nodes (teams d))(take 36 (ctx_team_uuid c) # q \<mapsto> n)"
    unfolding upd_team_def using resolve_keys(1)[OF assms(1)] assms(2,4)
    by (simp add: tree_update_at)
  then show ?thesis
    by (simp add: world_of_def f m find_user_by_uuid_cong[of ?e d])
qed

lemma nodes_upd_channel:
  assumes "resolve_channel d c = Some (i, j)"
    and "channel_uuid (f (team_channels (teams d ! i) ! j)) = channel_uuid (team_channels (teams d ! i) ! j)"
    and "channel_nodes (f (team_channels (teams d ! i) ! j)) = (channel_nodes (team_channels (teams d ! i) ! j))(q \<mapsto> n)"
  shows "team_nodes (upd_channel j f (teams d ! i))
    = (team_nodes (teams d ! i))(take 36 (ctx_channel_uuid c) # q \<mapsto> n)"
  using resolve_keys(2)[OF assms(1)] assms(2,3)
  by (simp add: team_nodes_def upd_channel_def tree_update_at)

lemma nodes_upd_thread:
  assumes "resolve_thread d c = Some (i, j, k)"
    and "thread_uuid (f (channel_threads (team_channels (teams d ! i) ! j) ! k))
      = thread_uuid (channel_threads (team_channels (teams d ! i) ! j) ! k)"
    and "thread_nodes (f (channel_threads (team_channels (teams d ! i) ! j) ! k))
      = (thread_nodes (channel_threads (team_channels (teams d ! i) ! j) ! k))(q \<mapsto> n)"
  shows "channel_nodes (upd_thread k f (team_channels (teams d ! i) ! j))
    = (channel_nodes (team_channels (teams d ! i) ! j))(take 36 (ctx_thread_uuid c) # q \<mapsto> n)"
  using resolve_keys(3)[OF assms(1)] assms(2,3)
  by (simp add: channel_nodes_def upd_thread_def tree_update_at)

text \<open>What a new node looks like from above.\<close>

lemma new_leaves:
  "team_nodes (new_team fresh s p) = [[] \<mapsto> new_node [] s p now]"
  "length q = 1 \<Longrightarrow> channel_nodes (new_channel fresh p) = [[] \<mapsto> new_node q s p now]"
  "length q = 2 \<Longrightarrow> valid_uuid36 s \<Longrightarrow> thread_nodes (new_thread fresh now s p) = [[] \<mapsto> new_node q s p now]"
  "length q = 3 \<Longrightarrow> valid_uuid36 s \<Longrightarrow> reply_nodes (new_reply fresh now s p) = [[] \<mapsto> new_node q s p now]"
  by (auto simp: team_nodes_def channel_nodes_def thread_nodes_def reply_nodes_def new_defs new_node_def tree_def
      ctx_field_valid(3) fun_eq_iff split: list.splits)

lemma fresh_36: "valid_uuid37 u \<Longrightarrow> length (cstr u) = 36 \<and> take 36 u = cstr u"
  using valid_uuid36_cstr[of u] by (simp add: valid_uuid36_def valid_uuid37_cstr)

lemma add_leaf:
  assumes "valid_uuid37 (key y)" and "\<And>x. x \<in> set xs \<Longrightarrow> valid_uuid37 (key x)" and "key y \<notin> key ` set xs"
    and "below y = [[] \<mapsto> n]"
  shows "tree here key below (xs @ [y]) = (tree here key below xs)([cstr (key y)] \<mapsto> n)"
    and "tree here key below xs [cstr (key y)] = None"
  using tree_append[of "cstr (key y)" key y xs below n here] fresh_36[OF assms(1)]
    fresh_keys[of "key y" xs key] tree_fresh[of xs key "cstr (key y)"] assms by auto

lemma world_add_team:
  assumes "wf_data d" and "fresh_uuid fresh d"
  shows "world_of (d\<lparr>teams := teams d @ [new_team fresh s p]\<rparr>) = (world_of d)\<lparr>
    w_node := (w_node (world_of d))([cstr fresh] \<mapsto> new_node [] s p now),
    w_member := insert (s, cstr fresh) (w_member (world_of d))\<rparr>"
    and "w_node (world_of d) [cstr fresh] = None"
proof -
  let ?t = "new_team fresh s p" and ?e = "d\<lparr>teams := teams d @ [new_team fresh s p]\<rparr>"
  have k: "team_uuid ?t = fresh" and ms: "team_member_uuids ?t = [s]" by (simp_all add: new_defs)
  have v: "valid_uuid37 fresh" by (rule fresh_uuidD(1)[OF assms(2)])
  have vs: "valid_uuid37 (team_uuid x)" if "x \<in> set (teams d)" for x
    using assms(1) that by (auto simp: wf_data_defs wf_team_def)
  note leaf = add_leaf[where key = team_uuid and below = team_nodes and xs = "teams d" and y = ?t, unfolded k,
      OF v vs fresh_uuidD(3)[OF assms(2)] new_leaves(1)]
  show "w_node (world_of d) [cstr fresh] = None" using leaf(2) by simp
  have n: "find_team_by_uuid d (cstr fresh) = None"
    using fresh_keys[OF v vs fresh_uuidD(3)[OF assms(2)]]
    by (simp add: find_team_by_uuid_def find_idx_None_iff)
  have "(\<exists>i. find_team_by_uuid ?e t = Some i \<and> u \<in> set (team_member_uuids ((teams d @ [?t]) ! i)))
    \<longleftrightarrow> (u, t) = (s, cstr fresh) \<or> (\<exists>i. find_team_by_uuid d t = Some i \<and> u \<in> set (team_member_uuids (teams d ! i)))"
    for u t
  proof (cases "t = cstr fresh")
    case True
    then show ?thesis using n fresh_36[OF v]
      by (auto simp: find_team_by_uuid_def is_uuid36_def find_idx_append k ms)
  next
    case False
    then have "find_team_by_uuid ?e t = find_team_by_uuid d t"
      using fresh_36[OF v] by (simp add: find_team_by_uuid_def find_idx_append k split: option.splits)
    then show ?thesis using False
      by (cases "find_team_by_uuid d t") (auto simp: nth_append dest: find_team_by_uuidD(1))
  qed
  then show "world_of ?e = (world_of d)\<lparr>
    w_node := (w_node (world_of d))([cstr fresh] \<mapsto> new_node [] s p now),
    w_member := insert (s, cstr fresh) (w_member (world_of d))\<rparr>"
    by (simp add: world_of_def leaf(1) find_user_by_uuid_cong[of ?e d] set_eq_iff)
qed

lemma nodes_add_channel:
  assumes "wf_team ids t" and "valid_uuid37 fresh" and "fresh \<notin> channel_uuid ` set (team_channels t)"
    and "length q = 1"
  shows "team_nodes (t\<lparr>team_channels := team_channels t @ [new_channel fresh p]\<rparr>)
      = (team_nodes t)([cstr fresh] \<mapsto> new_node q s p now)"
    and "team_nodes t [cstr fresh] = None"
proof -
  have k: "channel_uuid (new_channel fresh p) = fresh" by (simp add: new_defs)
  have vs: "valid_uuid37 (channel_uuid x)" if "x \<in> set (team_channels t)" for x
    using assms(1) that by (auto simp: wf_team_def wf_channel_def)
  note leaf = add_leaf[where key = channel_uuid and below = channel_nodes and xs = "team_channels t" and y = "new_channel fresh p", unfolded k,
      OF assms(2) vs assms(3) new_leaves(2)[OF assms(4)]]
  show "team_nodes (t\<lparr>team_channels := team_channels t @ [new_channel fresh p]\<rparr>)
      = (team_nodes t)([cstr fresh] \<mapsto> new_node q s p now)" "team_nodes t [cstr fresh] = None"
    by (simp_all add: team_nodes_def leaf)
qed

lemma nodes_add_thread:
  assumes "wf_channel ids c" and "valid_uuid37 fresh" and "fresh \<notin> thread_uuid ` set (channel_threads c)"
    and "length q = 2" and "valid_uuid36 s"
  shows "channel_nodes (c\<lparr>channel_threads := channel_threads c @ [new_thread fresh now s p]\<rparr>)
      = (channel_nodes c)([cstr fresh] \<mapsto> new_node q s p now)"
    and "channel_nodes c [cstr fresh] = None"
proof -
  have k: "thread_uuid (new_thread fresh now s p) = fresh" by (simp add: new_defs)
  have vs: "valid_uuid37 (thread_uuid x)" if "x \<in> set (channel_threads c)" for x
    using assms(1) that by (auto simp: wf_channel_def wf_thread_def)
  note leaf = add_leaf[where key = thread_uuid and below = thread_nodes and xs = "channel_threads c" and y = "new_thread fresh now s p", unfolded k,
      OF assms(2) vs assms(3) new_leaves(3)[OF assms(4,5)]]
  show "channel_nodes (c\<lparr>channel_threads := channel_threads c @ [new_thread fresh now s p]\<rparr>)
      = (channel_nodes c)([cstr fresh] \<mapsto> new_node q s p now)" "channel_nodes c [cstr fresh] = None"
    by (simp_all add: channel_nodes_def leaf)
qed

lemma nodes_add_reply:
  assumes "wf_thread ids h" and "valid_uuid37 fresh" and "fresh \<notin> reply_uuid ` set (thread_replies h)"
    and "length q = 3" and "valid_uuid36 s"
  shows "thread_nodes (h\<lparr>thread_replies := thread_replies h @ [new_reply fresh now s p]\<rparr>)
      = (thread_nodes h)([cstr fresh] \<mapsto> new_node q s p now)"
    and "thread_nodes h [cstr fresh] = None"
proof -
  have k: "reply_uuid (new_reply fresh now s p) = fresh" by (simp add: new_defs)
  have vs: "valid_uuid37 (reply_uuid x)" if "x \<in> set (thread_replies h)" for x
    using assms(1) that by (auto simp: wf_thread_def wf_reply_def)
  note leaf = add_leaf[where key = reply_uuid and below = reply_nodes and xs = "thread_replies h" and y = "new_reply fresh now s p", unfolded k,
      OF assms(2) vs assms(3) new_leaves(4)[OF assms(4,5)]]
  show "thread_nodes (h\<lparr>thread_replies := thread_replies h @ [new_reply fresh now s p]\<rparr>)
      = (thread_nodes h)([cstr fresh] \<mapsto> new_node q s p now)" "thread_nodes h [cstr fresh] = None"
    by (simp_all add: thread_nodes_def leaf)
qed

text \<open>When a creation is refused.\<close>

lemma create_refused:
  "refused (create_team fresh s p d) \<longleftrightarrow> length p < 32 + 255"
  "resolve_team d c = Some i \<Longrightarrow> refused (create_channel fresh s c p d) \<longleftrightarrow>
     length p < 32 + 255 \<or> s \<notin> set (team_member_uuids (teams d ! i))"
  "resolve_channel d c = Some (i, j) \<Longrightarrow> refused (create_thread fresh now s c p d) \<longleftrightarrow>
     length p < 32 + 512 \<or> s \<notin> set (team_member_uuids (teams d ! i))"
  "resolve_thread d c = Some (i, j, k) \<Longrightarrow> refused (create_reply fresh now s c p d) \<longleftrightarrow>
     length p < 512 \<or> s \<notin> set (team_member_uuids (teams d ! i))"
  by (auto simp: create_team_def create_channel_def create_thread_def create_reply_def resolve_team_def
      resolve_channel_def resolve_thread_def is_subscribed_to_def Let_def split: option.splits)

lemma place_of_context:
  "ctx_level c = use_code USE_NONE \<Longrightarrow> place_of c = []"
  "ctx_level c = use_code USE_TEAM \<Longrightarrow> place_of c = [take 36 (ctx_team_uuid c)]"
  "ctx_level c = use_code USE_CHANNEL \<Longrightarrow> place_of c = [take 36 (ctx_team_uuid c), take 36 (ctx_channel_uuid c)]"
  "ctx_level c = use_code USE_THREAD \<Longrightarrow>
     place_of c = [take 36 (ctx_team_uuid c), take 36 (ctx_channel_uuid c), take 36 (ctx_thread_uuid c)]"
  by (simp_all add: place_of_def take_Cons_numeral)

lemma allowed_Create_at:
  assumes "omap_find (sessions d) fd = Some s" and "omap_find (client_contexts d) fd = Some c"
  shows "allowed (world_of d) fd (Create u p now) \<longleftrightarrow> node_bytes (place_of c) \<le> length p
     \<and> may_enter (world_of d) s (place_of c) \<and> w_node (world_of d) (place_of c @ [u]) = None"
  using assms by (simp add: allowed_Create del: world_of_sel(4))

lemma perform_Create_at:
  assumes "omap_find (sessions d) fd = Some s" and "omap_find (client_contexts d) fd = Some c"
  shows "perform fd (Create u p now) (world_of d) = (world_of d)\<lparr>
     w_node := (w_node (world_of d))(place_of c @ [u] \<mapsto> new_node (place_of c) s p now),
     w_member := (if place_of c = [] then insert (s, u) (w_member (world_of d)) else w_member (world_of d))\<rparr>"
  using assms by (simp add: perform_def Let_def del: world_of_sel(4,5))

text \<open>The four levels share one shape: refused exactly when not allowed, and otherwise the node is added.\<close>

definition adds_node :: "server_data_t \<Rightarrow> client_context_t \<Rightarrow> bytes \<Rightarrow> bytes \<Rightarrow> bytes \<Rightarrow> u64 \<Rightarrow> outcome \<Rightarrow> bool" where
  "adds_node d c s u p now r \<longleftrightarrow> \<not> refused r \<and> w_node (world_of d) (place_of c @ [u]) = None
     \<and> world_of (out_data r) = (world_of d)\<lparr>
       w_node := (w_node (world_of d))(place_of c @ [u] \<mapsto> new_node (place_of c) s p now),
       w_member := (if place_of c = [] then insert (s, u) (w_member (world_of d)) else w_member (world_of d))\<rparr>"

lemma create_shape:
  assumes "omap_find (sessions d) fd = Some s" and "omap_find (client_contexts d) fd = Some c"
    and "(\<exists>e. r = fail e [] d) \<or> adds_node d c s u p now r"
    and "refused r \<longleftrightarrow> \<not> (node_bytes (place_of c) \<le> length p \<and> may_enter (world_of d) s (place_of c))"
  shows "implements d fd (Create u p now) r"
  using assms(3,4) allowed_Create_at[OF assms(1,2), of u p now] perform_Create_at[OF assms(1,2), of u p now]
  by (auto simp: adds_node_def implements_def simp del: world_of_sel)

lemma create_team_implements:
  assumes "wf_data d" and "fresh_uuid fresh d" and "omap_find (sessions d) fd = Some s"
    and "omap_find (client_contexts d) fd = Some c" and "ctx_level c = use_code USE_NONE"
  shows "implements d fd (Create (cstr fresh) p now) (create_team fresh s p d)"
proof (rule create_shape[OF assms(3,4)])
  note q = place_of_context(1)[OF assms(5)]
  show "refused (create_team fresh s p d)
    \<longleftrightarrow> \<not> (node_bytes (place_of c) \<le> length p \<and> may_enter (world_of d) s (place_of c))"
    by (auto simp: create_refused q node_bytes_def may_enter_def)
  show "(\<exists>e. create_team fresh s p d = fail e [] d) \<or> adds_node d c s (cstr fresh) p now (create_team fresh s p d)"
  proof (cases rule: create_team_cases[of fresh s p d])
    case created
    then show ?thesis
      using world_add_team(1)[OF assms(1,2), where s = s and p = p and now = now] world_add_team(2)[OF assms(1,2)] by (simp add: adds_node_def q del: world_of_sel)
  qed auto
qed

lemma fresh_below:
  assumes "fresh_uuid fresh d" and "wf_data d" and "i < length (teams d)"
  shows "wf_team (user_ids d) (teams d ! i)" and "fresh \<notin> channel_uuid ` set (team_channels (teams d ! i))"
    and "j < length (team_channels (teams d ! i)) \<Longrightarrow> wf_channel (user_ids d) (team_channels (teams d ! i) ! j)
      \<and> fresh \<notin> thread_uuid ` set (channel_threads (team_channels (teams d ! i) ! j))"
    and "j < length (team_channels (teams d ! i)) \<Longrightarrow> k < length (channel_threads (team_channels (teams d ! i) ! j)) \<Longrightarrow>
      wf_thread (user_ids d) (channel_threads (team_channels (teams d ! i) ! j) ! k)
      \<and> fresh \<notin> reply_uuid ` set (thread_replies (channel_threads (team_channels (teams d ! i) ! j) ! k))"
proof -
  let ?t = "teams d ! i"
  note fr = fresh_in_path[OF assms(1) nth_mem[OF assms(3)]] and wf = wf_team_nth[OF assms(2,3)]
  show "wf_team (user_ids d) ?t" "fresh \<notin> channel_uuid ` set (team_channels ?t)" by (rule wf fr(1))+
  assume j: "j < length (team_channels ?t)"
  then show c: "wf_channel (user_ids d) (team_channels ?t ! j)
      \<and> fresh \<notin> thread_uuid ` set (channel_threads (team_channels ?t ! j))"
    using wf_channel_nth[OF wf] fr(2) by simp
  assume "k < length (channel_threads (team_channels ?t ! j))"
  then show "wf_thread (user_ids d) (channel_threads (team_channels ?t ! j) ! k)
      \<and> fresh \<notin> reply_uuid ` set (thread_replies (channel_threads (team_channels ?t ! j) ! k))"
    using wf_thread_nth[OF conjunct1[OF c]] fr(3) j by (meson nth_mem)
qed

lemma resolved_nodes:
  "resolve_team d c = Some i \<Longrightarrow>
     w_node (world_of d) (take 36 (ctx_team_uuid c) # q) = team_nodes (teams d ! i) q"
  "resolve_channel d c = Some (i, j) \<Longrightarrow> w_node (world_of d) (take 36 (ctx_team_uuid c) # take 36 (ctx_channel_uuid c) # q)
     = channel_nodes (team_channels (teams d ! i) ! j) q"
  "resolve_thread d c = Some (i, j, k) \<Longrightarrow>
     w_node (world_of d) (take 36 (ctx_team_uuid c) # take 36 (ctx_channel_uuid c) # take 36 (ctx_thread_uuid c) # q)
     = thread_nodes (channel_threads (team_channels (teams d ! i) ! j) ! k) q"
  by (auto simp: resolve_team_def resolve_channel_def resolve_thread_def lookup_nodes split: option.splits)

lemma resolved_enter:
  "resolve_team d c = Some i \<Longrightarrow>
     may_enter (world_of d) s (take 36 (ctx_team_uuid c) # q) \<longleftrightarrow> s \<in> set (team_member_uuids (teams d ! i))"
  by (simp add: resolve_team_def may_enter_team del: world_of_sel)

lemma create_channel_implements:
  assumes "wf_data d" and "fresh_uuid fresh d" and "omap_find (sessions d) fd = Some s"
    and "omap_find (client_contexts d) fd = Some c" and "ctx_level c = use_code USE_TEAM"
    and "resolve_team d c = Some i"
  shows "implements d fd (Create (cstr fresh) p now) (create_channel fresh s c p d)"
proof (rule create_shape[OF assms(3,4)])
  note q = place_of_context(2)[OF assms(5)]
  have i: "i < length (teams d)" by (rule resolve_teamD[OF assms(6)])
  show "refused (create_channel fresh s c p d)
    \<longleftrightarrow> \<not> (node_bytes (place_of c) \<le> length p \<and> may_enter (world_of d) s (place_of c))"
    by (auto simp: create_refused(2)[OF assms(6)] q node_bytes_def resolved_enter[OF assms(6)] simp del: world_of_sel)
  note add = nodes_add_channel(1)[OF fresh_below(1)[OF assms(2,1) i] fresh_uuidD(1)[OF assms(2)]
      fresh_below(2)[OF assms(2,1) i],
      where q = "place_of c" and p = p and s = s and now = now]
    nodes_add_channel(2)[OF fresh_below(1)[OF assms(2,1) i] fresh_uuidD(1)[OF assms(2)]
      fresh_below(2)[OF assms(2,1) i],
      where q = "place_of c"]
  have "world_of (upd_team i (\<lambda>t. t\<lparr>team_channels := team_channels t @ [new_channel fresh p]\<rparr>) d)
    = (world_of d)\<lparr>w_node := (w_node (world_of d))(place_of c @ [cstr fresh] \<mapsto> new_node (place_of c) s p now)\<rparr>"
    using world_upd_team[OF assms(6)] add by (simp add: q del: world_of_sel)
  moreover have "w_node (world_of d) (place_of c @ [cstr fresh]) = None"
    using add by (simp add: q resolved_nodes(1)[OF assms(6)] del: world_of_sel)
  ultimately show "(\<exists>e. create_channel fresh s c p d = fail e [] d)
    \<or> adds_node d c s (cstr fresh) p now (create_channel fresh s c p d)"
    using assms(6) by (cases rule: create_channel_cases[of fresh s c p d])
      (auto simp: adds_node_def q simp del: world_of_sel)
qed

lemma create_thread_implements:
  assumes "wf_data d" and "fresh_uuid fresh d" and "omap_find (sessions d) fd = Some s"
    and "omap_find (client_contexts d) fd = Some c" and "ctx_level c = use_code USE_CHANNEL"
    and "resolve_channel d c = Some (i, j)"
  shows "implements d fd (Create (cstr fresh) p now) (create_thread fresh now s c p d)"
proof (rule create_shape[OF assms(3,4)])
  note q = place_of_context(3)[OF assms(5)]
  have i: "resolve_team d c = Some i" "i < length (teams d)" "j < length (team_channels (teams d ! i))"
    using resolve_channelD[OF assms(6)] by auto
  show "refused (create_thread fresh now s c p d)
    \<longleftrightarrow> \<not> (node_bytes (place_of c) \<le> length p \<and> may_enter (world_of d) s (place_of c))"
    by (auto simp: create_refused(3)[OF assms(6)] q node_bytes_def resolved_enter[OF i(1)] simp del: world_of_sel)
  note below = conjunct1[OF fresh_below(3)[OF assms(2,1) i(2,3)]] conjunct2[OF fresh_below(3)[OF assms(2,1) i(2,3)]]
  note add = nodes_add_thread(1)[OF below(1) fresh_uuidD(1)[OF assms(2)] below(2),
      where q = "place_of c" and p = p and s = s and now = now]
    nodes_add_thread(2)[OF below(1) fresh_uuidD(1)[OF assms(2)] below(2),
      where q = "place_of c" and s = s]
  have "world_of (upd_team i (upd_channel j (\<lambda>c. c\<lparr>channel_threads := channel_threads c @ [new_thread fresh now s p]\<rparr>)) d)
    = (world_of d)\<lparr>w_node := (w_node (world_of d))(place_of c @ [cstr fresh] \<mapsto> new_node (place_of c) s p now)\<rparr>"
    using world_upd_team[OF i(1)] nodes_upd_channel[OF assms(6)] add wf_session_uuid(1)[OF assms(1,3)]
    by (simp add: q del: world_of_sel)
  moreover have "w_node (world_of d) (place_of c @ [cstr fresh]) = None"
    using add wf_session_uuid(1)[OF assms(1,3)] by (simp add: q resolved_nodes(2)[OF assms(6)] del: world_of_sel)
  ultimately show "(\<exists>e. create_thread fresh now s c p d = fail e [] d)
    \<or> adds_node d c s (cstr fresh) p now (create_thread fresh now s c p d)"
    using assms(6) by (cases rule: create_thread_cases[of fresh now s c p d])
      (auto simp: adds_node_def q simp del: world_of_sel)
qed

lemma create_reply_implements:
  assumes "wf_data d" and "fresh_uuid fresh d" and "omap_find (sessions d) fd = Some s"
    and "omap_find (client_contexts d) fd = Some c" and "ctx_level c = use_code USE_THREAD"
    and "resolve_thread d c = Some (i, j, k)"
  shows "implements d fd (Create (cstr fresh) p now) (create_reply fresh now s c p d)"
proof (rule create_shape[OF assms(3,4)])
  note q = place_of_context(4)[OF assms(5)]
  have i: "resolve_channel d c = Some (i, j)" "resolve_team d c = Some i" "i < length (teams d)"
    "j < length (team_channels (teams d ! i))" "k < length (channel_threads (team_channels (teams d ! i) ! j))"
    using resolve_threadD[OF assms(6)] resolve_channelD by blast+
  show "refused (create_reply fresh now s c p d)
    \<longleftrightarrow> \<not> (node_bytes (place_of c) \<le> length p \<and> may_enter (world_of d) s (place_of c))"
    by (auto simp: create_refused(4)[OF assms(6)] q node_bytes_def resolved_enter[OF i(2)] simp del: world_of_sel)
  note b = fresh_below(4)[OF assms(2,1) i(3-5)]
  note add = nodes_add_reply(1)[OF conjunct1[OF b] fresh_uuidD(1)[OF assms(2)] conjunct2[OF b],
      where q = "place_of c" and p = p and s = s and now = now]
    nodes_add_reply(2)[OF conjunct1[OF b] fresh_uuidD(1)[OF assms(2)] conjunct2[OF b],
      where q = "place_of c" and s = s]
  have "world_of (upd_team i (upd_channel j (upd_thread k
      (\<lambda>t. t\<lparr>thread_replies := thread_replies t @ [new_reply fresh now s p]\<rparr>))) d)
    = (world_of d)\<lparr>w_node := (w_node (world_of d))(place_of c @ [cstr fresh] \<mapsto> new_node (place_of c) s p now)\<rparr>"
    using world_upd_team[OF i(2)] nodes_upd_channel[OF i(1)] nodes_upd_thread[OF assms(6)] add
      wf_session_uuid(1)[OF assms(1,3)]
    by (simp add: q del: world_of_sel)
  moreover have "w_node (world_of d) (place_of c @ [cstr fresh]) = None"
    using add wf_session_uuid(1)[OF assms(1,3)] by (simp add: q resolved_nodes(3)[OF assms(6)] del: world_of_sel)
  ultimately show "(\<exists>e. create_reply fresh now s c p d = fail e [] d)
    \<or> adds_node d c s (cstr fresh) p now (create_reply fresh now s c p d)"
    using assms(6) by (cases rule: create_reply_cases[of fresh now s c p d])
      (auto simp: adds_node_def q simp del: world_of_sel)
qed

lemma handle_create_implements:
  assumes "wf_data d" and "fresh_uuid fresh d"
  shows "implements d fd (Create (cstr fresh) p now) (handle_create fresh now fd p d)"
proof (cases "omap_find (sessions d) fd")
  case None
  then show ?thesis by (simp add: handle_create_def no_session_not_allowed)
next
  case (Some s)
  then obtain c where c: "omap_find (client_contexts d) fd = Some c" "ctx_valid d c"
    using wf_context_of_session[OF assms(1)] by metis
  note eq = handle_create_def[of fresh now fd p d, unfolded Some option.case c(1)]
  note impl = create_team_implements[OF assms Some c(1)] create_channel_implements[OF assms Some c(1)]
    create_thread_implements[OF assms Some c(1)] create_reply_implements[OF assms Some c(1)]
  from c(2) show ?thesis
    by (rule ctx_valid_cases) (use impl in \<open>simp_all add: eq del: use_code.simps\<close>)
qed

section \<open>Commands\<close>

text \<open>The action a command and its payload ask for; \<open>None\<close> if the payload is malformed.\<close>

definition requested :: "command \<Rightarrow> bytes \<Rightarrow> u64 \<Rightarrow> bytes \<Rightarrow> server_data_t \<Rightarrow> act option" where
  "requested cmd fresh now p d =
     (let one = (\<lambda>f. if 36 \<le> length p then Some (f (take 36 p)) else None) in
      case cmd of
        CMD_LOGIN \<Rightarrow> Some (Login (login_id fresh (cstr p) d) (cstr p))
      | CMD_LOGOUT \<Rightarrow> Some Logout
      | CMD_USERS \<Rightarrow> Some Ask
      | CMD_USER \<Rightarrow> one Ask_user
      | CMD_SEND \<Rightarrow> one (\<lambda>r. Send r (cstr (extract_sv p 36 512)) now)
      | CMD_MESSAGES \<Rightarrow> one Ask_user
      | CMD_SUBSCRIBE \<Rightarrow> one Subscribe
      | CMD_SUBSCRIBED \<Rightarrow>
          if p \<noteq> [] \<and> p ! 0 = 0x01
          then (if 37 \<le> length p then Some (Ask_members (take 36 (drop 1 p))) else None)
          else Some Ask
      | CMD_UNSUBSCRIBE \<Rightarrow> one Unsubscribe
      | CMD_USE \<Rightarrow> if use_ok p then Some (Move (use_path p)) else None
      | CMD_CREATE \<Rightarrow> Some (Create (cstr fresh) p now)
      | CMD_LIST \<Rightarrow> Some Ask
      | CMD_INFO \<Rightarrow> Some Ask)"

lemma extract_sv_cut: "take 512 (cstr (extract_sv p off 512)) = cstr (extract_sv p off 512)"
proof -
  have "length (extract_sv p off 512) \<le> 512" by (simp add: extract_sv_def)
  then show ?thesis using length_cstr_le[of "extract_sv p off 512"] by simp
qed

text \<open>What a handler that wants a UUID does with an empty view.\<close>

lemma empty_view_refused:
  "\<exists>e. handle_user fd [] d = fail e [] d" "\<exists>e. handle_send now fd [] b d = fail e [] d"
  "\<exists>e. handle_messages fd [] d = fail e [] d" "\<exists>e. handle_subscribe fd [] d = fail e [] d"
  "\<exists>e. handle_unsubscribe fd [] d = fail e [] d" "\<exists>e. handle_subscribed_users fd [] d = fail e [] d"
  by (auto simp: handle_user_def handle_send_def handle_messages_def handle_subscribe_def handle_unsubscribe_def
      handle_subscribed_users_def is_uuid36_def split: option.splits)

lemma run_command_malformed:
  assumes "requested cmd fresh now p d = None"
  shows "refused (run_command cmd fresh now fd p d) \<and> out_data (run_command cmd fresh now fd p d) = d"
proof -
  have "(\<exists>e. run_command cmd fresh now fd p d = fail e [] d) \<or> cmd = CMD_USE \<and> \<not> use_ok p"
    using assms empty_view_refused
    by (cases cmd) (simp_all add: requested_def run_command_def Let_def split: if_splits)
  then show ?thesis
  proof
    assume "cmd = CMD_USE \<and> \<not> use_ok p"
    then show ?thesis by (simp add: run_command_def handle_use_malformed)
  qed auto
qed

lemma run_command_implements:
  assumes "wf_data d" and "fresh_uuid fresh d" and "requested cmd fresh now p d = Some a"
  shows "implements d fd a (run_command cmd fresh now fd p d)"
proof (cases cmd)
  case CMD_LOGIN
  then show ?thesis using assms handle_login_implements[OF assms(1,2), of fd p]
    by (auto simp: requested_def run_command_def Let_def)
next
  case CMD_SEND
  then show ?thesis using assms handle_send_implements[OF assms(1), of "take 36 p" fd "extract_sv p 36 512" now]
    by (auto simp: requested_def run_command_def Let_def extract_sv_cut split: if_splits)
next
  case CMD_SUBSCRIBED
  then show ?thesis using assms handle_subscribed_teams_implements handle_subscribed_users_implements
    by (auto simp: requested_def run_command_def Let_def split: if_splits)
qed (use assms handle_users_implements handle_user_implements handle_messages_implements handle_subscribe_implements
      handle_unsubscribe_implements[OF assms(1)] handle_use_implements handle_create_implements[OF assms(1,2)]
      handle_list_implements[OF assms(1)] handle_logout_implements[OF assms(1)] in
    \<open>auto simp: requested_def run_command_def Let_def split: if_splits\<close>)

section \<open>The server\<close>

lemma implements_evolves:
  assumes "evolves w (world_of d)" and "implements d fd a r"
  shows "evolves w (world_of (out_data r))"
  using assms by (cases "allowed (world_of d) fd a") (auto simp: implements_def intro: evolves_act)

lemma world_of_server_data0: "world_of server_data0 = world0"
  by (simp add: world_of_def world0_def server_data0_def tree_def find_user_by_uuid_def find_team_by_uuid_def
      fun_eq_iff split: list.splits)

text \<open>Whatever the server does, its world evolves by allowed actions only.\<close>

definition world_ok :: "(nat \<Rightarrow> bytes) \<Rightarrow> nat \<Rightarrow> server_data_t \<Rightarrow> bool" where
  "world_ok gen k d \<longleftrightarrow> data_ok gen k d \<and> (good_gen gen k \<longrightarrow> evolves world0 (world_of d))"

lemma world_okD: "world_ok gen k d \<Longrightarrow> good_gen gen k \<Longrightarrow> wf_data d \<and> evolves world0 (world_of d)"
  by (simp add: world_ok_def data_ok_def)

lemma world_ok_new:
  assumes "world_ok gen k d" and "data_ok gen (Suc k) (out_data r)"
    and "wf_data d \<Longrightarrow> fresh_uuid (gen k) d \<Longrightarrow> implements d fd a r"
  shows "world_ok gen (Suc k) (out_data r)"
  unfolding world_ok_def
proof (intro conjI impI)
  assume g: "good_gen gen (Suc k)"
  have "data_ok gen k d" using assms(1) by (simp add: world_ok_def)
  from data_ok_fresh[OF this g] have "implements d fd a r" by (intro assms(3))
  moreover have "good_gen gen k" by (rule good_gen_mono[OF g]) simp
  ultimately show "evolves world0 (world_of (out_data r))"
    using world_okD[OF assms(1)] implements_evolves by blast
qed (rule assms(2))

lemma world_ok_same:
  assumes "world_ok gen k d" and "data_ok gen k (out_data r)"
    and "wf_data d \<Longrightarrow> implements d fd a r \<or> out_data r = d"
  shows "world_ok gen k (out_data r)"
  using assms implements_evolves world_okD[OF assms(1)] unfolding world_ok_def by metis

text \<open>The handlers also leave the data alone when they are given no UUID.\<close>

lemma no_uuid_same:
  assumes "length u \<noteq> 36"
  shows "out_data (handle_send now fd u b d) = d" and "out_data (handle_subscribe fd u d) = d"
    and "out_data (handle_unsubscribe fd u d) = d"
  using assms by (simp_all add: handle_send_def handle_subscribe_def handle_unsubscribe_def is_uuid36_def
      split: option.splits)

interpretation refined: data_invariant gen "world_ok gen" for gen
proof (unfold_locales, goal_cases)
  case (1 k d)
  then show ?case
    using ok.tick[of gen k d] by (auto simp: world_ok_def intro: good_gen_mono)
next
  case (2 k d fd name)
  then show ?case
    using ok.login[of gen k d fd name] handle_login_implements[of d "gen k" fd name]
    by (intro world_ok_new) (auto simp: world_ok_def)
next
  case (3 k d now fd p)
  then show ?case
    using ok.create[of gen k d now fd p] handle_create_implements[of d "gen k" fd p now]
    by (intro world_ok_new) (auto simp: world_ok_def)
next
  case (4 k d fd)
  then show ?case
    using ok.logout[of gen k d fd] handle_logout_implements[of d fd]
    by (intro world_ok_same) (auto simp: world_ok_def)
next
  case (5 k d now fd r body)
  then show ?case
    using ok.send[of gen k d now fd r body] handle_send_implements[of d r fd body now] no_uuid_same(1)[of r now fd body d]
    by (intro world_ok_same) (auto simp: world_ok_def)
next
  case (6 k d fd t)
  then show ?case
    using ok.subscribe[of gen k d fd t] handle_subscribe_implements[of t d fd] no_uuid_same(2)[of t fd d]
    by (intro world_ok_same) (auto simp: world_ok_def)
next
  case (7 k d fd t)
  then show ?case
    using ok.unsubscribe[of gen k d fd t] handle_unsubscribe_implements[of d t fd] no_uuid_same(3)[of t fd d]
    by (intro world_ok_same) (auto simp: world_ok_def)
next
  case (8 k d fd p)
  then show ?case
    using ok.use[of gen k d fd p] handle_use_implements[of p d fd] handle_use_malformed(2)[of p fd d]
    by (intro world_ok_same) (auto simp: world_ok_def)
qed

end
