(* ===== verification/Team_Views.thy ===== *)
theory Team_Views
  imports Service_Refinement
begin

text \<open>
  What a client sees of the place it has selected: the blocks \<open>/list\<close> sends for it, and the one
  shape all successful creations have (src/server/handlers/mtp_create.cpp, mtp_list.cpp).
\<close>

section \<open>The blocks of a place\<close>

definition place_blocks :: "server_data_t \<Rightarrow> client_context_t \<Rightarrow> bytes list" where
  "place_blocks d c =
     (if ctx_level c = use_code USE_NONE then map team_info (teams d)
      else if ctx_level c = use_code USE_TEAM
      then (case resolve_team d c of None \<Rightarrow> [] | Some i \<Rightarrow> map channel_info (team_channels (teams d ! i)))
      else if ctx_level c = use_code USE_CHANNEL
      then (case resolve_channel d c of None \<Rightarrow> []
            | Some (i, j) \<Rightarrow> map thread_info (channel_threads (team_channels (teams d ! i) ! j)))
      else (case resolve_thread d c of None \<Rightarrow> []
            | Some (i, j, k) \<Rightarrow> map (reply_info (ctx_thread_uuid c))
                (thread_replies (channel_threads (team_channels (teams d ! i) ! j) ! k))))"

definition level_codes :: "byte \<Rightarrow> response \<times> response \<times> event" where
  "level_codes l =
     (if l = use_code USE_NONE then (RES_LIST_TEAMS, RES_TEAM_CREATED, EVT_TEAM_CREATED)
      else if l = use_code USE_TEAM then (RES_LIST_CHANNELS, RES_CHANNEL_CREATED, EVT_CHANNEL_CREATED)
      else if l = use_code USE_CHANNEL then (RES_LIST_THREADS, RES_THREAD_CREATED, EVT_THREAD_CREATED)
      else (RES_LIST_REPLIES, RES_REPLY_CREATED, EVT_REPLY_CREATED))"

abbreviation list_code :: "client_context_t \<Rightarrow> response" where
  "list_code c \<equiv> fst (level_codes (ctx_level c))"
abbreviation created_code :: "client_context_t \<Rightarrow> response" where
  "created_code c \<equiv> fst (snd (level_codes (ctx_level c)))"
abbreviation created_event :: "client_context_t \<Rightarrow> event" where
  "created_event c \<equiv> snd (snd (level_codes (ctx_level c)))"

text \<open>A counted list of blocks, as all list answers are laid out.\<close>

definition counted :: "bytes list \<Rightarrow> bytes" where
  "counted bs = be_bytes32 (word_of_nat (length bs)) @ concat bs"

lemma list_items_counted:
  "list_team_items d = counted (map team_info (teams d))"
  "list_channel_items t = counted (map channel_info (team_channels t))"
  "list_thread_items ch = counted (map thread_info (channel_threads ch))"
  "list_reply_items c h = counted (map (reply_info (ctx_thread_uuid c)) (thread_replies h))"
  by (simp_all add: list_team_items_def list_channel_items_def list_thread_items_def list_reply_items_def
      infos_payload counted_def append_u32_layout)

lemma handle_list_blocks:
  assumes "omap_find (sessions d) fd = Some s" and "omap_find (client_contexts d) fd = Some c" and "ctx_valid d c"
  shows "handle_list fd d = (ok (list_code c) (counted (place_blocks d c)), [], d)"
  using assms(3)
  by (rule ctx_valid_cases)
    (use handle_list_levels[OF assms(1,2)] in
      \<open>simp_all add: place_blocks_def level_codes_def list_items_counted del: use_code.simps\<close>)

section \<open>Successful creations\<close>

text \<open>The descriptors a creation at a place is announced to.\<close>

definition audience :: "server_data_t \<Rightarrow> client_context_t \<Rightarrow> int list" where
  "audience d c = map fst (filter (\<lambda>kv. may_enter (world_of d) (snd kv) (place_of c)) (sessions d))"

lemma audience_levels:
  "ctx_level c = use_code USE_NONE \<Longrightarrow> audience d c = logged_fds d"
  "resolve_team d c = Some i \<Longrightarrow> ctx_level c \<in> {use_code USE_TEAM, use_code USE_CHANNEL, use_code USE_THREAD} \<Longrightarrow>
     audience d c = team_member_fds d (teams d ! i)"
proof -
  show "ctx_level c = use_code USE_NONE \<Longrightarrow> audience d c = logged_fds d"
    by (simp add: audience_def place_of_context may_enter_def logged_fds_def)
  assume r: "resolve_team d c = Some i" and "ctx_level c \<in> {use_code USE_TEAM, use_code USE_CHANNEL, use_code USE_THREAD}"
  then obtain q where "place_of c = take 36 (ctx_team_uuid c) # q"
    using place_of_context[of c] by auto
  then show "audience d c = team_member_fds d (teams d ! i)"
    by (simp add: audience_def resolved_enter[OF r] team_member_fds_def is_subscribed_to_def del: world_of_sel)
qed

lemma upd_resolved:
  assumes "resolve_team d c = Some i" and "team_le (teams d ! i) (f (teams d ! i))"
  shows "resolve_team (upd_team i f d) c = Some i" and "teams (upd_team i f d) ! i = f (teams d ! i)"
    and "resolve_channel d c = Some (i, j) \<Longrightarrow> resolve_channel (upd_team i f d) c = Some (i, j)"
    and "resolve_thread d c = Some (i, j, k) \<Longrightarrow> resolve_thread (upd_team i f d) c = Some (i, j, k)"
  using upd_team_le[of d i f, OF assms(2)] assms(1) resolve_teamD[OF assms(1)]
  by (auto intro: resolve_team_le resolve_channel_le resolve_thread_le)

definition creates :: "server_data_t \<Rightarrow> client_context_t \<Rightarrow> bytes \<Rightarrow> outcome \<Rightarrow> bool" where
  "creates d c blk r \<longleftrightarrow>
     out_result r = add_push (make_push (event_code (created_event c)) blk (audience d c)) (ok (created_code c) blk)
     \<and> place_blocks (out_data r) c = place_blocks d c @ [blk]"

lemma create_team_creates:
  assumes "ctx_level c = use_code USE_NONE"
  shows "(\<exists>e. create_team fresh s p d = fail e [] d) \<or> (\<exists>blk. creates d c blk (create_team fresh s p d))"
  using assms
  by (cases rule: create_team_cases[of fresh s p d])
    (auto simp: creates_def level_codes_def place_blocks_def audience_levels simp del: use_code.simps)

lemma create_channel_creates:
  assumes "ctx_level c = use_code USE_TEAM"
  shows "(\<exists>e. create_channel fresh s c p d = fail e [] d) \<or> (\<exists>blk. creates d c blk (create_channel fresh s c p d))"
proof (cases rule: create_channel_cases[of fresh s c p d])
  case (created i)
  note u = upd_resolved[OF created(2), of "\<lambda>t. t\<lparr>team_channels := team_channels t @ [new_channel fresh p]\<rparr>",
      OF add_channel_le]
  show ?thesis
    using assms created u
    by (auto simp: creates_def level_codes_def place_blocks_def audience_levels simp del: use_code.simps upd_team_nth)
qed auto

lemma create_thread_creates:
  assumes "ctx_level c = use_code USE_CHANNEL"
  shows "(\<exists>e. create_thread fresh now s c p d = fail e [] d)
    \<or> (\<exists>blk. creates d c blk (create_thread fresh now s c p d))"
proof (cases rule: create_thread_cases[of fresh now s c p d])
  case (created i j)
  note i = resolve_channelD[OF created(2)]
  note u = upd_resolved[OF conjunct1[OF i], of "upd_channel j
      (\<lambda>c. c\<lparr>channel_threads := channel_threads c @ [new_thread fresh now s p]\<rparr>)", OF upd_channel_le, OF add_thread_le]
  show ?thesis
    using assms created u i
    by (auto simp: creates_def level_codes_def place_blocks_def audience_levels simp del: use_code.simps upd_team_nth)
qed auto

lemma create_reply_creates:
  assumes "ctx_level c = use_code USE_THREAD"
  shows "(\<exists>e. create_reply fresh now s c p d = fail e [] d)
    \<or> (\<exists>blk. creates d c blk (create_reply fresh now s c p d))"
proof (cases rule: create_reply_cases[of fresh now s c p d])
  case (created i j k)
  note k = resolve_threadD[OF created(2)]
  note i = resolve_channelD[OF conjunct1[OF k]]
  note u = upd_resolved[OF conjunct1[OF i], of "upd_channel j (upd_thread k
      (\<lambda>t. t\<lparr>thread_replies := thread_replies t @ [new_reply fresh now s p]\<rparr>))",
      OF upd_channel_le, OF upd_thread_le, OF add_reply_le]
  show ?thesis
    using assms created u i k
    by (auto simp: creates_def level_codes_def place_blocks_def audience_levels simp del: use_code.simps upd_team_nth)
qed auto

lemma handle_create_creates:
  assumes "omap_find (sessions d) fd = Some s" and "omap_find (client_contexts d) fd = Some c"
    and "ctx_valid d c" and "\<not> refused (handle_create fresh now fd p d)"
  obtains blk where "creates d c blk (handle_create fresh now fd p d)"
proof -
  have "(\<exists>e. handle_create fresh now fd p d = fail e [] d) \<or> (\<exists>blk. creates d c blk (handle_create fresh now fd p d))"
    using assms(3)
    by (rule ctx_valid_cases)
      (use create_team_creates create_channel_creates create_thread_creates create_reply_creates in
        \<open>simp_all add: handle_create_def assms(1,2) del: use_code.simps\<close>)
  then show ?thesis using assms(4) that by auto
qed

text \<open>Each descriptor of the audience is there once.\<close>

lemma audience_sessions:
  assumes "omap_wf (sessions d)"
  shows "distinct (audience d c)"
    and "t \<in> set (audience d c) \<longleftrightarrow> (\<exists>u. omap_find (sessions d) t = Some u \<and> may_enter (world_of d) u (place_of c))"
  using std_map.distinct_keys[OF assms] std_map.entries_find[OF assms]
  by (auto simp: audience_def distinct_map_filter image_iff simp del: world_of_sel)

section \<open>Selecting and then asking\<close>

lemma set_context_finds [simp]:
  "find_team_by_uuid (set_context fd c d) = find_team_by_uuid d"
  "find_user_by_uuid (set_context fd c d) = find_user_by_uuid d"
  by (rule find_team_by_uuid_cong find_user_by_uuid_cong, simp)+

lemmas use_info_simps =
  handle_info_def Let_def omap_find_set context0_def append_infos

lemma use_none_info:
  "omap_find (sessions d) fd = Some s \<Longrightarrow>
     out_result (handle_info fd (out_data (use_none fd s d))) = out_result (use_none fd s d)"
  by (simp add: use_none_def user_details_def use_info_simps)

lemma use_team_info:
  assumes "omap_find (sessions d) fd = Some s" and "\<not> refused (use_team fd s p d)"
  shows "out_result (handle_info fd (out_data (use_team fd s p d))) = out_result (use_team fd s p d)"
proof (cases "length p < 1 + 36")
  case False
  then show ?thesis
    using assms length_use_uuid[of 0 p]
    by (cases "find_team_by_uuid d (use_uuid p 0)"; cases "is_subscribed_to (teams d ! the (find_team_by_uuid d (use_uuid p 0))) s")
      (simp_all add: use_team_def use_info_simps del: use_code.simps)
qed (use assms in \<open>simp add: use_team_def\<close>)

lemma use_channel_info:
  assumes "omap_find (sessions d) fd = Some s" and "\<not> refused (use_channel fd s p d)"
  shows "out_result (handle_info fd (out_data (use_channel fd s p d))) = out_result (use_channel fd s p d)"
proof (cases "length p < 1 + 36 + 36")
  case False
  note len = length_use_uuid[of 0 p] length_use_uuid[of 1 p]
  show ?thesis
  proof (cases "find_team_by_uuid d (use_uuid p 0)")
    case (Some i)
    then show ?thesis
      using assms False len
      by (cases "find_channel_by_uuid (teams d ! i) (use_uuid p 1)"; cases "is_subscribed_to (teams d ! i) s")
        (simp_all add: use_channel_def use_info_simps del: use_code.simps)
  qed (use assms False in \<open>simp add: use_channel_def\<close>)
qed (use assms in \<open>simp add: use_channel_def\<close>)

lemma use_thread_info:
  assumes "omap_find (sessions d) fd = Some s" and "\<not> refused (use_thread fd s p d)"
  shows "out_result (handle_info fd (out_data (use_thread fd s p d))) = out_result (use_thread fd s p d)"
proof (cases "length p < 1 + 36 + 36 + 36")
  case False
  note len = length_use_uuid[of 0 p] length_use_uuid[of 1 p] length_use_uuid[of 2 p]
  show ?thesis
  proof (cases "find_team_by_uuid d (use_uuid p 0)")
    case (Some i)
    note i = Some
    show ?thesis
    proof (cases "find_channel_by_uuid (teams d ! i) (use_uuid p 1)")
      case (Some j)
      then show ?thesis
        using assms False len i
        by (cases "find_thread_by_uuid (team_channels (teams d ! i) ! j) (use_uuid p 2)";
            cases "is_subscribed_to (teams d ! i) s")
          (simp_all add: use_thread_def use_info_simps del: use_code.simps)
    qed (use assms False i in \<open>simp add: use_thread_def Let_def split: if_splits\<close>)
  qed (use assms False in \<open>simp add: use_thread_def\<close>)
qed (use assms in \<open>simp add: use_thread_def\<close>)

lemma handle_use_level:
  assumes "omap_find (sessions d) fd = Some s"
  shows "handle_use fd p d \<in> {fail ERR_INVALID_COMMAND [] d, use_none fd s d, use_team fd s p d,
    use_channel fd s p d, use_thread fd s p d}"
  using assms by (cases p) (simp_all add: handle_use_def del: use_code.simps)

lemma handle_use_info:
  assumes "omap_find (sessions d) fd = Some s" and "\<not> refused (handle_use fd p d)"
  shows "out_result (handle_info fd (out_data (handle_use fd p d))) = out_result (handle_use fd p d)"
  using handle_use_level[OF assms(1), of p] assms(2) use_none_info[OF assms(1)] use_team_info[OF assms(1), of p]
    use_channel_info[OF assms(1), of p] use_thread_info[OF assms(1), of p]
  by auto

section \<open>Subscribing and unsubscribing\<close>

lemma subscribe_eq:
  assumes "omap_find (sessions d) fd = Some s" and "find_team_by_uuid d t = Some i"
  shows "out_data (handle_subscribe fd t d) = (if s \<in> set (team_member_uuids (teams d ! i)) then d
           else set_members i (team_member_uuids (teams d ! i) @ [s]) d)"
    and "out_result (handle_subscribe fd t d) = ok RES_SUBSCRIBE_OK (take 36 (team_uuid (teams d ! i)))"
  using assms find_team_by_uuidD(3)[OF assms(2)]
  by (auto simp: handle_subscribe_def is_uuid36_def is_subscribed_to_def Let_def append_fixed_def)

lemma unsubscribe_eq:
  assumes "omap_find (sessions d) fd = Some s" and "find_team_by_uuid d t = Some i"
    and "s \<in> set (team_member_uuids (teams d ! i))"
  shows "out_data (handle_unsubscribe fd t d) = set_members i (remove1 s (team_member_uuids (teams d ! i))) d"
  using assms find_team_by_uuidD(3)[OF assms(2)]
  by (simp add: handle_unsubscribe_def is_uuid36_def Let_def)

lemma set_members_twice:
  assumes "i < length (teams d)"
  shows "set_members i ms' (set_members i ms d) = set_members i ms' d"
    and "set_members i (team_member_uuids (teams d ! i)) d = d"
  using assms by (simp_all add: set_members_def)

lemma find_team_set_members [simp]: "find_team_by_uuid (set_members i ms d) = find_team_by_uuid d"
  by (rule find_team_by_uuid_map) simp

text \<open>The blocks of a place do not depend on who is a member.\<close>

lemma set_members_views:
  assumes "i < length (teams d)"
  shows "handle_list fd (set_members i ms d) = (out_result (handle_list fd d), [], set_members i ms d)"
    and "handle_info fd (set_members i ms d) = (out_result (handle_info fd d), [], set_members i ms d)"
proof -
  have t: "team_channels (teams (set_members i ms d) ! j) = team_channels (teams d ! j)"
    "team_info (teams (set_members i ms d) ! j) = team_info (teams d ! j)" for j
    using assms by (auto simp: set_members_nth team_info_def)
  have f: "find_channel_by_uuid (teams (set_members i ms d) ! j) k = find_channel_by_uuid (teams d ! j) k" for j k
    by (simp add: find_channel_by_uuid_def t)
  have m: "map team_info (teams (set_members i ms d)) = map team_info (teams d)"
    by (rule nth_equalityI) (simp_all add: t)
  have u: "user_details (set_members i ms d) s = user_details d s" for s
    by (simp add: user_details_def find_user_by_uuid_cong[of "set_members i ms d" d] split: option.split)
  show "handle_list fd (set_members i ms d) = (out_result (handle_list fd d), [], set_members i ms d)"
    by (cases "omap_find (sessions d) fd"; cases "omap_find (client_contexts d) fd")
      (simp_all add: handle_list_def list_items_counted t f m fail_def del: use_code.simps split: option.split)
  show "handle_info fd (set_members i ms d) = (out_result (handle_info fd d), [], set_members i ms d)"
    by (cases "omap_find (sessions d) fd"; cases "omap_find (client_contexts d) fd")
      (simp_all add: handle_info_def append_infos t f u fail_def del: use_code.simps split: option.split)
qed

end
