(* ===== verification/Message_Size.thy ===== *)
theory Message_Size
  imports Server_Output Team_Views
begin

text \<open>
  How long the server's messages can be. The length of a payload travels in 32 bits; a list of
  more than some six million entries would not fit. The theory gives a bound on the data under
  which every message the handlers build fits its header.
\<close>

declare response_code.simps [simp del] error_code.simps [simp del] event_code.simps [simp del]

section \<open>Small data\<close>

abbreviation few :: "'a list \<Rightarrow> bool" where
  "few xs \<equiv> length xs \<le> 2 ^ 22"

definition small :: "server_data_t \<Rightarrow> bool" where
  "small d \<longleftrightarrow> few (users d) \<and> few (messages d) \<and> few (teams d) \<and> (\<forall>t \<in> set (teams d). few (team_channels t)
     \<and> (\<forall>c \<in> set (team_channels t). few (channel_threads c) \<and> (\<forall>h \<in> set (channel_threads c). few (thread_replies h))))"

definition fits :: verdict where
  "fits d c p \<longleftrightarrow> (small d \<longrightarrow> length p < 2 ^ 32)"

text \<open>Data only grows, so data that is small now was small before.\<close>

lemma grows_few: "grows r xs ys \<Longrightarrow> few ys \<Longrightarrow> few xs"
  by (simp add: grows_def)

lemma grows_mem: "grows r xs ys \<Longrightarrow> x \<in> set xs \<Longrightarrow> \<exists>y \<in> set ys. r x y"
  by (auto simp: grows_def in_set_conv_nth Bex_def) (metis order_less_le_trans)

lemma small_le:
  assumes "data_le d e" and "small e"
  shows "small d"
proof -
  have le: "grows user_le (users d) (users e)" "grows team_le (teams d) (teams e)" "prefix (messages d) (messages e)"
    using assms(1) by (simp_all add: data_le_def)
  have few: "few (users e)" "few (messages e)" "few (teams e)" using assms(2) by (simp_all add: small_def)
  have "few (messages d)" using prefix_length_le[OF le(3)] few(2) by simp
  moreover have "few (team_channels t) \<and> (\<forall>c \<in> set (team_channels t). few (channel_threads c)
      \<and> (\<forall>h \<in> set (channel_threads c). few (thread_replies h)))" if t: "t \<in> set (teams d)" for t
  proof -
    obtain t' where t': "t' \<in> set (teams e)" "grows channel_le (team_channels t) (team_channels t')"
      using grows_mem[OF le(2) t] by (auto simp: team_le_def)
    have ft: "few (team_channels t')" using t'(1) assms(2) by (simp add: small_def)
    have "few (channel_threads c) \<and> (\<forall>h \<in> set (channel_threads c). few (thread_replies h))"
      if c: "c \<in> set (team_channels t)" for c
    proof -
      obtain c' where c': "c' \<in> set (team_channels t')" "grows thread_le (channel_threads c) (channel_threads c')"
        using grows_mem[OF t'(2) c] by (auto simp: channel_le_def)
      have fc: "few (channel_threads c')" using c'(1) t'(1) assms(2) by (simp add: small_def)
      have "few (thread_replies h)" if h: "h \<in> set (channel_threads c)" for h
      proof -
        obtain h' where h': "h' \<in> set (channel_threads c')" "prefix (thread_replies h) (thread_replies h')"
          using grows_mem[OF c'(2) h] by (auto simp: thread_le_def)
        have "few (thread_replies h')" using h'(1) c'(1) t'(1) assms(2) by (simp add: small_def)
        then show ?thesis using prefix_length_le[OF h'(2)] by simp
      qed
      then show ?thesis using grows_few[OF c'(2) fc] by blast
    qed
    then show ?thesis using grows_few[OF t'(2) ft] by blast
  qed
  ultimately show ?thesis
    unfolding small_def using grows_few[OF le(1) few(1)] grows_few[OF le(2) few(3)] by blast
qed

lemma fits_le: "data_le d e \<Longrightarrow> fits d c p \<Longrightarrow> fits e c p"
  unfolding fits_def using small_le by blast

lemma small_nth:
  assumes "small d" and "i < length (teams d)"
  shows "few (team_channels (teams d ! i))"
    and "j < length (team_channels (teams d ! i)) \<Longrightarrow> few (channel_threads (team_channels (teams d ! i) ! j))"
    and "j < length (team_channels (teams d ! i)) \<Longrightarrow> k < length (channel_threads (team_channels (teams d ! i) ! j)) \<Longrightarrow>
      few (thread_replies (channel_threads (team_channels (teams d ! i) ! j) ! k))"
  using assms(1) nth_mem[OF assms(2)] nth_mem[of j "team_channels (teams d ! i)"]
    nth_mem[of k "channel_threads (team_channels (teams d ! i) ! j)"]
  unfolding small_def by blast+

section \<open>Short payloads and lists\<close>

lemma fits_short: "length p \<le> 1000 \<Longrightarrow> fits d c p"
  by (simp add: fits_def)

lemma entry_bounds [simp]:
  "length (user_entry d u) \<le> 624" "length (team_info t) \<le> 624" "length (team_entry t) \<le> 624"
  "length (channel_info c) \<le> 624" "length (thread_info h) \<le> 624" "length (reply_info tid r) \<le> 624"
  "length (message_entry m) \<le> 624"
  by (simp_all add: user_entry_def team_info_def team_entry_def channel_info_def thread_info_def reply_info_def
      message_entry_def)

lemma counted_size:
  assumes "\<And>b. b \<in> set bs \<Longrightarrow> length b \<le> 624" and "few bs"
  shows "length (counted bs) < 2 ^ 32"
proof -
  have "length (concat bs) \<le> 624 * length bs"
    using assms(1) by (induction bs) (simp, fastforce)
  moreover have "length (counted bs) = 4 + length (concat bs)" by (simp add: counted_def)
  ultimately show ?thesis using assms(2) by simp
qed

lemma fits_counted: "(small d \<Longrightarrow> few xs) \<Longrightarrow> (\<And>x. length (f x) \<le> 624) \<Longrightarrow> fits d c (counted (map f xs))"
  unfolding fits_def using counted_size[of "map f xs"] by auto

section \<open>Every handler's messages fit\<close>

abbreviation sized :: "outcome \<Rightarrow> bool" where
  "sized r \<equiv> says fits (out_data r) (out_result r)"

lemma fits_fields [simp, intro]:
  "fits d c []" "fits d c (take 36 bs)" "fits d c (login_payload u)" "fits d c (logout_payload e v)"
  "fits d c (user_details e v)" "fits d c (user_entry e u)" "fits d c (team_info t)"
  "fits d c (channel_info ch)" "fits d c (thread_info h)" "fits d c (reply_info tid r)"
  using entry_bounds(1)[of e u] entry_bounds(2)[of t] entry_bounds(4)[of ch] entry_bounds(5)[of h] entry_bounds(6)[of tid r]
  by (auto intro!: fits_short simp del: entry_bounds simp: login_payload_def logout_payload_def user_details_def append_uuid36_def
      append_name32_def append_fixed_def split: option.split)

lemma sized_fail: "length p \<le> 36 \<Longrightarrow> sized (fail e p d)"
  by (simp add: says_fail fits_short)

lemma sized_login: "sized (handle_login fresh fd name d)"
  by (auto simp: handle_login_def Let_def split: prod.split)

lemma sized_logout: "sized (handle_logout fd d)"
  by (auto simp: handle_logout_def Let_def split: option.split)

lemma sized_users: "sized (handle_users fd d)" "sized (handle_user fd u d)"
proof -
  have "fits d c (counted (map (user_entry d) (users d)))" for c
    by (intro fits_counted) (simp_all add: small_def)
  then show "sized (handle_users fd d)"
    by (auto simp: handle_users_def users_payload append_u32_layout counted_def)
  show "sized (handle_user fd u d)"
    by (auto simp: handle_user_def append_user_entry append_fixed_def split: option.split)
qed

lemma sized_messages: "sized (handle_messages fd u d)"
proof -
  have "fits d c (counted (map message_entry (filter P (messages d))))" for c P
    by (intro fits_counted) (auto simp: small_def intro: order.trans[OF length_filter_le])
  then show ?thesis
    by (auto simp: handle_messages_def messages_payload append_u32_layout counted_def Let_def append_fixed_def
        split: option.split)
qed

lemma sized_send: "sized (handle_send now fd r b d)"
  by (auto simp: handle_send_def Let_def append_fixed_def intro!: fits_short says_add_push split: option.split)

lemma sized_subscribe: "sized (handle_subscribe fd u d)" "sized (handle_unsubscribe fd u d)"
  by (auto simp: handle_subscribe_def handle_unsubscribe_def Let_def append_fixed_def split: option.split)

lemma sized_subscribed_teams: "sized (handle_subscribed_teams fd d)"
proof -
  have "fits d c (counted (map team_entry (filter P (teams d))))" for c P
    by (intro fits_counted) (auto simp: small_def intro: order.trans[OF length_filter_le])
  then show ?thesis
    by (auto simp: handle_subscribed_teams_def teams_payload append_u32_layout counted_def Let_def split: option.split)
qed

text \<open>There are no more members than users.\<close>

lemma members_few:
  assumes "wf_data d" and "i < length (teams d)" and "few (users d)"
  shows "few (subscribed_users d (teams d ! i))"
proof -
  let ?ms = "team_member_uuids (teams d ! i)"
  have t: "distinct ?ms" "set ?ms \<subseteq> user_ids d" using wf_team_nth[OF assms(1,2)] by (simp_all add: wf_team_def)
  have "length ?ms = card (set ?ms)" using distinct_card[OF t(1)] by simp
  also have "\<dots> \<le> card (user_ids d)" using t(2) by (intro card_mono) (simp_all add: user_ids_def)
  also have "\<dots> \<le> length (users d)"
    unfolding user_ids_def by (meson card_image_le card_length finite_set order.trans)
  finally have "length ?ms \<le> length (users d)" .
  moreover have "length (subscribed_users d (teams d ! i)) \<le> length ?ms"
    by (simp add: subscribed_users_def List.map_filter_def)
  ultimately show ?thesis using assms(3) by simp
qed

lemma sized_subscribed_users:
  assumes "wf_data d"
  shows "sized (handle_subscribed_users fd u d)"
proof -
  have "fits d c (counted (map (user_entry d) (subscribed_users d (teams d ! i))))" if "find_team_by_uuid d u = Some i" for c i
    using members_few[OF assms find_team_by_uuidD(1)[OF that]]
    by (intro fits_counted) (simp_all add: small_def)
  then show ?thesis
    by (auto simp: handle_subscribed_users_def users_payload append_u32_layout counted_def Let_def append_fixed_def
        split: option.split)
qed

lemma sized_use: "sized (handle_use fd p d)"
  by (auto simp: handle_use_def use_none_def use_team_def use_channel_def use_thread_def Let_def append_infos
      append_fixed_def split: option.split list.split)

lemma sized_info: "sized (handle_info fd d)"
  by (auto simp: handle_info_def append_infos split: option.split)

lemma sized_list: "sized (handle_list fd d)"
proof -
  have teams: "fits d c (list_team_items d)" for c
    unfolding list_items_counted by (intro fits_counted) (simp_all add: small_def)
  have channels: "fits d c (list_channel_items (teams d ! i))" if "i < length (teams d)" for c i
    unfolding list_items_counted using that by (intro fits_counted) (simp_all add: small_nth[simplified])
  have threads: "fits d c (list_thread_items (team_channels (teams d ! i) ! j))"
    if "i < length (teams d)" "j < length (team_channels (teams d ! i))" for c i j
    unfolding list_items_counted using that by (intro fits_counted) (simp_all add: small_nth[simplified])
  have replies: "fits d c (list_reply_items ctx (channel_threads (team_channels (teams d ! i) ! j) ! k))"
    if "i < length (teams d)" "j < length (team_channels (teams d ! i))"
      "k < length (channel_threads (team_channels (teams d ! i) ! j))" for c i j k ctx
    unfolding list_items_counted using that by (intro fits_counted) (simp_all add: small_nth[simplified])
  show ?thesis
    by (auto simp: handle_list_def intro!: teams channels threads replies
        dest: find_team_by_uuidD(1) find_channel_by_uuidD(1) find_thread_by_uuidD(1) split: option.split)
qed

lemma sized_create: "sized (handle_create fresh now fd p d)"
proof -
  have "sized (create_team fresh s p d)" for s
    by (cases rule: create_team_cases[of fresh s p d]) (auto intro: sized_fail)
  moreover have "sized (create_channel fresh s ctx p d)" for s ctx
    by (cases rule: create_channel_cases[of fresh s ctx p d]) (auto intro: sized_fail)
  moreover have "sized (create_thread fresh now s ctx p d)" for s ctx
    by (cases rule: create_thread_cases[of fresh now s ctx p d]) (auto intro: sized_fail)
  moreover have "sized (create_reply fresh now s ctx p d)" for s ctx
    by (cases rule: create_reply_cases[of fresh now s ctx p d]) (auto intro: sized_fail)
  ultimately show ?thesis
    by (auto simp: handle_create_def split: option.split)
qed

lemma sized_run_command:
  assumes "wf_data d"
  shows "sized (run_command cmd fresh now fd p d)"
  unfolding run_command_def
  by (cases cmd)
    (simp_all add: sized_login sized_logout sized_users sized_messages sized_send sized_subscribe
      sized_subscribed_teams sized_subscribed_users[OF assms] sized_use sized_create sized_list sized_info)

text \<open>Two verdicts on the same packet are one: a frame has only one payload.\<close>

lemma says_conj:
  assumes "says V d r" and "says W d r"
  shows "says (\<lambda>d c p. V d c p \<and> W d c p) d r"
proof -
  have "says_packet (\<lambda>d c p. V d c p \<and> W d c p) d pk" if "says_packet V d pk" "says_packet W d pk" for pk
    using that by (auto simp: says_packet_def make_message_def Let_def)
  then show ?thesis using assms by (simp add: says_def)
qed

end
