(* ===== verification/Client_Helpers.thy ===== *)
theory Client_Helpers
  imports Wire "HOL-Library.State_Monad"
begin

text \<open>
  The client's packing and reading of fixed-width fields (src/client/Helpers.cpp). The
  readers share an offset that each advances when the field is there and leaves alone
  when it is not: a reader is a state transformer on the offset. The client works with
  \<open>std::string\<close>, here \<open>string\<close>; the two conversions relate it to bytes. The locale states
  when a reader inverts an encoder and gives the counted lists of the protocol once.
\<close>

section \<open>Characters and bytes\<close>

definition byte_of_char :: "char \<Rightarrow> byte" where
  "byte_of_char c = word_of_nat (of_char c)"

definition char_of_byte :: "byte \<Rightarrow> char" where
  "char_of_byte b = char_of (unat b)"

definition bytes_of :: "string \<Rightarrow> bytes" where
  "bytes_of s = map byte_of_char s"

definition string_of :: "bytes \<Rightarrow> string" where
  "string_of bs = map char_of_byte bs"

lemma char_of_byte_of_char [simp]: "char_of_byte (byte_of_char c) = c"
proof -
  have "of_char c < (256 :: nat)" by (rule nat_of_char_less_256)
  then show ?thesis
    by (simp add: char_of_byte_def byte_of_char_def unat_of_nat take_bit_eq_mod)
qed

lemma byte_of_char_of_byte [simp]: "byte_of_char (char_of_byte b) = b"
proof -
  have "unat b < 256" using unsigned_less[of b, where ?'a = nat] by simp
  then show ?thesis by (simp add: char_of_byte_def byte_of_char_def)
qed

lemma string_of_bytes_of [simp]: "string_of (bytes_of s) = s"
  by (simp add: string_of_def bytes_of_def comp_def)

lemma bytes_of_string_of [simp]: "bytes_of (string_of bs) = bs"
  by (simp add: string_of_def bytes_of_def comp_def)

lemma length_bytes_of [simp]: "length (bytes_of s) = length s"
  by (simp add: bytes_of_def)

lemma bytes_of_append [simp]: "bytes_of (s @ t) = bytes_of s @ bytes_of t"
  by (simp add: bytes_of_def)

lemma bytes_of_take: "bytes_of (take n s) = take n (bytes_of s)"
  by (simp add: bytes_of_def take_map)

text \<open>A C string argument: the string up to its first NUL.\<close>

definition c_str :: "string \<Rightarrow> string" where
  "c_str s = string_of (cstr (bytes_of s))"

section \<open>Packing\<close>

definition pack_fixed :: "bytes \<Rightarrow> string \<Rightarrow> nat \<Rightarrow> bytes" where
  "pack_fixed buf s field_len =
     (let copy_len = min (length s) field_len
      in buf @ map byte_of_char (take copy_len s) @ replicate (field_len - copy_len) 0)"

lemma pack_fixed_layout:
  "pack_fixed buf s n = buf @ take n (bytes_of s) @ zeros (n - length s)"
proof -
  have "take (min (length s) n) s = take n s" by (cases "length s \<le> n") auto
  moreover have "n - min (length s) n = n - length s" by simp
  ultimately show ?thesis
    by (simp add: pack_fixed_def Let_def bytes_of_def take_map zeros_def)
qed

lemma length_pack_fixed [simp, size_simps]: "length (pack_fixed buf s n) = length buf + n"
  by (simp add: pack_fixed_layout)

section \<open>Reading\<close>

type_synonym 'a reader = "(nat, 'a) state"

definition read_fixed :: "bytes \<Rightarrow> nat \<Rightarrow> string reader" where
  "read_fixed p len = State (\<lambda>off.
     if length p < off + len then ('''', off)
     else (string_of (trim_padded_name (take len (drop off p))), off + len))"

definition read_u32 :: "bytes \<Rightarrow> u32 reader" where
  "read_u32 p = State (\<lambda>off.
     if length p < off + 4 then (0, off)
     else (ntohl host (load32 host (drop off p)), off + 4))"

definition read_u8 :: "bytes \<Rightarrow> byte reader" where
  "read_u8 p = State (\<lambda>off. if length p \<le> off then (0, off) else (p ! off, off + 1))"

definition read_i64 :: "bytes \<Rightarrow> u64 reader" where
  "read_i64 p = State (\<lambda>off.
     if length p < off + 8 then (0, off)
     else (swap_u64 (load64 host (drop off p)), off + 8))"

text \<open>The value of a reader started at the beginning of the payload.\<close>

definition read_from_start :: "'a reader \<Rightarrow> 'a" where
  "read_from_start r = fst (run_state r 0)"

text \<open>The loops \<open>for (i = 0, n = read_u32(p, off); i < n; ++i)\<close> of the response handler.\<close>

primrec read_times :: "nat \<Rightarrow> 'a reader \<Rightarrow> 'a list reader" where
  "read_times 0 r = State_Monad.return []"
| "read_times (Suc n) r = do { x \<leftarrow> r; xs \<leftarrow> read_times n r; State_Monad.return (x # xs) }"

definition read_list :: "bytes \<Rightarrow> 'a reader \<Rightarrow> 'a list reader" where
  "read_list p r = do { n \<leftarrow> read_u32 p; read_times (unat n) r }"

section \<open>Readers on fields that are there\<close>

named_theorems reader_simps \<open>values of readers\<close>

lemma run_read_fixed [reader_simps]:
  "off + len \<le> length p \<Longrightarrow>
     run_state (read_fixed p len) off = (string_of (cstr (take len (drop off p))), off + len)"
  by (simp add: read_fixed_def trim_padded_name_cstr)

lemma run_read_u8 [reader_simps]: "off < length p \<Longrightarrow> run_state (read_u8 p) off = (p ! off, Suc off)"
  by (simp add: read_u8_def)

lemma run_read_u32 [reader_simps]:
  "off + 4 \<le> length p \<Longrightarrow> run_state (read_u32 p) off = (of_be32 (drop off p), off + 4)"
  by (simp add: read_u32_def ntohl_load32)

lemma run_read_i64 [reader_simps]:
  "off + 8 \<le> length p \<Longrightarrow> run_state (read_i64 p) off = (of_be64 (drop off p), off + 8)"
  by (simp add: read_i64_def host_def swap_u64_load64)

lemma run_bind [reader_simps]:
  "run_state (State_Monad.bind r f) off = (case run_state r off of (a, off') \<Rightarrow> run_state (f a) off')"
  by (simp add: State_Monad.bind_def)

text \<open>A short payload leaves the offset and gives the empty string or zero.\<close>

lemma run_read_short:
  "length p < off + len \<Longrightarrow> run_state (read_fixed p len) off = ('''', off)"
  "length p \<le> off \<Longrightarrow> run_state (read_u8 p) off = (0, off)"
  "length p < off + 4 \<Longrightarrow> run_state (read_u32 p) off = (0, off)"
  "length p < off + 8 \<Longrightarrow> run_state (read_i64 p) off = (0, off)"
  by (simp_all add: read_fixed_def read_u8_def read_u32_def read_i64_def)

section \<open>Encoders and readers\<close>

text \<open>
  A reader fits an encoder if, wherever in a payload the encoded record stands, reading
  there gives the record's view and moves past it.
\<close>

locale record_codec =
  fixes encode :: "'a \<Rightarrow> bytes" and reader :: "bytes \<Rightarrow> 'b reader"
    and view :: "'a \<Rightarrow> 'b" and good :: "'a \<Rightarrow> bool"
  assumes read_encode: "good x \<Longrightarrow> run_state (reader (pre @ encode x @ post)) (length pre)
      = (view x, length pre + length (encode x))"
begin

lemma read_one: "good x \<Longrightarrow> read_from_start (reader (encode x)) = view x"
  using read_encode[of x "[]" "[]"] by (simp add: read_from_start_def)

lemma read_many:
  "(\<And>x. x \<in> set xs \<Longrightarrow> good x) \<Longrightarrow>
     run_state (read_times (length xs) (reader (pre @ concat (map encode xs) @ post))) (length pre)
       = (map view xs, length pre + length (concat (map encode xs)))"
proof (induction xs arbitrary: pre)
  case (Cons x xs)
  have "run_state (reader (pre @ encode x @ concat (map encode xs) @ post)) (length pre)
      = (view x, length pre + length (encode x))"
    by (rule read_encode) (simp add: Cons.prems)
  with Cons.IH[of "pre @ encode x"] Cons.prems show ?case
    by (simp add: reader_simps)
qed simp

text \<open>The count is 32 bits wide: of a list that is longer a part is read, and nothing else.\<close>

lemma read_counted_take:
  assumes "\<And>x. x \<in> set xs \<Longrightarrow> good x"
  defines "p \<equiv> be_bytes32 (word_of_nat (length xs)) @ concat (map encode xs)"
  shows "read_from_start (read_list p (reader p)) = map view (take (unat (word_of_nat (length xs) :: u32)) xs)"
proof -
  let ?n = "unat (word_of_nat (length xs) :: u32)"
  have n: "length (take ?n xs) = ?n" by (simp add: unat_of_nat)
  have "p = be_bytes32 (word_of_nat (length xs)) @ concat (map encode (take ?n xs)) @ concat (map encode (drop ?n xs))"
    unfolding p_def by (metis append_take_drop_id concat_append map_append)
  then have "run_state (read_times ?n (reader p)) 4
      = (map view (take ?n xs), 4 + length (concat (map encode (take ?n xs))))"
    using read_many[of "take ?n xs" "be_bytes32 (word_of_nat (length xs))" "concat (map encode (drop ?n xs))"]
      assms(1) n by (auto dest: in_set_takeD)
  then show ?thesis
    by (simp add: read_from_start_def read_list_def reader_simps p_def)
qed

lemma read_counted:
  assumes "\<And>x. x \<in> set xs \<Longrightarrow> good x" and "length xs < 2 ^ 32"
  defines "p \<equiv> be_bytes32 (word_of_nat (length xs)) @ concat (map encode xs)"
  shows "read_from_start (read_list p (reader p)) = map view xs"
  using read_counted_take[OF assms(1), of xs] assms(2)
  by (simp add: p_def unat_of_nat take_bit_nat_eq_self)

lemma read_counted_set:
  assumes "\<And>x. x \<in> set xs \<Longrightarrow> good x"
  defines "p \<equiv> be_bytes32 (word_of_nat (length xs)) @ concat (map encode xs)"
  shows "set (read_from_start (read_list p (reader p))) \<subseteq> view ` set xs"
  using read_counted_take[OF assms(1), of xs] by (auto simp: p_def dest: in_set_takeD)

end

text \<open>What the client packs it reads back, up to the width of the field.\<close>

interpretation packed: record_codec "\<lambda>s. pack_fixed [] s n" "\<lambda>p. read_fixed p n" "take n"
  "\<lambda>s. 0 \<notin> set (bytes_of s)" for n
proof
  fix s pre post
  assume "0 \<notin> set (bytes_of s)"
  then have "0 \<notin> set (take n (bytes_of s))" by (auto dest: in_set_takeD)
  then have "cstr (pack_fixed [] s n) = take n (bytes_of s)"
    by (simp add: pack_fixed_layout)
  moreover have "string_of (take n (bytes_of s)) = take n s"
    by (simp add: string_of_def bytes_of_def take_map comp_def)
  ultimately show "run_state (read_fixed (pre @ pack_fixed [] s n @ post) n) (length pre)
      = (take n s, length pre + length (pack_fixed [] s n))"
    by (simp add: reader_simps)
qed

end
