(* ===== verification/Client_Parser.thy ===== *)
theory Client_Parser
  imports Client_Helpers
begin

text \<open>
  The command line parser (src/client/Command_parser.cpp). The index that runs over the
  line is the suffix still to be read; the loops on it are functions on that suffix. The
  theory shows what lines the parser accepts and that it inverts quoting.
\<close>

section \<open>The parser\<close>

definition DQUOTE :: char where "DQUOTE = CHR 0x22"

lemma DQUOTE_not_space [simp]: "DQUOTE \<noteq> CHR '' ''"
  by (simp add: DQUOTE_def)

record parsed_command =
  pc_name :: string
  pc_args :: "string list"
  pc_valid :: bool
  pc_error :: string

definition parsed_command0 :: parsed_command where
  "parsed_command0 = \<lparr>pc_name = '''', pc_args = [], pc_valid = True, pc_error = ''''\<rparr>"

text \<open>The loop inside quotes: the argument and what follows the closing quote, if any.\<close>

fun quoted :: "string \<Rightarrow> string \<Rightarrow> (string \<times> string) option" where
  "quoted arg [] = None"
| "quoted arg (c # line) = (if c = DQUOTE then Some (arg, line) else quoted (arg @ [c]) line)"

lemma quoted_length: "quoted arg line = Some (a, rest) \<Longrightarrow> length rest < length line"
  by (induction arg line rule: quoted.induct) (auto split: if_splits)

lemma dropWhile_Cons_length: "dropWhile P xs = y # ys \<Longrightarrow> length ys < length xs"
  by (metis Suc_le_lessD length_Cons length_dropWhile_le)

lemma dropWhile_Cons_neg: "dropWhile P xs = y # ys \<Longrightarrow> \<not> P y"
  by (metis hd_dropWhile list.distinct(1) list.sel(1))

function parse_args :: "string \<Rightarrow> parsed_command \<Rightarrow> parsed_command" where
  "parse_args line result =
     (case dropWhile (\<lambda>c. c = CHR '' '') line of
        [] \<Rightarrow> result
      | c # rest \<Rightarrow>
          if c = DQUOTE
          then (case quoted '''' rest of
                  None \<Rightarrow> result\<lparr>pc_valid := False, pc_error := ''Unclosed double quote in argument''\<rparr>
                | Some (arg, rest') \<Rightarrow> parse_args rest' (result\<lparr>pc_args := pc_args result @ [arg]\<rparr>))
          else parse_args (dropWhile (\<lambda>c. c \<noteq> CHR '' '') (c # rest))
                 (result\<lparr>pc_args := pc_args result @ [takeWhile (\<lambda>c. c \<noteq> CHR '' '') (c # rest)]\<rparr>))"
  by pat_completeness auto

termination
proof (relation "measure (\<lambda>(line, result). length line)", goal_cases)
  case (2 line result c rest p arg rest')
  then show ?case
    using dropWhile_Cons_length[OF 2(1)] quoted_length[of "''''" rest arg rest'] by simp
next
  case (3 line result c rest)
  have "length (dropWhile (\<lambda>c. c \<noteq> CHR '' '') (c # rest)) \<le> length rest"
    using dropWhile_Cons_neg[OF 3(1)] by (simp add: length_dropWhile_le)
  then show ?case using dropWhile_Cons_length[OF 3(1)] by simp
qed simp

declare parse_args.simps [simp del]

definition parse_line :: "string \<Rightarrow> parsed_command" where
  "parse_line line =
     (if line = [] \<or> line ! 0 \<noteq> CHR ''/''
      then parsed_command0\<lparr>pc_valid := False, pc_error := ''Commands must start with '' @ [CHR 0x27, CHR ''/'', CHR 0x27]\<rparr>
      else parse_args (dropWhile (\<lambda>c. c \<noteq> CHR '' '') (tl line))
             (parsed_command0\<lparr>pc_name := takeWhile (\<lambda>c. c \<noteq> CHR '' '') (tl line)\<rparr>))"

section \<open>One argument at a time\<close>

lemma parse_args_Nil [simp]: "parse_args [] r = r"
  by (simp add: parse_args.simps)

lemma parse_args_space [simp]: "parse_args (CHR '' '' # line) r = parse_args line r"
  by (subst (1 2) parse_args.simps) simp

lemma quoted_closed: "DQUOTE \<notin> set a \<Longrightarrow> quoted arg (a @ DQUOTE # rest) = Some (arg @ a, rest)"
  by (induction a arbitrary: arg) auto

lemma quoted_unclosed: "DQUOTE \<notin> set a \<Longrightarrow> quoted arg a = None"
  by (induction a arbitrary: arg) auto

lemma parse_args_quoted:
  "DQUOTE \<notin> set a \<Longrightarrow>
     parse_args (DQUOTE # a @ DQUOTE # rest) r = parse_args rest (r\<lparr>pc_args := pc_args r @ [a]\<rparr>)"
  by (subst parse_args.simps) (simp add: quoted_closed)

lemma parse_args_unclosed:
  "DQUOTE \<notin> set a \<Longrightarrow> parse_args (DQUOTE # a) r =
     r\<lparr>pc_valid := False, pc_error := ''Unclosed double quote in argument''\<rparr>"
  by (subst parse_args.simps) (simp add: quoted_unclosed)

lemma parse_args_bare:
  assumes "w \<noteq> []" and "CHR '' '' \<notin> set w" and "hd w \<noteq> DQUOTE" and "rest = [] \<or> hd rest = CHR '' ''"
  shows "parse_args (w @ rest) r = parse_args rest (r\<lparr>pc_args := pc_args r @ [w]\<rparr>)"
proof -
  obtain c cs where w: "w = c # cs" using assms(1) by (cases w) auto
  have tw: "takeWhile (\<lambda>c. c \<noteq> CHR '' '') (w @ rest) = w" "dropWhile (\<lambda>c. c \<noteq> CHR '' '') (w @ rest) = rest"
    using assms(2,4) by (cases rest; auto simp: takeWhile_append dropWhile_append)+
  have "dropWhile (\<lambda>c. c = CHR '' '') (w @ rest) = c # cs @ rest"
    using w assms(2) by auto
  with tw w assms(3) show ?thesis
    by (subst parse_args.simps) simp
qed

section \<open>Quoting and parsing\<close>

text \<open>A command line as the documentation writes it: every argument in quotes.\<close>

definition quote_args :: "string list \<Rightarrow> string" where
  "quote_args args = concat (map (\<lambda>a. CHR '' '' # DQUOTE # a @ [DQUOTE]) args)"

definition command_line :: "string \<Rightarrow> string list \<Rightarrow> string" where
  "command_line name args = CHR ''/'' # name @ quote_args args"

lemma parse_quote_args:
  "(\<And>a. a \<in> set args \<Longrightarrow> DQUOTE \<notin> set a) \<Longrightarrow>
     parse_args (quote_args args @ rest) r = parse_args rest (r\<lparr>pc_args := pc_args r @ args\<rparr>)"
proof (induction args arbitrary: r)
  case (Cons a args)
  have "parse_args (quote_args (a # args) @ rest) r
      = parse_args (quote_args args @ rest) (r\<lparr>pc_args := pc_args r @ [a]\<rparr>)"
    using Cons.prems parse_args_quoted[of a "quote_args args @ rest" r] by (simp add: quote_args_def)
  also have "\<dots> = parse_args rest ((r\<lparr>pc_args := pc_args r @ [a]\<rparr>)\<lparr>pc_args := (pc_args r @ [a]) @ args\<rparr>)"
    using Cons.IH[of "r\<lparr>pc_args := pc_args r @ [a]\<rparr>"] Cons.prems by simp
  finally show ?case by simp
qed (simp add: quote_args_def)

lemma name_then_args:
  assumes "CHR '' '' \<notin> set name" and "rest = [] \<or> hd rest = CHR '' ''"
  shows "parse_line (CHR ''/'' # name @ rest) = parse_args rest (parsed_command0\<lparr>pc_name := name\<rparr>)"
proof -
  have "takeWhile (\<lambda>c. c \<noteq> CHR '' '') (name @ rest) = name"
    "dropWhile (\<lambda>c. c \<noteq> CHR '' '') (name @ rest) = rest"
    using assms by (cases rest; auto simp: takeWhile_append dropWhile_append)+
  then show ?thesis by (simp add: parse_line_def)
qed

lemma quote_args_hd: "quote_args args = [] \<or> hd (quote_args args @ rest) = CHR '' ''"
  by (cases args) (simp_all add: quote_args_def)

lemma parse_command_line_rest:
  assumes "CHR '' '' \<notin> set name" and "\<And>a. a \<in> set args \<Longrightarrow> DQUOTE \<notin> set a"
    and "rest = [] \<or> hd rest = CHR '' ''"
  shows "parse_line (command_line name args @ rest)
           = parse_args rest (parsed_command0\<lparr>pc_name := name, pc_args := args\<rparr>)"
proof -
  have "quote_args args @ rest = [] \<or> hd (quote_args args @ rest) = CHR '' ''"
    using quote_args_hd[of args rest] assms(3) by auto
  with assms(1) have "parse_line (command_line name args @ rest)
      = parse_args (quote_args args @ rest) (parsed_command0\<lparr>pc_name := name\<rparr>)"
    by (simp add: command_line_def name_then_args)
  also have "\<dots> = parse_args rest (parsed_command0\<lparr>pc_name := name, pc_args := args\<rparr>)"
    by (simp add: parse_quote_args assms(2) parsed_command0_def)
  finally show ?thesis .
qed

lemma parse_args_keeps:
  "pc_name (parse_args line r) = pc_name r"
  "\<exists>more. pc_args (parse_args line r) = pc_args r @ more"
  "pc_valid r \<Longrightarrow> pc_valid (parse_args line r) \<or> pc_error (parse_args line r) = ''Unclosed double quote in argument''"
proof (induction line r rule: parse_args.induct)
  case (1 line r)
  {
    case 1
    show ?case
      using "1.IH"(1,4) by (subst parse_args.simps) (auto split: list.split option.split)
  next
    case 2
    show ?case
      using "1.IH"(2,5) by (subst parse_args.simps) (fastforce split: list.split option.split)
  next
    case 3
    then show ?case
      using "1.IH"(3,6) by (subst (1 2) parse_args.simps) (auto split: list.split option.split)
  }
qed

end
