(* ===== verification/Client.thy ===== *)
theory Client
  imports Client_Parser
begin

text \<open>
  The client's state and its commands (src/client/Client.hpp, Packet.cpp, Individual.cpp,
  Command_dispatch.cpp, Command_help.cpp). Writes to the socket may be partial: what the
  \<open>i\<close>-th \<open>write\<close> returns is \<open>net i\<close>. Everything the user or the network can see is
  recorded in a trace: bytes handed to the kernel, lines printed, and calls of the logging
  library (libs/myteams/logging_client.h), which is not part of the sources.
\<close>

section \<open>State\<close>

datatype client_call =
  client_event_logged_in string string
| client_event_logged_out string string
| client_event_private_message_received string string
| client_event_thread_reply_received string string string string
| client_event_team_created string string string
| client_event_channel_created string string string
| client_event_thread_created string string u64 string string
| client_print_users string string int
| client_print_teams string string string
| client_team_print_channels string string string
| client_channel_print_threads string string u64 string string
| client_thread_print_replies string string u64 string
| client_private_message_print_messages string u64 string
| client_error_unknown_team string
| client_error_unknown_channel string
| client_error_unknown_thread string
| client_error_unknown_user string
| client_error_unauthorized
| client_error_already_exist
| client_print_user string string int
| client_print_team string string string
| client_print_channel string string string
| client_print_thread string string u64 string string
| client_print_team_created string string string
| client_print_channel_created string string string
| client_print_thread_created string string u64 string string
| client_print_reply_created string string u64 string
| client_print_subscribed string string
| client_print_unsubscribed string string

datatype client_io = CL_write bytes | CL_print string | CL_call client_call

record client =
  cl_fd :: int
  cl_running :: bool
  cl_user_uuid :: string
  cl_recv_buf :: bytes
  cl_send_buf :: bytes
  cl_use_level :: use_level
  cl_use_team_uuid :: string
  cl_use_channel_uuid :: string
  cl_use_thread_uuid :: string
  cl_stdin_buf :: string
  cl_writes :: nat
  cl_trace :: "client_io list"

definition client0 :: client where
  "client0 = \<lparr>cl_fd = - 1, cl_running = False, cl_user_uuid = [], cl_recv_buf = [], cl_send_buf = [],
     cl_use_level = USE_NONE, cl_use_team_uuid = [], cl_use_channel_uuid = [], cl_use_thread_uuid = [],
     cl_stdin_buf = [], cl_writes = 0, cl_trace = []\<rparr>"

definition tell :: "client_io list \<Rightarrow> client \<Rightarrow> client" where
  "tell es c = c\<lparr>cl_trace := cl_trace c @ es\<rparr>"

section \<open>Sending\<close>

definition handle_server_write :: "(nat \<Rightarrow> int) \<Rightarrow> client \<Rightarrow> client" where
  "handle_server_write net c =
     (if cl_send_buf c = [] then c
      else let n = net (cl_writes c); c1 = c\<lparr>cl_writes := Suc (cl_writes c)\<rparr>
           in if n \<le> 0 then c1
              else tell [CL_write (take (nat n) (cl_send_buf c))]
                     (c1\<lparr>cl_send_buf := drop (nat n) (cl_send_buf c)\<rparr>))"

text \<open>The calls without payload pass a null pointer and size 0.\<close>

definition send_packet :: "(nat \<Rightarrow> int) \<Rightarrow> command \<Rightarrow> bytes \<Rightarrow> client \<Rightarrow> client" where
  "send_packet net cmd payload c =
     (let cmd_net = htons host (command_code cmd);
          size_net = htonl host (word_of_nat (length payload));
          header = mem16 host cmd_net @ mem32 host size_net
      in handle_server_write net (c\<lparr>cl_send_buf := cl_send_buf c @ header @ payload\<rparr>))"

section \<open>Commands\<close>

definition usage :: "string list \<Rightarrow> client \<Rightarrow> client" where
  "usage parts c = tell [CL_print (concat parts)] c"

definition cmd_login :: "(nat \<Rightarrow> int) \<Rightarrow> parsed_command \<Rightarrow> client \<Rightarrow> client" where
  "cmd_login net cmd c =
     (if length (pc_args cmd) \<noteq> 1 then usage [''Usage: /login '', [DQUOTE], ''user_name'', [DQUOTE]] c
      else send_packet net CMD_LOGIN (pack_fixed [] (pc_args cmd ! 0) 32) c)"

definition cmd_logout :: "(nat \<Rightarrow> int) \<Rightarrow> parsed_command \<Rightarrow> client \<Rightarrow> client" where
  "cmd_logout net cmd c = send_packet net CMD_LOGOUT [] c"

definition cmd_users :: "(nat \<Rightarrow> int) \<Rightarrow> parsed_command \<Rightarrow> client \<Rightarrow> client" where
  "cmd_users net cmd c = send_packet net CMD_USERS [] c"

definition cmd_user :: "(nat \<Rightarrow> int) \<Rightarrow> parsed_command \<Rightarrow> client \<Rightarrow> client" where
  "cmd_user net cmd c =
     (if length (pc_args cmd) \<noteq> 1 then usage [''Usage: /user '', [DQUOTE], ''user_uuid'', [DQUOTE]] c
      else send_packet net CMD_USER (pack_fixed [] (pc_args cmd ! 0) 36) c)"

definition cmd_send :: "(nat \<Rightarrow> int) \<Rightarrow> parsed_command \<Rightarrow> client \<Rightarrow> client" where
  "cmd_send net cmd c =
     (if length (pc_args cmd) \<noteq> 2
      then usage [''Usage: /send '', [DQUOTE], ''user_uuid'', [DQUOTE], '' '', [DQUOTE], ''message_body'', [DQUOTE]] c
      else send_packet net CMD_SEND (pack_fixed (pack_fixed [] (pc_args cmd ! 0) 36) (pc_args cmd ! 1) 512) c)"

definition cmd_messages :: "(nat \<Rightarrow> int) \<Rightarrow> parsed_command \<Rightarrow> client \<Rightarrow> client" where
  "cmd_messages net cmd c =
     (if length (pc_args cmd) \<noteq> 1 then usage [''Usage: /messages '', [DQUOTE], ''user_uuid'', [DQUOTE]] c
      else send_packet net CMD_MESSAGES (pack_fixed [] (pc_args cmd ! 0) 36) c)"

definition cmd_subscribe :: "(nat \<Rightarrow> int) \<Rightarrow> parsed_command \<Rightarrow> client \<Rightarrow> client" where
  "cmd_subscribe net cmd c =
     (if length (pc_args cmd) \<noteq> 1 then usage [''Usage: /subscribe '', [DQUOTE], ''team_uuid'', [DQUOTE]] c
      else send_packet net CMD_SUBSCRIBE (pack_fixed [] (pc_args cmd ! 0) 36) c)"

definition cmd_subscribed :: "(nat \<Rightarrow> int) \<Rightarrow> parsed_command \<Rightarrow> client \<Rightarrow> client" where
  "cmd_subscribed net cmd c =
     (if pc_args cmd = [] then send_packet net CMD_SUBSCRIBED [0x00] c
      else if length (pc_args cmd) = 1 then send_packet net CMD_SUBSCRIBED (pack_fixed [0x01] (pc_args cmd ! 0) 36) c
      else usage [''Usage: /subscribed ['', [DQUOTE], ''team_uuid'', [DQUOTE], '']''] c)"

definition cmd_unsubscribe :: "(nat \<Rightarrow> int) \<Rightarrow> parsed_command \<Rightarrow> client \<Rightarrow> client" where
  "cmd_unsubscribe net cmd c =
     (if length (pc_args cmd) \<noteq> 1 then usage [''Usage: /unsubscribe '', [DQUOTE], ''team_uuid'', [DQUOTE]] c
      else send_packet net CMD_UNSUBSCRIBE (pack_fixed [] (pc_args cmd ! 0) 36) c)"

text \<open>\<open>_cmd_use\<close> changes the client's own context before the server has answered.\<close>

definition cmd_use :: "(nat \<Rightarrow> int) \<Rightarrow> parsed_command \<Rightarrow> client \<Rightarrow> client" where
  "cmd_use net cmd c =
     (case pc_args cmd of
        [] \<Rightarrow> send_packet net CMD_USE [use_code USE_NONE]
               (c\<lparr>cl_use_level := USE_NONE, cl_use_team_uuid := [], cl_use_channel_uuid := [],
                  cl_use_thread_uuid := []\<rparr>)
      | [t] \<Rightarrow> send_packet net CMD_USE (pack_fixed [use_code USE_TEAM] t 36)
               (c\<lparr>cl_use_level := USE_TEAM, cl_use_team_uuid := t, cl_use_channel_uuid := [],
                  cl_use_thread_uuid := []\<rparr>)
      | [t, ch] \<Rightarrow> send_packet net CMD_USE (pack_fixed (pack_fixed [use_code USE_CHANNEL] t 36) ch 36)
               (c\<lparr>cl_use_level := USE_CHANNEL, cl_use_team_uuid := t, cl_use_channel_uuid := ch,
                  cl_use_thread_uuid := []\<rparr>)
      | [t, ch, th] \<Rightarrow> send_packet net CMD_USE
               (pack_fixed (pack_fixed (pack_fixed [use_code USE_THREAD] t 36) ch 36) th 36)
               (c\<lparr>cl_use_level := USE_THREAD, cl_use_team_uuid := t, cl_use_channel_uuid := ch,
                  cl_use_thread_uuid := th\<rparr>)
      | _ \<Rightarrow> usage [''Usage: /use ['', [DQUOTE], ''team_uuid'', [DQUOTE], '' ['', [DQUOTE], ''channel_uuid'',
               [DQUOTE], '' ['', [DQUOTE], ''thread_uuid'', [DQUOTE], '']]]''] c)"

definition cmd_create :: "(nat \<Rightarrow> int) \<Rightarrow> parsed_command \<Rightarrow> client \<Rightarrow> client" where
  "cmd_create net cmd c =
     (case cl_use_level c of
        USE_NONE \<Rightarrow>
          if length (pc_args cmd) \<noteq> 2
          then usage [''Usage: /create '', [DQUOTE], ''team_name'', [DQUOTE], '' '', [DQUOTE], ''team_description'', [DQUOTE]] c
          else send_packet net CMD_CREATE (pack_fixed (pack_fixed [] (pc_args cmd ! 0) 32) (pc_args cmd ! 1) 255) c
      | USE_TEAM \<Rightarrow>
          if length (pc_args cmd) \<noteq> 2
          then usage [''Usage: /create '', [DQUOTE], ''channel_name'', [DQUOTE], '' '', [DQUOTE], ''channel_description'', [DQUOTE]] c
          else send_packet net CMD_CREATE (pack_fixed (pack_fixed [] (pc_args cmd ! 0) 32) (pc_args cmd ! 1) 255) c
      | USE_CHANNEL \<Rightarrow>
          if length (pc_args cmd) \<noteq> 2
          then usage [''Usage: /create '', [DQUOTE], ''thread_title'', [DQUOTE], '' '', [DQUOTE], ''thread_body'', [DQUOTE]] c
          else send_packet net CMD_CREATE (pack_fixed (pack_fixed [] (pc_args cmd ! 0) 32) (pc_args cmd ! 1) 512) c
      | USE_THREAD \<Rightarrow>
          if length (pc_args cmd) \<noteq> 1
          then usage [''Usage: /create '', [DQUOTE], ''comment_body'', [DQUOTE]] c
          else send_packet net CMD_CREATE (pack_fixed [] (pc_args cmd ! 0) 512) c)"

definition cmd_list :: "(nat \<Rightarrow> int) \<Rightarrow> parsed_command \<Rightarrow> client \<Rightarrow> client" where
  "cmd_list net cmd c = send_packet net CMD_LIST [] c"

definition cmd_info :: "(nat \<Rightarrow> int) \<Rightarrow> parsed_command \<Rightarrow> client \<Rightarrow> client" where
  "cmd_info net cmd c = send_packet net CMD_INFO [] c"

definition help_lines :: "string list" where
  "help_lines = [
     ''Available commands:'',
     ''  /help                                        Show this help'',
     ''  /login '' @ [DQUOTE] @ ''user_name'' @ [DQUOTE] @ ''                           Log in to the server'',
     ''  /logout                                      Disconnect from the server'',
     ''  /users                                       List all users'',
     ''  /user '' @ [DQUOTE] @ ''user_uuid'' @ [DQUOTE] @ ''                            Get details about a user'',
     ''  /send '' @ [DQUOTE] @ ''user_uuid'' @ [DQUOTE] @ '' '' @ [DQUOTE] @ ''message_body'' @ [DQUOTE] @ ''             Send a private message'',
     ''  /messages '' @ [DQUOTE] @ ''user_uuid'' @ [DQUOTE] @ ''                        List messages with a user'',
     ''  /subscribe '' @ [DQUOTE] @ ''team_uuid'' @ [DQUOTE] @ ''                       Subscribe to a team'',
     ''  /subscribed ['' @ [DQUOTE] @ ''team_uuid'' @ [DQUOTE] @ '']                    List subscribed teams or team members'',
     ''  /unsubscribe '' @ [DQUOTE] @ ''team_uuid'' @ [DQUOTE] @ ''                     Unsubscribe from a team'',
     ''  /use ['' @ [DQUOTE] @ ''team_uuid'' @ [DQUOTE] @ '' ['' @ [DQUOTE] @ ''channel_uuid'' @ [DQUOTE] @ '' ['' @ [DQUOTE] @ ''thread_uuid'' @ [DQUOTE] @ '']]]  Set context'',
     ''  /create [args...]                            Create resource (context-dependent)'',
     ''    (no context)          '' @ [DQUOTE] @ ''team_name'' @ [DQUOTE] @ '' '' @ [DQUOTE] @ ''team_description'' @ [DQUOTE],
     ''    (team)                '' @ [DQUOTE] @ ''channel_name'' @ [DQUOTE] @ '' '' @ [DQUOTE] @ ''channel_description'' @ [DQUOTE],
     ''    (team+channel)        '' @ [DQUOTE] @ ''thread_title'' @ [DQUOTE] @ '' '' @ [DQUOTE] @ ''thread_body'' @ [DQUOTE],
     ''    (team+channel+thread) '' @ [DQUOTE] @ ''comment_body'' @ [DQUOTE],
     ''  /list                                        List resources (context-dependent)'',
     ''  /info                                        Show info (context-dependent)'']"

definition cmd_help :: "client \<Rightarrow> client" where
  "cmd_help c = tell (map CL_print help_lines) c"

section \<open>Dispatch\<close>

text \<open>The chain of comparisons of \<open>Client::_dispatch\<close>.\<close>

definition client_dispatch :: "(nat \<Rightarrow> int) \<Rightarrow> parsed_command \<Rightarrow> client \<Rightarrow> client" where
  "client_dispatch net cmd c =
     (let name = pc_name cmd in
      if name = ''help'' then cmd_help c
      else if name = ''login'' then cmd_login net cmd c
      else if name = ''logout'' then cmd_logout net cmd c
      else if name = ''users'' then cmd_users net cmd c
      else if name = ''user'' then cmd_user net cmd c
      else if name = ''send'' then cmd_send net cmd c
      else if name = ''messages'' then cmd_messages net cmd c
      else if name = ''subscribe'' then cmd_subscribe net cmd c
      else if name = ''subscribed'' then cmd_subscribed net cmd c
      else if name = ''unsubscribe'' then cmd_unsubscribe net cmd c
      else if name = ''use'' then cmd_use net cmd c
      else if name = ''create'' then cmd_create net cmd c
      else if name = ''list'' then cmd_list net cmd c
      else if name = ''info'' then cmd_info net cmd c
      else tell [CL_print (''Unknown command: /'' @ name @ ''. Type /help for help.'')] c)"

section \<open>The stream to the server\<close>

text \<open>Every byte the client has written or still holds, in order.\<close>

fun written :: "client_io list \<Rightarrow> bytes" where
  "written [] = []"
| "written (CL_write bs # es) = bs @ written es"
| "written (CL_print s # es) = written es"
| "written (CL_call k # es) = written es"

lemma written_append [simp]: "written (es @ fs) = written es @ written fs"
  by (induction es rule: written.induct) simp_all

definition cl_sent :: "client \<Rightarrow> bytes" where
  "cl_sent c = written (cl_trace c) @ cl_send_buf c"

lemma tell_sel [simp]:
  "cl_trace (tell es c) = cl_trace c @ es" "cl_send_buf (tell es c) = cl_send_buf c"
  "cl_recv_buf (tell es c) = cl_recv_buf c" "cl_running (tell es c) = cl_running c"
  "cl_use_level (tell es c) = cl_use_level c" "cl_stdin_buf (tell es c) = cl_stdin_buf c"
  "cl_use_team_uuid (tell es c) = cl_use_team_uuid c" "cl_user_uuid (tell es c) = cl_user_uuid c"
  by (simp_all add: tell_def)

text \<open>Writing neither loses nor reorders bytes, whatever the kernel accepts.\<close>

lemma handle_server_write_sent [simp]: "cl_sent (handle_server_write net c) = cl_sent c"
  by (simp add: handle_server_write_def cl_sent_def Let_def)

lemma handle_server_write_frame [simp]:
  "cl_recv_buf (handle_server_write net c) = cl_recv_buf c"
  "cl_running (handle_server_write net c) = cl_running c"
  "cl_use_level (handle_server_write net c) = cl_use_level c"
  "cl_use_team_uuid (handle_server_write net c) = cl_use_team_uuid c"
  "cl_stdin_buf (handle_server_write net c) = cl_stdin_buf c"
  by (simp_all add: handle_server_write_def Let_def)

lemma send_packet_sent [simp]:
  "cl_sent (send_packet net cmd p c) = cl_sent c @ make_message (command_code cmd) p"
  by (simp add: send_packet_def Let_def make_message_layout) (simp add: cl_sent_def)

lemma send_packet_frame [simp]:
  "cl_recv_buf (send_packet net cmd p c) = cl_recv_buf c"
  "cl_running (send_packet net cmd p c) = cl_running c"
  "cl_use_level (send_packet net cmd p c) = cl_use_level c"
  "cl_use_team_uuid (send_packet net cmd p c) = cl_use_team_uuid c"
  "cl_stdin_buf (send_packet net cmd p c) = cl_stdin_buf c"
  by (simp_all add: send_packet_def Let_def)

section \<open>What a command requests\<close>

text \<open>
  The protocol of the documentation as one table: the packet a parsed command stands for
  at a context level, if its arguments are right.
\<close>

definition request :: "use_level \<Rightarrow> string \<Rightarrow> string list \<Rightarrow> (command \<times> bytes) option" where
  "request level name args =
     (let field = (\<lambda>i n. pack_fixed [] (args ! i) n) in
      if name = ''login'' \<and> length args = 1 then Some (CMD_LOGIN, field 0 32)
      else if name = ''logout'' then Some (CMD_LOGOUT, [])
      else if name = ''users'' then Some (CMD_USERS, [])
      else if name = ''user'' \<and> length args = 1 then Some (CMD_USER, field 0 36)
      else if name = ''send'' \<and> length args = 2 then Some (CMD_SEND, field 0 36 @ field 1 512)
      else if name = ''messages'' \<and> length args = 1 then Some (CMD_MESSAGES, field 0 36)
      else if name = ''subscribe'' \<and> length args = 1 then Some (CMD_SUBSCRIBE, field 0 36)
      else if name = ''subscribed'' \<and> args = [] then Some (CMD_SUBSCRIBED, [0])
      else if name = ''subscribed'' \<and> length args = 1 then Some (CMD_SUBSCRIBED, 1 # field 0 36)
      else if name = ''unsubscribe'' \<and> length args = 1 then Some (CMD_UNSUBSCRIBE, field 0 36)
      else if name = ''use'' \<and> length args \<le> 3
      then Some (CMD_USE, word_of_nat (length args) # concat (map (\<lambda>a. pack_fixed [] a 36) args))
      else if name = ''create'' \<and> level = USE_THREAD \<and> length args = 1 then Some (CMD_CREATE, field 0 512)
      else if name = ''create'' \<and> level \<noteq> USE_THREAD \<and> length args = 2
      then Some (CMD_CREATE, field 0 32 @ field 1 (if level = USE_CHANNEL then 512 else 255))
      else if name = ''list'' then Some (CMD_LIST, [])
      else if name = ''info'' then Some (CMD_INFO, [])
      else None)"

definition request_bytes :: "(command \<times> bytes) option \<Rightarrow> bytes" where
  "request_bytes r = (case r of None \<Rightarrow> [] | Some (k, p) \<Rightarrow> make_message (command_code k) p)"

lemma usage_sent [simp]: "cl_sent (usage ps c) = cl_sent c"
  by (simp add: usage_def cl_sent_def)

lemma cmd_help_sent [simp]: "cl_sent (cmd_help c) = cl_sent c"
  by (simp add: cmd_help_def cl_sent_def help_lines_def)

lemma cl_sent_use [simp]:
  "cl_sent (c\<lparr>cl_use_level := l, cl_use_team_uuid := t, cl_use_channel_uuid := ch, cl_use_thread_uuid := th\<rparr>)
     = cl_sent c"
  by (simp add: cl_sent_def)

lemma pack_fixed_append: "pack_fixed buf s n = buf @ pack_fixed [] s n"
  by (simp add: pack_fixed_layout)

lemma cmd_use_sent:
  "cl_sent (cmd_use net cmd c) = cl_sent c
     @ request_bytes (if length (pc_args cmd) \<le> 3
         then Some (CMD_USE, word_of_nat (length (pc_args cmd)) # concat (map (\<lambda>a. pack_fixed [] a 36) (pc_args cmd)))
         else None)"
  by (auto simp: cmd_use_def request_bytes_def pack_fixed_layout split: list.split)

lemma cmd_create_sent:
  "cl_sent (cmd_create net cmd c) = cl_sent c @ request_bytes (request (cl_use_level c) ''create'' (pc_args cmd))"
  by (cases "cl_use_level c")
    (simp_all add: cmd_create_def request_def request_bytes_def pack_fixed_layout)

lemmas simple_cmd_defs =
  cmd_login_def cmd_logout_def cmd_users_def cmd_user_def cmd_send_def cmd_messages_def
  cmd_subscribe_def cmd_subscribed_def cmd_unsubscribe_def cmd_list_def cmd_info_def

definition command_names :: "string list" where
  "command_names = [''help'', ''login'', ''logout'', ''users'', ''user'', ''send'', ''messages'',
     ''subscribe'', ''subscribed'', ''unsubscribe'', ''use'', ''create'', ''list'', ''info'']"

lemma client_dispatch_unknown:
  "pc_name cmd \<notin> set command_names \<Longrightarrow>
     client_dispatch net cmd c = tell [CL_print (''Unknown command: /'' @ pc_name cmd @ ''. Type /help for help.'')] c"
  by (simp add: command_names_def client_dispatch_def Let_def)

lemma request_unknown: "name \<notin> set command_names \<Longrightarrow> request level name args = None"
  by (simp add: command_names_def request_def Let_def)

text \<open>The chains evaluated at each name.\<close>

lemma client_dispatch_names:
  "pc_name cmd = ''help'' \<Longrightarrow> client_dispatch net cmd c = cmd_help c"
  "pc_name cmd = ''login'' \<Longrightarrow> client_dispatch net cmd c = cmd_login net cmd c"
  "pc_name cmd = ''logout'' \<Longrightarrow> client_dispatch net cmd c = cmd_logout net cmd c"
  "pc_name cmd = ''users'' \<Longrightarrow> client_dispatch net cmd c = cmd_users net cmd c"
  "pc_name cmd = ''user'' \<Longrightarrow> client_dispatch net cmd c = cmd_user net cmd c"
  "pc_name cmd = ''send'' \<Longrightarrow> client_dispatch net cmd c = cmd_send net cmd c"
  "pc_name cmd = ''messages'' \<Longrightarrow> client_dispatch net cmd c = cmd_messages net cmd c"
  "pc_name cmd = ''subscribe'' \<Longrightarrow> client_dispatch net cmd c = cmd_subscribe net cmd c"
  "pc_name cmd = ''subscribed'' \<Longrightarrow> client_dispatch net cmd c = cmd_subscribed net cmd c"
  "pc_name cmd = ''unsubscribe'' \<Longrightarrow> client_dispatch net cmd c = cmd_unsubscribe net cmd c"
  "pc_name cmd = ''use'' \<Longrightarrow> client_dispatch net cmd c = cmd_use net cmd c"
  "pc_name cmd = ''create'' \<Longrightarrow> client_dispatch net cmd c = cmd_create net cmd c"
  "pc_name cmd = ''list'' \<Longrightarrow> client_dispatch net cmd c = cmd_list net cmd c"
  "pc_name cmd = ''info'' \<Longrightarrow> client_dispatch net cmd c = cmd_info net cmd c"
  by (simp_all add: client_dispatch_def)

lemma request_names:
  "request l ''help'' args = (None)"
  "request l ''login'' args = (if length args = 1 then Some (CMD_LOGIN, pack_fixed [] (args ! 0) 32) else None)"
  "request l ''logout'' args = (Some (CMD_LOGOUT, []))"
  "request l ''users'' args = (Some (CMD_USERS, []))"
  "request l ''user'' args = (if length args = 1 then Some (CMD_USER, pack_fixed [] (args ! 0) 36) else None)"
  "request l ''send'' args = (if length args = 2 then Some (CMD_SEND, pack_fixed [] (args ! 0) 36 @ pack_fixed [] (args ! 1) 512) else None)"
  "request l ''messages'' args = (if length args = 1 then Some (CMD_MESSAGES, pack_fixed [] (args ! 0) 36) else None)"
  "request l ''subscribe'' args = (if length args = 1 then Some (CMD_SUBSCRIBE, pack_fixed [] (args ! 0) 36) else None)"
  "request l ''subscribed'' args = (if args = [] then Some (CMD_SUBSCRIBED, [0]) else if length args = 1 then Some (CMD_SUBSCRIBED, 1 # pack_fixed [] (args ! 0) 36) else None)"
  "request l ''unsubscribe'' args = (if length args = 1 then Some (CMD_UNSUBSCRIBE, pack_fixed [] (args ! 0) 36) else None)"
  "request l ''list'' args = (Some (CMD_LIST, []))"
  "request l ''info'' args = (Some (CMD_INFO, []))"
  by (simp_all add: request_def)

lemma simple_cmd_sent:
  "cl_sent (cmd_login net cmd c) = cl_sent c @ request_bytes (request l ''login'' (pc_args cmd))"
  "cl_sent (cmd_logout net cmd c) = cl_sent c @ request_bytes (request l ''logout'' (pc_args cmd))"
  "cl_sent (cmd_users net cmd c) = cl_sent c @ request_bytes (request l ''users'' (pc_args cmd))"
  "cl_sent (cmd_user net cmd c) = cl_sent c @ request_bytes (request l ''user'' (pc_args cmd))"
  "cl_sent (cmd_send net cmd c) = cl_sent c @ request_bytes (request l ''send'' (pc_args cmd))"
  "cl_sent (cmd_messages net cmd c) = cl_sent c @ request_bytes (request l ''messages'' (pc_args cmd))"
  "cl_sent (cmd_subscribe net cmd c) = cl_sent c @ request_bytes (request l ''subscribe'' (pc_args cmd))"
  "cl_sent (cmd_subscribed net cmd c) = cl_sent c @ request_bytes (request l ''subscribed'' (pc_args cmd))"
  "cl_sent (cmd_unsubscribe net cmd c) = cl_sent c @ request_bytes (request l ''unsubscribe'' (pc_args cmd))"
  "cl_sent (cmd_list net cmd c) = cl_sent c @ request_bytes (request l ''list'' (pc_args cmd))"
  "cl_sent (cmd_info net cmd c) = cl_sent c @ request_bytes (request l ''info'' (pc_args cmd))"
  by (simp_all add: simple_cmd_defs request_names request_bytes_def pack_fixed_layout)

lemma client_dispatch_sent:
  "cl_sent (client_dispatch net cmd c)
     = cl_sent c @ request_bytes (request (cl_use_level c) (pc_name cmd) (pc_args cmd))"
proof (cases "pc_name cmd \<in> set command_names")
  case False
  then show ?thesis
    by (simp add: client_dispatch_unknown request_unknown request_bytes_def) (simp add: cl_sent_def)
next
  case True
  then have "pc_name cmd \<in> {''help'', ''login'', ''logout'', ''users'', ''user'', ''send'', ''messages'',
     ''subscribe'', ''subscribed'', ''unsubscribe'', ''use'', ''create'', ''list'', ''info''}"
    unfolding command_names_def by (simp only: list.set)
  moreover have "cl_sent (cmd_use net cmd c) = cl_sent c @ request_bytes (request l ''use'' (pc_args cmd))" for l
    using cmd_use_sent[of net cmd c] by (simp add: request_def)
  moreover have "cl_sent (cmd_help c) = cl_sent c @ request_bytes (request l ''help'' (pc_args cmd))" for l
    by (simp add: request_names request_bytes_def)
  ultimately show ?thesis
    using cmd_create_sent[of net cmd c]
    by (elim insertE emptyE) (simp_all only: client_dispatch_names simple_cmd_sent)
qed

text \<open>Every request the client can make fits the server's limit, so none is ever rejected.\<close>

lemma request_size: "request level name args = Some (k, p) \<Longrightarrow> length p \<le> 548"
  by (auto simp: request_def Let_def length_concat comp_def sum_list_triv split: if_splits)

end
