(* ===== verification/Client_Response.thy ===== *)
theory Client_Response
  imports Client Users Messages Team_Tree Subscriptions
begin

text \<open>
  The response handler of the client (src/client/Server_response.cpp): which call of the
  logging library each message of the server leads to. Each list is read by a loop over
  records; the interpretations at the end state that the client's record readers invert
  the server's encoders.
\<close>

section \<open>Records\<close>

text \<open>\<open>c_str()\<close> of a field is the field: \<open>read_fixed\<close> has cut it at its first NUL.\<close>

definition read_uuid_name :: "bytes \<Rightarrow> (string \<Rightarrow> string \<Rightarrow> 'a) \<Rightarrow> 'a reader" where
  "read_uuid_name p f = do {
     uuid \<leftarrow> read_fixed p 36; name \<leftarrow> read_fixed p 32; State_Monad.return (f uuid name) }"

definition read_user :: "bytes \<Rightarrow> (string \<Rightarrow> string \<Rightarrow> int \<Rightarrow> 'a) \<Rightarrow> 'a reader" where
  "read_user p fn = do {
     uuid \<leftarrow> read_fixed p 36; name \<leftarrow> read_fixed p 32; status \<leftarrow> read_u8 p;
     State_Monad.return (fn uuid name (uint status)) }"

definition read_team :: "bytes \<Rightarrow> (string \<Rightarrow> string \<Rightarrow> string \<Rightarrow> 'a) \<Rightarrow> 'a reader" where
  "read_team p fn = do {
     uuid \<leftarrow> read_fixed p 36; name \<leftarrow> read_fixed p 32; desc \<leftarrow> read_fixed p 255;
     State_Monad.return (fn uuid name desc) }"

definition read_thread :: "bytes \<Rightarrow> (string \<Rightarrow> string \<Rightarrow> u64 \<Rightarrow> string \<Rightarrow> string \<Rightarrow> 'a) \<Rightarrow> 'a reader" where
  "read_thread p fn = do {
     tuuid \<leftarrow> read_fixed p 36; cuuid \<leftarrow> read_fixed p 36; ts \<leftarrow> read_i64 p;
     title \<leftarrow> read_fixed p 32; body \<leftarrow> read_fixed p 512;
     State_Monad.return (fn tuuid cuuid ts title body) }"

definition read_reply :: "bytes \<Rightarrow> (string \<Rightarrow> string \<Rightarrow> u64 \<Rightarrow> string \<Rightarrow> 'a) \<Rightarrow> 'a reader" where
  "read_reply p fn = do {
     tuuid \<leftarrow> read_fixed p 36; cuuid \<leftarrow> read_fixed p 36; ts \<leftarrow> read_i64 p; body \<leftarrow> read_fixed p 512;
     State_Monad.return (fn tuuid cuuid ts body) }"

definition read_message :: "bytes \<Rightarrow> client_call reader" where
  "read_message p = do {
     sender \<leftarrow> read_fixed p 36; _ \<leftarrow> read_fixed p 36; ts \<leftarrow> read_i64 p; body \<leftarrow> read_fixed p 512;
     State_Monad.return (client_private_message_print_messages sender ts body) }"

section \<open>The handler\<close>

definition calls :: "client_call list \<Rightarrow> client \<Rightarrow> client" where
  "calls ks c = tell (map CL_call ks) c"

text \<open>The calls of a message that changes nothing in the client but makes calls.\<close>

definition response_calls :: "client \<Rightarrow> u16 \<Rightarrow> bytes \<Rightarrow> client_call list" where
  "response_calls c code p =
     (let one = (\<lambda>r. [read_from_start r]); list = (\<lambda>r. read_from_start (read_list p r)) in
      if code = response_code RES_LOGIN_OK then one (read_uuid_name p client_event_logged_in)
      else if code = response_code RES_LOGOUT_OK then one (read_uuid_name p client_event_logged_out)
      else if code = response_code RES_SEND_OK then []
      else if code = response_code RES_SUBSCRIBE_OK
      then [client_print_subscribed (c_str (cl_user_uuid c)) (read_from_start (read_fixed p 36))]
      else if code = response_code RES_UNSUBSCRIBE_OK
      then [client_print_unsubscribed (c_str (cl_user_uuid c)) (read_from_start (read_fixed p 36))]
      else if code = response_code RES_USER_INFO then one (read_user p client_print_user)
      else if code = response_code RES_USER_DETAILS
      then one (read_uuid_name p (\<lambda>uuid name. client_print_user uuid name (- 1)))
      else if code = response_code RES_TEAM_CREATED then one (read_team p client_print_team_created)
      else if code = response_code RES_TEAM_INFO then one (read_team p client_print_team)
      else if code = response_code RES_CHANNEL_CREATED then one (read_team p client_print_channel_created)
      else if code = response_code RES_CHANNEL_INFO then one (read_team p client_print_channel)
      else if code = response_code RES_THREAD_CREATED then one (read_thread p client_print_thread_created)
      else if code = response_code RES_THREAD_INFO then one (read_thread p client_print_thread)
      else if code = response_code RES_REPLY_CREATED then one (read_reply p client_print_reply_created)
      else if code = response_code RES_USERS_LIST \<or> code = response_code RES_SUBSCRIBED_USERS
      then list (read_user p client_print_users)
      else if code = response_code RES_LIST_TEAMS \<or> code = response_code RES_SUBSCRIBED_TEAMS
      then list (read_team p client_print_teams)
      else if code = response_code RES_LIST_CHANNELS then list (read_team p client_team_print_channels)
      else if code = response_code RES_LIST_THREADS then list (read_thread p client_channel_print_threads)
      else if code = response_code RES_LIST_REPLIES then list (read_reply p client_thread_print_replies)
      else if code = response_code RES_MESSAGES_LIST then list (read_message p)
      else if code = error_code ERR_UNAUTHORIZED \<or> code = error_code ERR_NOT_SUBSCRIBED
      then [client_error_unauthorized]
      else if code = error_code ERR_ALREADY_EXISTS then [client_error_already_exist]
      else if code = error_code ERR_UNKNOWN_TEAM then [client_error_unknown_team (read_from_start (read_fixed p 36))]
      else if code = error_code ERR_UNKNOWN_CHANNEL then [client_error_unknown_channel (read_from_start (read_fixed p 36))]
      else if code = error_code ERR_UNKNOWN_THREAD then [client_error_unknown_thread (read_from_start (read_fixed p 36))]
      else if code = error_code ERR_UNKNOWN_USER then [client_error_unknown_user (read_from_start (read_fixed p 36))]
      else if code = error_code ERR_INVALID_COMMAND then []
      else if code = event_code EVT_USER_LOGGED_IN then one (read_uuid_name p client_event_logged_in)
      else if code = event_code EVT_USER_LOGGED_OUT then one (read_uuid_name p client_event_logged_out)
      else if code = event_code EVT_MESSAGE_RECEIVED
      then one (do { sender \<leftarrow> read_fixed p 36; body \<leftarrow> read_fixed p 512;
                     State_Monad.return (client_event_private_message_received sender body) })
      else if code = event_code EVT_TEAM_CREATED then one (read_team p client_event_team_created)
      else if code = event_code EVT_CHANNEL_CREATED then one (read_team p client_event_channel_created)
      else if code = event_code EVT_THREAD_CREATED then one (read_thread p client_event_thread_created)
      else if code = event_code EVT_REPLY_CREATED
      then one (read_reply p (\<lambda>tuuid cuuid ts body.
                  client_event_thread_reply_received (c_str (cl_use_team_uuid c)) tuuid cuuid body))
      else [])"

text \<open>Only a login and a logout answer change the client; an invalid command is printed.\<close>

definition handle_response :: "u16 \<Rightarrow> bytes \<Rightarrow> client \<Rightarrow> client" where
  "handle_response code p c =
     (let c' = calls (response_calls c code p) c in
      if code = response_code RES_LOGIN_OK then c'\<lparr>cl_user_uuid := read_from_start (read_fixed p 36)\<rparr>
      else if code = response_code RES_LOGOUT_OK then c'\<lparr>cl_running := False\<rparr>
      else if code = error_code ERR_INVALID_COMMAND then tell [CL_print ''invalid command''] c'
      else c')"

lemma calls_sel [simp]:
  "cl_trace (calls ks c) = cl_trace c @ map CL_call ks" "cl_recv_buf (calls ks c) = cl_recv_buf c"
  "cl_send_buf (calls ks c) = cl_send_buf c" "cl_running (calls ks c) = cl_running c"
  "cl_use_level (calls ks c) = cl_use_level c" "cl_stdin_buf (calls ks c) = cl_stdin_buf c"
  by (simp_all add: calls_def)

lemma handle_response_frame [simp]:
  "cl_recv_buf (handle_response code p c) = cl_recv_buf c"
  "cl_send_buf (handle_response code p c) = cl_send_buf c"
  "cl_use_level (handle_response code p c) = cl_use_level c"
  "cl_stdin_buf (handle_response code p c) = cl_stdin_buf c"
  by (simp_all add: handle_response_def Let_def)

lemma written_calls [simp]: "written (map CL_call ks) = []"
  by (induction ks) simp_all

lemma handle_response_sent [simp]: "cl_sent (handle_response code p c) = cl_sent c"
  by (simp add: handle_response_def cl_sent_def Let_def)

section \<open>The readers fit the server's encoders\<close>

interpretation user_codec: record_codec "user_entry d" "\<lambda>p. read_user p fn"
  "\<lambda>u. fn (string_of (cstr (user_uuid u))) (string_of (cstr (user_name u))) (if is_user_online d u then 1 else 0)"
  wf_user for d fn
  by unfold_locales
    (simp add: read_user_def user_entry_def reader_simps wf_user_def valid_uuid37_cstr valid_uuid_length
      nth_append cstr_ident cstr_take)

lemmas codec_simps =
  reader_simps valid_uuid37_cstr valid_uuid_length nth_append cstr_ident cstr_take

text \<open>A 37-byte UUID array, seen as a string.\<close>

abbreviation text_of :: "bytes \<Rightarrow> string" where
  "text_of bs \<equiv> string_of (cstr bs)"

interpretation team_codec: record_codec team_info "\<lambda>p. read_team p fn"
  "\<lambda>t. fn (text_of (team_uuid t)) (text_of (team_name t)) (text_of (team_description t))"
  "wf_team ids" for ids fn
  by unfold_locales (simp add: read_team_def team_info_def wf_team_def codec_simps)

interpretation channel_codec: record_codec channel_info "\<lambda>p. read_team p fn"
  "\<lambda>c. fn (text_of (channel_uuid c)) (text_of (channel_name c)) (text_of (channel_description c))"
  "wf_channel ids" for ids fn
  by unfold_locales (simp add: read_team_def channel_info_def wf_channel_def codec_simps)

interpretation thread_codec: record_codec thread_info "\<lambda>p. read_thread p fn"
  "\<lambda>t. fn (text_of (thread_uuid t)) (text_of (thread_creator_uuid t)) (thread_timestamp t)
        (text_of (thread_title t)) (text_of (thread_body t))"
  "wf_thread ids" for ids fn
  by unfold_locales (simp add: read_thread_def thread_info_def wf_thread_def codec_simps)

interpretation reply_codec: record_codec "reply_info tid" "\<lambda>p. read_reply p fn"
  "\<lambda>r. fn (text_of tid) (text_of (reply_creator_uuid r)) (reply_timestamp r) (text_of (reply_body r))"
  "\<lambda>r. valid_uuid37 tid \<and> wf_reply ids r" for tid ids fn
  by unfold_locales (simp add: read_reply_def reply_info_def wf_reply_def codec_simps)

interpretation message_codec: record_codec message_entry read_message
  "\<lambda>m. client_private_message_print_messages (text_of (msg_sender_uuid m)) (msg_timestamp m) (text_of (msg_body m))"
  "wf_message ids" for ids
  by unfold_locales (simp add: read_message_def message_entry_def wf_message_def codec_simps)

definition name_entry :: "user_t \<Rightarrow> bytes" where
  "name_entry u = take 36 (user_uuid u) @ take 32 (user_name u)"

interpretation name_codec: record_codec name_entry "\<lambda>p. read_uuid_name p fn"
  "\<lambda>u. fn (text_of (user_uuid u)) (text_of (user_name u))" wf_user for fn
  by unfold_locales (simp add: read_uuid_name_def name_entry_def wf_user_def codec_simps)

lemma team_entry_info: "team_entry t = team_info t"
  by (simp add: team_entry_def team_info_def)

text \<open>The client's chain of comparisons at each list answer.\<close>

lemma list_calls:
  "response_calls cl (response_code RES_USERS_LIST) p = read_from_start (read_list p (read_user p client_print_users))"
  "response_calls cl (response_code RES_SUBSCRIBED_USERS) p = read_from_start (read_list p (read_user p client_print_users))"
  "response_calls cl (response_code RES_LIST_TEAMS) p = read_from_start (read_list p (read_team p client_print_teams))"
  "response_calls cl (response_code RES_SUBSCRIBED_TEAMS) p = read_from_start (read_list p (read_team p client_print_teams))"
  "response_calls cl (response_code RES_LIST_CHANNELS) p
     = read_from_start (read_list p (read_team p client_team_print_channels))"
  "response_calls cl (response_code RES_LIST_THREADS) p
     = read_from_start (read_list p (read_thread p client_channel_print_threads))"
  "response_calls cl (response_code RES_LIST_REPLIES) p
     = read_from_start (read_list p (read_reply p client_thread_print_replies))"
  "response_calls cl (response_code RES_MESSAGES_LIST) p = read_from_start (read_list p (read_message p))"
  by (simp_all only: response_calls_def Let_def response_code_inj code_families_disjoint response.distinct
      simp_thms if_False if_True)

section \<open>What every reading of a list has\<close>

lemma read_times_all:
  assumes "\<And>off. P (fst (run_state r off))"
  shows "\<forall>x \<in> set (fst (run_state (read_times n r) off)). P x"
proof (induction n arbitrary: off)
  case (Suc n)
  obtain x off1 where "run_state r off = (x, off1)" by force
  then show ?case using assms[of off] Suc[of off1] by (simp add: reader_simps split: prod.splits)
qed simp

lemma read_list_all: "(\<And>off. P (fst (run_state r off))) \<Longrightarrow> \<forall>x \<in> set (read_from_start (read_list p r)). P x"
  using read_times_all[of P r] by (simp add: read_from_start_def read_list_def reader_simps split: prod.split)

lemmas reader_defs = read_uuid_name_def read_user_def read_team_def read_thread_def read_reply_def

end
