(* ===== verification/Layout.thy ===== *)
theory Layout
  imports Message_Size Client_Response
begin

text \<open>
  The shape of the server's messages, as doc/RFC.md gives it in its tables 4.1, 4.2 and 5: which
  codes there are and how long each payload is. The theory states the tables and shows what does
  not depend on the data: that every handler answers with codes of the tables, and what its
  errors carry. That the successes are laid out as the tables say is shown in Backing, with
  their contents.
\<close>

declare response_code.simps [simp del] error_code.simps [simp del] event_code.simps [simp del]

section \<open>The tables\<close>

text \<open>A payload of a fixed length, or a count and as many entries of a fixed length.\<close>

datatype layout = Fixed nat | Counted nat

fun has_layout :: "layout \<Rightarrow> bytes \<Rightarrow> bool" where
  "has_layout (Fixed n) p \<longleftrightarrow> length p = n"
| "has_layout (Counted n) p \<longleftrightarrow> 4 \<le> length p \<and> n dvd (length p - 4)
     \<and> take 4 p = be_bytes32 (word_of_nat ((length p - 4) div n))"

fun response_layout :: "response \<Rightarrow> layout" where
  "response_layout RES_LOGIN_OK = Fixed (36 + 32)"
| "response_layout RES_LOGOUT_OK = Fixed (36 + 32)"
| "response_layout RES_USERS_LIST = Counted (36 + 32 + 1)"
| "response_layout RES_USER_INFO = Fixed (36 + 32 + 1)"
| "response_layout RES_SEND_OK = Fixed 0"
| "response_layout RES_MESSAGES_LIST = Counted (36 + 36 + 8 + 512)"
| "response_layout RES_SUBSCRIBE_OK = Fixed 36"
| "response_layout RES_SUBSCRIBED_TEAMS = Counted (36 + 32 + 255)"
| "response_layout RES_SUBSCRIBED_USERS = Counted (36 + 32 + 1)"
| "response_layout RES_UNSUBSCRIBE_OK = Fixed 36"
| "response_layout RES_TEAM_CREATED = Fixed (36 + 32 + 255)"
| "response_layout RES_CHANNEL_CREATED = Fixed (36 + 32 + 255)"
| "response_layout RES_THREAD_CREATED = Fixed (36 + 36 + 8 + 32 + 512)"
| "response_layout RES_REPLY_CREATED = Fixed (36 + 36 + 8 + 512)"
| "response_layout RES_LIST_TEAMS = Counted (36 + 32 + 255)"
| "response_layout RES_LIST_CHANNELS = Counted (36 + 32 + 255)"
| "response_layout RES_LIST_THREADS = Counted (36 + 36 + 8 + 32 + 512)"
| "response_layout RES_LIST_REPLIES = Counted (36 + 36 + 8 + 512)"
| "response_layout RES_TEAM_INFO = Fixed (36 + 32 + 255)"
| "response_layout RES_CHANNEL_INFO = Fixed (36 + 32 + 255)"
| "response_layout RES_THREAD_INFO = Fixed (36 + 36 + 8 + 32 + 512)"
| "response_layout RES_USER_DETAILS = Fixed (36 + 32)"

fun event_layout :: "event \<Rightarrow> layout" where
  "event_layout EVT_MESSAGE_RECEIVED = Fixed (36 + 512)"
| "event_layout EVT_TEAM_CREATED = Fixed (36 + 32 + 255)"
| "event_layout EVT_CHANNEL_CREATED = Fixed (36 + 32 + 255)"
| "event_layout EVT_THREAD_CREATED = Fixed (36 + 36 + 8 + 32 + 512)"
| "event_layout EVT_REPLY_CREATED = Fixed (36 + 36 + 8 + 512)"
| "event_layout EVT_USER_LOGGED_IN = Fixed (36 + 32)"
| "event_layout EVT_USER_LOGGED_OUT = Fixed (36 + 32)"

fun error_layout :: "error \<Rightarrow> layout" where
  "error_layout ERR_UNKNOWN_TEAM = Fixed 36"
| "error_layout ERR_UNKNOWN_CHANNEL = Fixed 36"
| "error_layout ERR_UNKNOWN_THREAD = Fixed 36"
| "error_layout ERR_UNKNOWN_USER = Fixed 36"
| "error_layout e = Fixed 0"

text \<open>Of the errors, \<open>ERR_ALREADY_EXISTS\<close> is never sent.\<close>

definition error_sent :: "error \<Rightarrow> bytes \<Rightarrow> bool" where
  "error_sent e p \<longleftrightarrow> e \<noteq> ERR_ALREADY_EXISTS \<and> has_layout (error_layout e) p"

definition laid_out :: "u16 \<Rightarrow> bytes \<Rightarrow> bool" where
  "laid_out code p \<longleftrightarrow> (\<forall>r. code = response_code r \<longrightarrow> has_layout (response_layout r) p)
     \<and> (\<forall>e. code = event_code e \<longrightarrow> has_layout (event_layout e) p)"

lemma laid_out_codes [simp]:
  "laid_out (response_code r) p \<longleftrightarrow> has_layout (response_layout r) p"
  "laid_out (event_code e) p \<longleftrightarrow> has_layout (event_layout e) p"
  "laid_out (error_code err) p"
  by (auto simp: laid_out_def)

lemma length_name_entry [size_simps]: "wf_user u \<Longrightarrow> length (name_entry u) = 68"
  by (simp add: name_entry_def wf_user_def valid_uuid_length)

lemma counted_has_layout:
  assumes "\<And>b. b \<in> set bs \<Longrightarrow> length b = n" and "0 < n"
  shows "has_layout (Counted n) (counted bs)"
proof -
  have "length (concat bs) = n * length bs"
    using assms(1) by (induction bs) auto
  then show ?thesis using assms(2) by (simp add: counted_def)
qed

text \<open>A message that the tables allow.\<close>

definition rfc_message :: "u16 \<Rightarrow> bytes \<Rightarrow> bool" where
  "rfc_message code p \<longleftrightarrow> (\<exists>r. code = response_code r \<and> has_layout (response_layout r) p)
     \<or> (\<exists>v. code = event_code v \<and> has_layout (event_layout v) p)
     \<or> (\<exists>e. code = error_code e \<and> error_sent e p)"

section \<open>Every handler speaks the protocol\<close>

definition wording :: verdict where
  "wording d code p \<longleftrightarrow> code \<in> range response_code \<or> code \<in> range event_code
     \<or> (\<exists>e. code = error_code e \<and> error_sent e p)"

lemma wording_codes [simp, intro]:
  "wording d (response_code r) p" "wording d (event_code v) p" "error_sent e p \<Longrightarrow> wording d (error_code e) p"
  by (auto simp: wording_def)

lemma rfc_message: "laid_out code p \<Longrightarrow> wording d code p \<Longrightarrow> rfc_message code p"
  by (auto simp: laid_out_def wording_def rfc_message_def)

lemma says_refusal: "error_sent e p \<Longrightarrow> says wording d' (out_result (fail e p d))"
  by (simp add: says_fail)

lemmas speak = says_refusal says_add_push says_ok wording_codes

lemma error_sent_simps [simp]:
  "error_sent ERR_UNAUTHORIZED []" "error_sent ERR_INVALID_COMMAND []" "error_sent ERR_NOT_SUBSCRIBED []"
  "length p = 36 \<Longrightarrow> e \<in> {ERR_UNKNOWN_TEAM, ERR_UNKNOWN_CHANNEL, ERR_UNKNOWN_THREAD, ERR_UNKNOWN_USER} \<Longrightarrow> error_sent e p"
  by (auto simp: error_sent_def)

lemma speak_simple:
  "says wording d' (out_result (handle_login fresh fd name d))"
  "says wording d' (out_result (handle_logout fd d))"
  "says wording d' (out_result (handle_users fd d))"
  "says wording d' (out_result (handle_user fd u d))"
  "says wording d' (out_result (handle_send now fd u b d))"
  "says wording d' (out_result (handle_messages fd u d))"
  by (auto simp: handle_login_def handle_logout_def handle_users_def handle_user_def handle_send_def handle_messages_def
      is_uuid36_def append_fixed_def Let_def intro!: speak split: option.split prod.split)

lemma speak_subscriptions:
  "says wording d' (out_result (handle_subscribe fd u d))"
  "says wording d' (out_result (handle_unsubscribe fd u d))"
  "says wording d' (out_result (handle_subscribed_teams fd d))"
  "says wording d' (out_result (handle_subscribed_users fd u d))"
  by (auto simp: handle_subscribe_def handle_unsubscribe_def handle_subscribed_teams_def handle_subscribed_users_def
      is_uuid36_def append_fixed_def Let_def intro!: speak split: option.split)

lemma speak_use: "says wording d' (out_result (handle_use fd p d))"
  by (auto simp: handle_use_def use_none_def use_team_def use_channel_def use_thread_def
      append_fixed_def length_use_uuid Let_def intro!: speak split: option.split list.split)

text \<open>
  The handlers that work on the selected place have branches that send an unknown place without
  its UUID. They are never taken: what a session has selected exists.
\<close>

lemma speak_places:
  assumes "wf_data d"
  shows "says wording d' (out_result (handle_list fd d))" and "says wording d' (out_result (handle_info fd d))"
proof -
  have "says wording d' (out_result (handle_list fd d)) \<and> says wording d' (out_result (handle_info fd d))"
  proof (cases "omap_find (sessions d) fd")
    case (Some s)
    obtain ctx where ctx: "omap_find (client_contexts d) fd = Some ctx" "ctx_valid d ctx"
      using wf_context_of_session[OF assms Some] by metis
    note levels = handle_list_levels[OF Some ctx(1)] handle_info_levels[OF Some ctx(1)]
    show ?thesis using ctx(2) by (cases rule: ctx_valid_cases) (simp_all add: levels says_ok)
  qed (auto simp: handle_list_def handle_info_def intro!: speak)
  then show "says wording d' (out_result (handle_list fd d))" "says wording d' (out_result (handle_info fd d))" by simp_all
qed

lemma speak_create:
  assumes "wf_data d"
  shows "says wording d' (out_result (handle_create fresh now fd p d))"
proof (cases "omap_find (sessions d) fd")
  case (Some s)
  obtain ctx where ctx: "omap_find (client_contexts d) fd = Some ctx" "ctx_valid d ctx"
    using wf_context_of_session[OF assms Some] by metis
  show ?thesis
    using ctx(2)
  proof (cases rule: ctx_valid_cases)
    case none
    then show ?thesis by (auto simp: handle_create_def Some ctx(1) create_team_def Let_def intro!: speak)
  next
    case (team ti)
    then show ?thesis
      by (auto simp: handle_create_def Some ctx(1) create_channel_def resolve_team_def Let_def intro!: speak)
  next
    case (channel ti ci)
    then show ?thesis
      by (auto simp: handle_create_def Some ctx(1) create_thread_def resolve_team_def resolve_channel_def Let_def
          intro!: speak split: option.splits)
  next
    case (thread ti ci hi)
    then show ?thesis
      by (auto simp: handle_create_def Some ctx(1) create_reply_def resolve_team_def resolve_channel_def resolve_thread_def
          Let_def intro!: speak split: option.splits)
  qed
qed (auto simp: handle_create_def intro!: speak)

lemma speak_run_command: "wf_data d \<Longrightarrow> says wording d' (out_result (run_command cmd fresh now fd p d))"
  unfolding run_command_def
  by (cases cmd) (simp_all add: speak_simple speak_subscriptions speak_use speak_places speak_create)

end
