(* ===== verification/Backing.thy ===== *)
theory Backing
  imports Layout
begin

text \<open>
  What the server says is so: whatever a client can make of a message the server sends is
  backed by the data the server has at that moment, and stays backed, since data is never
  lost or changed. The theory states what backs each call of the client's logging library,
  shows it of every handler's result, and carries it to the output streams of a reachable
  server.
\<close>

text \<open>The codes stay symbolic here: which message is meant is decided by their injectivity.\<close>

declare response_code.simps [simp del] error_code.simps [simp del] event_code.simps [simp del]

section \<open>What backs a line on the screen\<close>

definition stored_user :: "server_data_t \<Rightarrow> string \<Rightarrow> string \<Rightarrow> bool" where
  "stored_user d u n \<longleftrightarrow> (\<exists>x \<in> set (users d). u = text_of (user_uuid x) \<and> n = text_of (user_name x))"

definition stored_team :: "server_data_t \<Rightarrow> string \<Rightarrow> string \<Rightarrow> string \<Rightarrow> bool" where
  "stored_team d u n desc \<longleftrightarrow> (\<exists>t \<in> set (teams d). u = text_of (team_uuid t) \<and> n = text_of (team_name t)
     \<and> desc = text_of (team_description t))"

definition stored_channel :: "server_data_t \<Rightarrow> string \<Rightarrow> string \<Rightarrow> string \<Rightarrow> bool" where
  "stored_channel d u n desc \<longleftrightarrow> (\<exists>t \<in> set (teams d). \<exists>c \<in> set (team_channels t).
     u = text_of (channel_uuid c) \<and> n = text_of (channel_name c) \<and> desc = text_of (channel_description c))"

definition stored_thread :: "server_data_t \<Rightarrow> string \<Rightarrow> string \<Rightarrow> u64 \<Rightarrow> string \<Rightarrow> string \<Rightarrow> bool" where
  "stored_thread d u cr ts ti b \<longleftrightarrow> (\<exists>t \<in> set (teams d). \<exists>c \<in> set (team_channels t). \<exists>h \<in> set (channel_threads c).
     u = text_of (thread_uuid h) \<and> cr = text_of (thread_creator_uuid h) \<and> ts = thread_timestamp h
     \<and> ti = text_of (thread_title h) \<and> b = text_of (thread_body h))"

definition replied :: "server_data_t \<Rightarrow> (reply_t \<Rightarrow> bool) \<Rightarrow> string \<Rightarrow> bool" where
  "replied d P u \<longleftrightarrow> (\<exists>t \<in> set (teams d). \<exists>c \<in> set (team_channels t). \<exists>h \<in> set (channel_threads c).
     u = text_of (thread_uuid h) \<and> (\<exists>r \<in> set (thread_replies h). P r))"

definition stored_reply :: "server_data_t \<Rightarrow> string \<Rightarrow> string \<Rightarrow> u64 \<Rightarrow> string \<Rightarrow> bool" where
  "stored_reply d u cr ts b \<longleftrightarrow> replied d (\<lambda>r. cr = text_of (reply_creator_uuid r)
     \<and> ts = reply_timestamp r \<and> b = text_of (reply_body r)) u"

text \<open>
  The status of a user and the number of entities are those of the moment, and the team a new
  reply is shown under is the client's own idea of it; everything else a line says is a fact
  of the data.
\<close>

fun backed :: "server_data_t \<Rightarrow> client_call \<Rightarrow> bool" where
  "backed d (client_event_logged_in u n) = stored_user d u n"
| "backed d (client_event_logged_out u n) = stored_user d u n"
| "backed d (client_print_user u n st) = stored_user d u n"
| "backed d (client_print_users u n st) = stored_user d u n"
| "backed d (client_event_private_message_received s b) =
     (\<exists>m \<in> set (messages d). s = text_of (msg_sender_uuid m) \<and> b = text_of (msg_body m))"
| "backed d (client_private_message_print_messages s ts b) =
     (\<exists>m \<in> set (messages d). s = text_of (msg_sender_uuid m) \<and> ts = msg_timestamp m \<and> b = text_of (msg_body m))"
| "backed d (client_event_team_created u n desc) = stored_team d u n desc"
| "backed d (client_print_team_created u n desc) = stored_team d u n desc"
| "backed d (client_print_team u n desc) = stored_team d u n desc"
| "backed d (client_print_teams u n desc) = stored_team d u n desc"
| "backed d (client_event_channel_created u n desc) = stored_channel d u n desc"
| "backed d (client_print_channel_created u n desc) = stored_channel d u n desc"
| "backed d (client_print_channel u n desc) = stored_channel d u n desc"
| "backed d (client_team_print_channels u n desc) = stored_channel d u n desc"
| "backed d (client_event_thread_created u cr ts ti b) = stored_thread d u cr ts ti b"
| "backed d (client_print_thread_created u cr ts ti b) = stored_thread d u cr ts ti b"
| "backed d (client_print_thread u cr ts ti b) = stored_thread d u cr ts ti b"
| "backed d (client_channel_print_threads u cr ts ti b) = stored_thread d u cr ts ti b"
| "backed d (client_event_thread_reply_received tm u cr b) =
     replied d (\<lambda>r. cr = text_of (reply_creator_uuid r) \<and> b = text_of (reply_body r)) u"
| "backed d (client_print_reply_created u cr ts b) = stored_reply d u cr ts b"
| "backed d (client_thread_print_replies u cr ts b) = stored_reply d u cr ts b"
| "backed d (client_print_subscribed u t) = (\<exists>n desc. stored_team d t n desc)"
| "backed d (client_print_unsubscribed u t) = (\<exists>n desc. stored_team d t n desc)"
| "backed d (client_error_unknown_team u) = True"
| "backed d (client_error_unknown_channel u) = True"
| "backed d (client_error_unknown_thread u) = True"
| "backed d (client_error_unknown_user u) = True"
| "backed d client_error_unauthorized = True"
| "backed d client_error_already_exist = True"

text \<open>A line about a subscription shows the user that the client takes itself for: nobody, or a stored one.\<close>

fun identified :: "server_data_t \<Rightarrow> client_call \<Rightarrow> bool" where
  "identified d (client_print_subscribed u t) = (u = [] \<or> (\<exists>n. stored_user d u n))"
| "identified d (client_print_unsubscribed u t) = (u = [] \<or> (\<exists>n. stored_user d u n))"
| "identified d k = True"

lemmas stored_defs = stored_user_def stored_team_def stored_channel_def stored_thread_def replied_def stored_reply_def

section \<open>What is backed stays backed\<close>

lemma users_le: "data_le d e \<Longrightarrow> x \<in> set (users d) \<Longrightarrow> \<exists>y \<in> set (users e). user_le x y"
  unfolding data_le_def by (blast dest: grows_mem)

lemma teams_le: "data_le d e \<Longrightarrow> t \<in> set (teams d) \<Longrightarrow> \<exists>t' \<in> set (teams e). team_le t t'"
  unfolding data_le_def by (blast dest: grows_mem)

lemma channels_le: "team_le t t' \<Longrightarrow> c \<in> set (team_channels t) \<Longrightarrow> \<exists>c' \<in> set (team_channels t'). channel_le c c'"
  unfolding team_le_def by (blast dest: grows_mem)

lemma threads_le: "channel_le c c' \<Longrightarrow> h \<in> set (channel_threads c) \<Longrightarrow> \<exists>h' \<in> set (channel_threads c'). thread_le h h'"
  unfolding channel_le_def by (blast dest: grows_mem)

lemma thread_path_le:
  assumes "data_le d e" and "t \<in> set (teams d)" and "c \<in> set (team_channels t)" and "h \<in> set (channel_threads c)"
  shows "\<exists>t' \<in> set (teams e). \<exists>c' \<in> set (team_channels t'). \<exists>h' \<in> set (channel_threads c'). thread_le h h'"
proof -
  obtain t' where t': "t' \<in> set (teams e)" "team_le t t'" using teams_le[OF assms(1,2)] by blast
  obtain c' where c': "c' \<in> set (team_channels t')" "channel_le c c'" using channels_le[OF t'(2) assms(3)] by blast
  show ?thesis using t'(1) c'(1) threads_le[OF c'(2) assms(4)] by blast
qed

lemma stored_user_le:
  assumes "data_le d e" and "stored_user d u n"
  shows "stored_user e u n"
proof -
  obtain x where x: "x \<in> set (users d)" "u = text_of (user_uuid x)" "n = text_of (user_name x)"
    using assms(2) by (auto simp: stored_user_def)
  obtain y where "y \<in> set (users e)" "user_le x y" using users_le[OF assms(1) x(1)] by blast
  then show ?thesis unfolding stored_user_def using x(2,3) by (intro bexI[of _ y]) (simp_all add: user_le_def)
qed

lemma stored_team_le:
  assumes "data_le d e" and "stored_team d u n desc"
  shows "stored_team e u n desc"
proof -
  obtain t where t: "t \<in> set (teams d)" "u = text_of (team_uuid t)" "n = text_of (team_name t)"
      "desc = text_of (team_description t)"
    using assms(2) by (auto simp: stored_team_def)
  obtain t' where "t' \<in> set (teams e)" "team_le t t'" using teams_le[OF assms(1) t(1)] by blast
  then show ?thesis unfolding stored_team_def using t(2-4) by (intro bexI[of _ t']) (simp_all add: team_le_def)
qed

lemma stored_channel_le:
  assumes "data_le d e" and "stored_channel d u n desc"
  shows "stored_channel e u n desc"
proof -
  obtain t c where t: "t \<in> set (teams d)" "c \<in> set (team_channels t)" "u = text_of (channel_uuid c)"
      "n = text_of (channel_name c)" "desc = text_of (channel_description c)"
    using assms(2) by (auto simp: stored_channel_def)
  obtain t' where t': "t' \<in> set (teams e)" "team_le t t'" using teams_le[OF assms(1) t(1)] by blast
  obtain c' where "c' \<in> set (team_channels t')" "channel_le c c'" using channels_le[OF t'(2) t(2)] by blast
  then show ?thesis unfolding stored_channel_def
    using t(3-5) t'(1) by (intro bexI[of _ t'] bexI[of _ c']) (simp_all add: channel_le_def)
qed

lemma stored_thread_le:
  assumes "data_le d e" and "stored_thread d u cr ts ti b"
  shows "stored_thread e u cr ts ti b"
proof -
  obtain t c h where t: "t \<in> set (teams d)" "c \<in> set (team_channels t)" "h \<in> set (channel_threads c)"
    and h: "u = text_of (thread_uuid h)" "cr = text_of (thread_creator_uuid h)" "ts = thread_timestamp h"
      "ti = text_of (thread_title h)" "b = text_of (thread_body h)"
    using assms(2) by (auto simp: stored_thread_def)
  obtain t' c' h' where "t' \<in> set (teams e)" "c' \<in> set (team_channels t')" "h' \<in> set (channel_threads c')" "thread_le h h'"
    using thread_path_le[OF assms(1) t] by blast
  then show ?thesis unfolding stored_thread_def
    using h by (intro bexI[of _ t'] bexI[of _ c'] bexI[of _ h']) (simp_all add: thread_le_def)
qed

lemma replied_le:
  assumes "data_le d e" and "replied d P u"
  shows "replied e P u"
proof -
  obtain t c h r where t: "t \<in> set (teams d)" "c \<in> set (team_channels t)" "h \<in> set (channel_threads c)"
    and h: "u = text_of (thread_uuid h)" "r \<in> set (thread_replies h)" "P r"
    using assms(2) by (auto simp: replied_def)
  obtain t' c' h' where t': "t' \<in> set (teams e)" "c' \<in> set (team_channels t')" "h' \<in> set (channel_threads c')" "thread_le h h'"
    using thread_path_le[OF assms(1) t] by blast
  have "r \<in> set (thread_replies h')" using t'(4) h(2) set_mono_prefix unfolding thread_le_def by blast
  moreover have "u = text_of (thread_uuid h')" using t'(4) h(1) by (simp add: thread_le_def)
  ultimately show ?thesis unfolding replied_def using t'(1-3) h(3) by blast
qed

lemma messages_le: "data_le d e \<Longrightarrow> m \<in> set (messages d) \<Longrightarrow> m \<in> set (messages e)"
  unfolding data_le_def using set_mono_prefix by blast

lemma backed_le:
  assumes "data_le d e" and "backed d k"
  shows "backed e k"
  using assms(2) stored_user_le[OF assms(1)] stored_team_le[OF assms(1)] stored_channel_le[OF assms(1)]
    stored_thread_le[OF assms(1)] replied_le[OF assms(1)] messages_le[OF assms(1)]
  by (cases k) (auto simp: stored_reply_def, blast+)

lemma identified_le: "data_le d e \<Longrightarrow> identified d k \<Longrightarrow> identified e k"
  using stored_user_le[of d e] by (cases k) (simp_all, blast+)

lemma c_str_stored: "u = [] \<or> (\<exists>n. stored_user d u n) \<Longrightarrow> c_str u = u"
proof -
  have "c_str [] = []" by (simp add: c_str_def bytes_of_def string_of_def cstr_def)
  then show "u = [] \<or> (\<exists>n. stored_user d u n) \<Longrightarrow> c_str u = u" by (auto simp: c_str_def stored_user_def)
qed

lemma calls_identified:
  assumes "cl_user_uuid c = [] \<or> (\<exists>n. stored_user d (cl_user_uuid c) n)"
  shows "\<forall>k \<in> set (response_calls c code p). identified d k"
proof -
  have one: "identified d (read_from_start r)" if "\<And>off. identified d (fst (run_state r off))" for r :: "client_call reader"
    using that by (simp add: read_from_start_def)
  have all: "\<forall>k \<in> set (read_from_start (read_list p r)). identified d k" if "\<And>off. identified d (fst (run_state r off))"
    for r :: "client_call reader" using read_list_all[of "identified d"] that by blast
  show ?thesis
    using assms c_str_stored[OF assms]
    by (auto simp: response_calls_def Let_def reader_defs read_message_def reader_simps simp del: response_code.simps split: if_splits prod.splits
        intro!: one dest!: bspec[OF all, rotated])
qed

section \<open>Messages that tell the truth\<close>

text \<open>Whatever a client, in whatever state, makes of the message is backed.\<close>

definition truthful :: "server_data_t \<Rightarrow> u16 \<Rightarrow> bytes \<Rightarrow> bool" where
  "truthful d code p \<longleftrightarrow> laid_out code p \<and> (\<forall>c. \<forall>k \<in> set (response_calls c code p). backed d k)"

lemma truthful_le: "data_le d e \<Longrightarrow> truthful d code p \<Longrightarrow> truthful e code p"
  unfolding truthful_def using backed_le by blast

text \<open>The client's chain of comparisons at the answers about one entity, and at the errors.\<close>

lemma one_calls:
  "response_calls c (response_code RES_LOGIN_OK) p = [read_from_start (read_uuid_name p client_event_logged_in)]"
  "response_calls c (response_code RES_LOGOUT_OK) p = [read_from_start (read_uuid_name p client_event_logged_out)]"
  "response_calls c (response_code RES_SEND_OK) p = []"
  "response_calls c (response_code RES_SUBSCRIBE_OK) p
     = [client_print_subscribed (c_str (cl_user_uuid c)) (read_from_start (read_fixed p 36))]"
  "response_calls c (response_code RES_UNSUBSCRIBE_OK) p
     = [client_print_unsubscribed (c_str (cl_user_uuid c)) (read_from_start (read_fixed p 36))]"
  "response_calls c (response_code RES_USER_INFO) p = [read_from_start (read_user p client_print_user)]"
  "response_calls c (response_code RES_USER_DETAILS) p
     = [read_from_start (read_uuid_name p (\<lambda>uuid name. client_print_user uuid name (- 1)))]"
  "response_calls c (response_code RES_TEAM_CREATED) p = [read_from_start (read_team p client_print_team_created)]"
  "response_calls c (response_code RES_TEAM_INFO) p = [read_from_start (read_team p client_print_team)]"
  "response_calls c (response_code RES_CHANNEL_CREATED) p = [read_from_start (read_team p client_print_channel_created)]"
  "response_calls c (response_code RES_CHANNEL_INFO) p = [read_from_start (read_team p client_print_channel)]"
  "response_calls c (response_code RES_THREAD_CREATED) p = [read_from_start (read_thread p client_print_thread_created)]"
  "response_calls c (response_code RES_THREAD_INFO) p = [read_from_start (read_thread p client_print_thread)]"
  "response_calls c (response_code RES_REPLY_CREATED) p = [read_from_start (read_reply p client_print_reply_created)]"
  by (simp_all only: response_calls_def Let_def response_code_inj code_families_disjoint response.distinct
      simp_thms if_False if_True)

lemma event_calls:
  "response_calls c (event_code EVT_USER_LOGGED_IN) p = [read_from_start (read_uuid_name p client_event_logged_in)]"
  "response_calls c (event_code EVT_USER_LOGGED_OUT) p = [read_from_start (read_uuid_name p client_event_logged_out)]"
  "response_calls c (event_code EVT_MESSAGE_RECEIVED) p
     = [read_from_start (do { sender \<leftarrow> read_fixed p 36; body \<leftarrow> read_fixed p 512;
          State_Monad.return (client_event_private_message_received sender body) })]"
  "response_calls c (event_code EVT_TEAM_CREATED) p = [read_from_start (read_team p client_event_team_created)]"
  "response_calls c (event_code EVT_CHANNEL_CREATED) p = [read_from_start (read_team p client_event_channel_created)]"
  "response_calls c (event_code EVT_THREAD_CREATED) p = [read_from_start (read_thread p client_event_thread_created)]"
  "response_calls c (event_code EVT_REPLY_CREATED) p = [read_from_start (read_reply p (\<lambda>tuuid cuuid ts body.
      client_event_thread_reply_received (c_str (cl_use_team_uuid c)) tuuid cuuid body))]"
  by (simp_all only: response_calls_def Let_def event_code_inj code_families_disjoint event.distinct
      simp_thms if_False if_True)

lemma truthful_error [simp, intro]: "truthful d (error_code e) p"
  unfolding truthful_def
  by (cases e) (simp_all only: response_calls_def Let_def error_code_inj code_families_disjoint error.distinct
      simp_thms if_False if_True, auto)

section \<open>What each kind of message says\<close>

lemma truthful_user:
  assumes "u \<in> set (users d)" and "wf_user u"
  shows "truthful d (response_code RES_LOGIN_OK) (name_entry u)"
    and "truthful d (response_code RES_LOGOUT_OK) (name_entry u)"
    and "truthful d (response_code RES_USER_DETAILS) (name_entry u)"
    and "truthful d (event_code EVT_USER_LOGGED_IN) (name_entry u)"
    and "truthful d (event_code EVT_USER_LOGGED_OUT) (name_entry u)"
    and "truthful d (response_code RES_USER_INFO) (user_entry e u)"
  using assms by (auto simp: truthful_def one_calls event_calls name_codec.read_one user_codec.read_one
      stored_user_def size_simps)

lemma truthful_users:
  assumes "\<And>u. u \<in> set us \<Longrightarrow> wf_user u \<and> u \<in> set (users d)"
  shows "truthful d (response_code RES_USERS_LIST) (counted (map (user_entry e) us))"
    and "truthful d (response_code RES_SUBSCRIBED_USERS) (counted (map (user_entry e) us))"
proof -
  have "has_layout (Counted 69) (counted (map (user_entry e) us))"
    using assms by (intro counted_has_layout) (auto intro: size_simps)
  then show "truthful d (response_code RES_USERS_LIST) (counted (map (user_entry e) us))"
    "truthful d (response_code RES_SUBSCRIBED_USERS) (counted (map (user_entry e) us))"
    using user_codec.read_counted_set[of us e client_print_users] assms
    by (fastforce simp: truthful_def list_calls counted_def stored_user_def simp del: has_layout.simps)+
qed

lemma truthful_team:
  assumes "t \<in> set (teams d)" and "wf_team ids t"
  shows "truthful d (response_code RES_TEAM_CREATED) (team_info t)"
    and "truthful d (response_code RES_TEAM_INFO) (team_info t)"
    and "truthful d (event_code EVT_TEAM_CREATED) (team_info t)"
    and "truthful d (response_code RES_SUBSCRIBE_OK) (take 36 (team_uuid t))"
    and "truthful d (response_code RES_UNSUBSCRIBE_OK) (take 36 (team_uuid t))"
proof -
  have "read_from_start (read_fixed (take 36 (team_uuid t)) 36) = text_of (team_uuid t)"
    using assms(2) by (simp add: read_from_start_def wf_team_def codec_simps)
  moreover have "stored_team d (text_of (team_uuid t)) (text_of (team_name t)) (text_of (team_description t))"
    using assms(1) by (auto simp: stored_team_def)
  ultimately show "truthful d (response_code RES_SUBSCRIBE_OK) (take 36 (team_uuid t))"
    and "truthful d (response_code RES_UNSUBSCRIBE_OK) (take 36 (team_uuid t))"
    using assms(2) by (auto simp: truthful_def one_calls wf_team_def valid_uuid_length)
qed (use assms in \<open>auto simp: truthful_def one_calls event_calls team_codec.read_one stored_team_def size_simps\<close>)

lemma truthful_teams:
  assumes "\<And>t. t \<in> set ts \<Longrightarrow> wf_team ids t \<and> t \<in> set (teams d)"
  shows "truthful d (response_code RES_LIST_TEAMS) (counted (map team_info ts))"
    and "truthful d (response_code RES_SUBSCRIBED_TEAMS) (counted (map team_info ts))"
proof -
  have "has_layout (Counted 323) (counted (map team_info ts))"
    using assms by (intro counted_has_layout) (auto intro: size_simps)
  then show "truthful d (response_code RES_LIST_TEAMS) (counted (map team_info ts))"
    "truthful d (response_code RES_SUBSCRIBED_TEAMS) (counted (map team_info ts))"
    using team_codec.read_counted_set[of ts ids client_print_teams] assms
    by (fastforce simp: truthful_def list_calls counted_def stored_team_def simp del: has_layout.simps)+
qed

lemma truthful_channel:
  assumes "t \<in> set (teams d)" and "c \<in> set (team_channels t)" and "wf_channel ids c"
  shows "truthful d (response_code RES_CHANNEL_CREATED) (channel_info c)"
    and "truthful d (response_code RES_CHANNEL_INFO) (channel_info c)"
    and "truthful d (event_code EVT_CHANNEL_CREATED) (channel_info c)"
  using assms by (auto simp: truthful_def one_calls event_calls channel_codec.read_one stored_channel_def size_simps)

lemma truthful_channels:
  assumes "t \<in> set (teams d)" and "\<And>c. c \<in> set (team_channels t) \<Longrightarrow> wf_channel ids c"
  shows "truthful d (response_code RES_LIST_CHANNELS) (counted (map channel_info (team_channels t)))"
proof -
  have "has_layout (Counted 323) (counted (map channel_info (team_channels t)))"
    using assms by (intro counted_has_layout) (auto intro: size_simps)
  then show ?thesis
    using channel_codec.read_counted_set[of "team_channels t" ids client_team_print_channels] assms
    by (fastforce simp: truthful_def list_calls counted_def stored_channel_def simp del: has_layout.simps)
qed

lemma truthful_thread:
  assumes "t \<in> set (teams d)" and "c \<in> set (team_channels t)" and "h \<in> set (channel_threads c)" and "wf_thread ids h"
  shows "truthful d (response_code RES_THREAD_CREATED) (thread_info h)"
    and "truthful d (response_code RES_THREAD_INFO) (thread_info h)"
    and "truthful d (event_code EVT_THREAD_CREATED) (thread_info h)"
  using assms by (auto simp: truthful_def one_calls event_calls thread_codec.read_one stored_thread_def size_simps)

lemma truthful_threads:
  assumes "t \<in> set (teams d)" and "c \<in> set (team_channels t)" and "\<And>h. h \<in> set (channel_threads c) \<Longrightarrow> wf_thread ids h"
  shows "truthful d (response_code RES_LIST_THREADS) (counted (map thread_info (channel_threads c)))"
proof -
  have "has_layout (Counted 624) (counted (map thread_info (channel_threads c)))"
    using assms by (intro counted_has_layout) (auto intro: size_simps)
  then show ?thesis
    using thread_codec.read_counted_set[of "channel_threads c" ids client_channel_print_threads] assms
    by (fastforce simp: truthful_def list_calls counted_def stored_thread_def simp del: has_layout.simps)
qed

lemma reply_info_uuid: "take 36 tid = take 36 (thread_uuid h) \<Longrightarrow> reply_info tid = reply_info (thread_uuid h)"
  by (simp add: reply_info_def fun_eq_iff)

lemma truthful_reply:
  assumes "t \<in> set (teams d)" and "c \<in> set (team_channels t)" and "h \<in> set (channel_threads c)" and "wf_thread ids h"
    and "r \<in> set (thread_replies h)" and "take 36 tid = take 36 (thread_uuid h)"
  shows "truthful d (response_code RES_REPLY_CREATED) (reply_info tid r)"
    and "truthful d (event_code EVT_REPLY_CREATED) (reply_info tid r)"
  using assms(1-5) unfolding reply_info_uuid[OF assms(6)]
  by (auto simp: truthful_def one_calls event_calls reply_codec.read_one[where ids = ids] wf_thread_def
      stored_reply_def replied_def size_simps valid_uuid_length)

lemma truthful_replies:
  assumes "t \<in> set (teams d)" and "c \<in> set (team_channels t)" and "h \<in> set (channel_threads c)" and "wf_thread ids h"
    and "take 36 tid = take 36 (thread_uuid h)"
  shows "truthful d (response_code RES_LIST_REPLIES) (counted (map (reply_info tid) (thread_replies h)))"
proof -
  have "has_layout (Counted 592) (counted (map (reply_info (thread_uuid h)) (thread_replies h)))"
    using assms(4) by (intro counted_has_layout) (auto simp: size_simps wf_thread_def valid_uuid_length)
  then show ?thesis
    using reply_codec.read_counted_set[of "thread_replies h" "thread_uuid h" ids client_thread_print_replies] assms(1-4)
    unfolding reply_info_uuid[OF assms(5)]
    by (fastforce simp: truthful_def list_calls counted_def wf_thread_def stored_reply_def replied_def
        simp del: has_layout.simps)
qed

lemma private_event_calls:
  assumes "wf_message ids m"
  shows "response_calls c (event_code EVT_MESSAGE_RECEIVED) (take 36 (msg_sender_uuid m) @ msg_body m)
    = [client_event_private_message_received (text_of (msg_sender_uuid m)) (text_of (msg_body m))]"
  using assms by (simp add: event_calls read_from_start_def wf_message_def codec_simps)

lemma truthful_private:
  assumes "m \<in> set (messages d)" and "wf_message ids m"
  shows "truthful d (event_code EVT_MESSAGE_RECEIVED) (take 36 (msg_sender_uuid m) @ msg_body m)"
  using assms by (auto simp: truthful_def private_event_calls wf_message_def valid_uuid_length)

lemma private_list_calls:
  assumes "\<And>m. m \<in> set ms \<Longrightarrow> wf_message ids m"
  shows "set (response_calls c (response_code RES_MESSAGES_LIST) (counted (map message_entry ms)))
    \<subseteq> (\<lambda>m. client_private_message_print_messages (text_of (msg_sender_uuid m)) (msg_timestamp m) (text_of (msg_body m)))
        ` set ms"
  using message_codec.read_counted_set[of ms ids] assms by (simp add: list_calls counted_def)

lemma truthful_messages:
  assumes "\<And>m. m \<in> set ms \<Longrightarrow> wf_message ids m \<and> m \<in> set (messages d)"
  shows "truthful d (response_code RES_MESSAGES_LIST) (counted (map message_entry ms))"
proof -
  have "has_layout (Counted 592) (counted (map message_entry ms))"
    using assms by (intro counted_has_layout) (auto intro: size_simps)
  then show ?thesis
    using private_list_calls[of ms ids] assms by (fastforce simp: truthful_def simp del: has_layout.simps)
qed

section \<open>Every handler tells the truth\<close>

text \<open>The result of an operation, judged by the data it leaves behind.\<close>

abbreviation tells :: "outcome \<Rightarrow> bool" where
  "tells r \<equiv> says truthful (out_data r) (out_result r)"

lemma tells_fail [simp, intro]: "tells (fail e p d)"
  by auto

lemma wf_user_mem: "wf_data d \<Longrightarrow> u \<in> set (users d) \<Longrightarrow> wf_user u"
  by (simp add: wf_data_def wf_users_def)

lemma wf_team_mem: "wf_data d \<Longrightarrow> t \<in> set (teams d) \<Longrightarrow> wf_team (user_ids d) t"
  by (simp add: wf_data_def wf_teams_def)

lemma tells_users:
  assumes "wf_data d"
  shows "tells (handle_users fd d)" and "tells (handle_user fd u d)"
proof -
  show "tells (handle_users fd d)"
    using truthful_users(1)[of "users d" d d] wf_user_mem[OF assms]
    by (auto simp: handle_users_def users_payload append_u32_layout counted_def)
  show "tells (handle_user fd u d)"
  proof (cases "is_logged_in d fd \<and> is_uuid36 u")
    case True
    then show ?thesis
      using truthful_user(6)[of _ d d] wf_user_mem[OF assms] find_user_by_uuidD(1)[of d u]
      by (auto simp: handle_user_def append_user_entry split: option.split)
  qed (auto simp: handle_user_def)
qed

lemma login_payload_entry: "login_payload u = name_entry u"
  by (simp add: login_payload_def name_entry_def append_uuid36_def append_name32_def append_fixed_def)

lemma tells_login:
  assumes "wf_data d" and "fresh_uuid fresh d"
  shows "tells (handle_login fresh fd name d)"
proof -
  obtain d1 i logs where l: "login_user fresh fd (trim_padded_name name) d = (d1, i, logs)"
    by (metis prod_cases3)
  let ?d = "login_session fd i d1"
  let ?u = "users ?d ! i"
  have i: "i < length (users ?d)" using login_user_frame(5)[OF l] by simp
  have out: "out_data (handle_login fresh fd name d) = ?d"
    by (simp add: handle_login_def l Let_def)
  have wf: "wf_user ?u" using wf_handle_login[OF assms, of fd name] i unfolding out by (rule wf_user_nth)
  note u = truthful_user(1,4)[OF nth_mem[OF i] wf]
  show ?thesis
    unfolding out using u
    by (auto simp: handle_login_def l Let_def login_payload_entry)
qed

lemma tells_logout:
  assumes "wf_data d"
  shows "tells (handle_logout fd d)"
proof (cases "omap_find (sessions d) fd")
  case (Some s)
  let ?d = "logout_session fd s d"
  obtain i where i: "i < length (users d)" "cstr (user_uuid (users d ! i)) = s" "wf_user (users d ! i)"
      "find_user_by_uuid d s = Some i"
    using wf_session_user[OF assms Some] by metis
  have s: "length s = 36" "take 36 (user_uuid (users d ! i)) = s"
    using find_user_by_uuidD[OF i(4)] by simp_all
  have f: "find_idx (\<lambda>u. take 36 (user_uuid u) = s) (users d) = Some i"
    using i(4) s(1) by (simp add: find_user_by_uuid_def is_uuid36_def)
  have pay: "logout_payload d s = name_entry (users d ! i)"
    using s f by (simp add: logout_payload_def name_entry_def append_name32_def append_fixed_def)
  let ?u = "users ?d ! i"
  have u: "user_uuid ?u = user_uuid (users d ! i)" "user_name ?u = user_name (users d ! i)" "?u \<in> set (users ?d)"
    using f i(1) by (simp_all add: logout_session_def set_update_memI)
  have entry: "name_entry ?u = name_entry (users d ! i)" and wf: "wf_user ?u"
    using u(1,2) i(3) by (simp_all add: name_entry_def wf_user_def)
  show ?thesis
    using truthful_user(2,5)[OF u(3) wf] unfolding entry
    by (auto simp: handle_logout_def Some Let_def pay)
qed (simp add: handle_logout_def)

lemma tells_send:
  assumes "wf_data d"
  shows "tells (handle_send now fd r body d)"
proof (cases "omap_find (sessions d) fd")
  case (Some s)
  show ?thesis
  proof (cases "find_user_by_uuid d r")
    case (Some i)
    note r = find_user_by_uuidD[OF Some]
    let ?m = "make_private_message s r body now" and ?d = "d\<lparr>messages := messages d @ [make_private_message s r body now]\<rparr>"
    have out: "out_data (handle_send now fd r body d) = ?d"
      using \<open>omap_find (sessions d) fd = Some s\<close> Some r(3) by (simp add: handle_send_def is_uuid36_def Let_def)
    have m: "?m \<in> set (messages ?d)" "wf_message (user_ids ?d) ?m"
      using wf_handle_send[OF assms, of now fd r body] unfolding out by (auto simp: wf_data_def wf_messages_def)
    have len: "length s = 36" using wf_session_uuid(1)[OF assms \<open>omap_find (sessions d) fd = Some s\<close>] by (simp add: valid_uuid36_def)
    have ok: "truthful ?d (response_code RES_SEND_OK) []" by (simp add: truthful_def one_calls)
    have "truthful ?d (event_code EVT_MESSAGE_RECEIVED) (take 36 s @ take 512 (msg_body ?m))"
      using truthful_private[OF m] len r(3) by (simp add: length_make_private_message_body)
    then show ?thesis
      using \<open>omap_find (sessions d) fd = Some s\<close> Some r(3) ok
      by (auto simp: handle_send_def is_uuid36_def Let_def append_fixed_def)
  qed (use Some in \<open>simp add: handle_send_def\<close>)
qed (simp add: handle_send_def)

lemma tells_messages:
  assumes "wf_data d"
  shows "tells (handle_messages fd u d)"
proof (cases "omap_find (sessions d) fd")
  case (Some s)
  have "truthful d (response_code RES_MESSAGES_LIST) (counted (map message_entry (filter (between s u) (messages d))))"
    using assms by (intro truthful_messages) (auto simp: wf_data_def wf_messages_def)
  then show ?thesis
    using Some by (auto simp: handle_messages_def messages_payload append_u32_layout counted_def Let_def)
qed (simp add: handle_messages_def)

lemma tells_subscriptions:
  assumes "wf_data d"
  shows "tells (handle_subscribe fd u d)" and "tells (handle_unsubscribe fd u d)"
    and "tells (handle_subscribed_teams fd d)" and "tells (handle_subscribed_users fd u d)"
proof -
  have team: "truthful d (response_code RES_SUBSCRIBE_OK) (take 36 (team_uuid (teams d ! i)))"
      "truthful d (response_code RES_UNSUBSCRIBE_OK) (take 36 (team_uuid (teams d ! i)))"
    if "find_team_by_uuid d u = Some i" for i
    using truthful_team(4,5)[OF nth_mem wf_team_nth[OF assms]] find_team_by_uuidD(1)[OF that] by blast+
  note member = team[THEN truthful_le[OF set_members_le]]
  show "tells (handle_subscribe fd u d)"
    using team(1) member(1)
    by (auto simp: handle_subscribe_def Let_def append_fixed_def split: option.split)
  show "tells (handle_unsubscribe fd u d)"
    using member(2)
    by (auto simp: handle_unsubscribe_def Let_def append_fixed_def split: option.split)
  show "tells (handle_subscribed_teams fd d)"
  proof (cases "omap_find (sessions d) fd")
    case (Some s)
    have "truthful d (response_code RES_SUBSCRIBED_TEAMS)
        (counted (map team_info (filter (\<lambda>t. is_subscribed_to t s) (teams d))))"
      using wf_team_mem[OF assms] by (intro truthful_teams) auto
    then show ?thesis
      using Some by (auto simp: handle_subscribed_teams_def teams_payload append_u32_layout counted_def Let_def
          team_entry_info[abs_def])
  qed (simp add: handle_subscribed_teams_def)
  show "tells (handle_subscribed_users fd u d)"
  proof -
    have "v \<in> set (users d) \<and> wf_user v" if "v \<in> set (subscribed_users d t)" for v t
    proof -
      from that obtain i m where "find_user_by_uuid d m = Some i" "v = users d ! i"
        by (auto simp: subscribed_users_def List.map_filter_def)
      then show ?thesis using find_user_by_uuidD(1)[of d m i] wf_user_mem[OF assms] by simp
    qed
    then have "truthful d (response_code RES_SUBSCRIBED_USERS) (counted (map (user_entry d) (subscribed_users d t)))" for t
      by (intro truthful_users) blast
    then show ?thesis
      by (auto simp: handle_subscribed_users_def users_payload append_u32_layout counted_def Let_def
          split: option.split)
  qed
qed

lemma user_details_entry:
  assumes "wf_data d" and "omap_find (sessions d) fd = Some s"
  obtains u where "u \<in> set (users d)" and "wf_user u" and "user_details d s = name_entry u"
proof -
  obtain i where i: "i < length (users d)" "wf_user (users d ! i)" "find_user_by_uuid d s = Some i"
    using wf_session_user[OF assms] by metis
  then have "user_details d s = name_entry (users d ! i)"
    by (simp add: user_details_def name_entry_def append_uuid36_def append_name32_def append_fixed_def)
  then show thesis using that[of "users d ! i"] i(1,2) by simp
qed

text \<open>The nodes a valid context leads to.\<close>

lemma resolved_channel:
  assumes "wf_data d" and "resolve_channel d c = Some (i, j)"
  shows "teams d ! i \<in> set (teams d)" and "team_channels (teams d ! i) ! j \<in> set (team_channels (teams d ! i))"
    and "wf_channel (user_ids d) (team_channels (teams d ! i) ! j)"
proof -
  show t: "teams d ! i \<in> set (teams d)" "team_channels (teams d ! i) ! j \<in> set (team_channels (teams d ! i))"
    using resolve_channelD[OF assms(2)] by auto
  show "wf_channel (user_ids d) (team_channels (teams d ! i) ! j)"
    using wf_team_mem[OF assms(1) t(1)] t(2) by (simp add: wf_team_def)
qed

lemma resolved_thread:
  assumes "wf_data d" and "resolve_thread d c = Some (i, j, k)"
  defines "ch \<equiv> team_channels (teams d ! i) ! j"
  shows "teams d ! i \<in> set (teams d)" and "ch \<in> set (team_channels (teams d ! i))"
    and "channel_threads ch ! k \<in> set (channel_threads ch)"
    and "wf_thread (user_ids d) (channel_threads ch ! k)"
    and "take 36 (ctx_thread_uuid c) = take 36 (thread_uuid (channel_threads ch ! k))"
proof -
  note k = resolve_threadD[OF assms(2)]
  have r: "resolve_channel d c = Some (i, j)" using k by simp
  note c = resolved_channel[OF assms(1) r, folded ch_def]
  show "teams d ! i \<in> set (teams d)" "ch \<in> set (team_channels (teams d ! i))" by (fact c)+
  show h: "channel_threads ch ! k \<in> set (channel_threads ch)" using k by (simp add: ch_def)
  show "wf_thread (user_ids d) (channel_threads ch ! k)" using c(3) h by (simp add: wf_channel_def)
  have "find_thread_by_uuid ch (take 36 (ctx_thread_uuid c)) = Some k" using k by (simp add: ch_def)
  then show "take 36 (ctx_thread_uuid c) = take 36 (thread_uuid (channel_threads ch ! k))"
    using find_thread_by_uuidD(2) by metis
qed

lemma tells_info:
  assumes "wf_data d"
  shows "tells (handle_info fd d)"
proof (cases "omap_find (sessions d) fd")
  case (Some s)
  obtain ctx where ctx: "omap_find (client_contexts d) fd = Some ctx" "ctx_valid d ctx"
    using wf_context_of_session[OF assms Some] by metis
  note levels = handle_info_levels[OF Some ctx(1)]
  show ?thesis
    using ctx(2)
  proof (cases rule: ctx_valid_cases)
    case none
    obtain u where "u \<in> set (users d)" "wf_user u" "user_details d s = name_entry u"
      using user_details_entry[OF assms Some] .
    then show ?thesis using levels(1)[OF none] truthful_user(3)[of u d] by auto
  next
    case (team ti)
    then show ?thesis
      using levels(2)[OF team] truthful_team(2)[OF _ wf_team_nth[OF assms]] resolve_teamD[OF team(2)] by auto
  next
    case (channel ti ci)
    note c = resolved_channel[OF assms channel(2)]
    show ?thesis using levels(3)[OF channel] truthful_channel(2)[OF c] by auto
  next
    case (thread ti ci hi)
    note h = resolved_thread[OF assms thread(2)]
    show ?thesis using levels(4)[OF thread] truthful_thread(2)[OF h(1-4)] by auto
  qed
qed (simp add: handle_info_def)

lemma tells_list:
  assumes "wf_data d"
  shows "tells (handle_list fd d)"
proof (cases "omap_find (sessions d) fd")
  case (Some s)
  obtain ctx where ctx: "omap_find (client_contexts d) fd = Some ctx" "ctx_valid d ctx"
    using wf_context_of_session[OF assms Some] by metis
  note levels = handle_list_levels[OF Some ctx(1), unfolded list_items_counted]
  show ?thesis
    using ctx(2)
  proof (cases rule: ctx_valid_cases)
    case none
    have "truthful d (response_code RES_LIST_TEAMS) (counted (map team_info (teams d)))"
      using wf_team_mem[OF assms] by (intro truthful_teams) blast
    then show ?thesis using levels(1)[OF none] by auto
  next
    case (team ti)
    have t: "teams d ! ti \<in> set (teams d)" using resolve_teamD[OF team(2)] by simp
    have "wf_channel (user_ids d) c" if "c \<in> set (team_channels (teams d ! ti))" for c
      using wf_team_mem[OF assms t] that by (simp add: wf_team_def)
    then show ?thesis using levels(2)[OF team] truthful_channels[OF t] by auto
  next
    case (channel ti ci)
    note c = resolved_channel[OF assms channel(2)]
    have "wf_thread (user_ids d) h" if "h \<in> set (channel_threads (team_channels (teams d ! ti) ! ci))" for h
      using c(3) that by (simp add: wf_channel_def)
    then show ?thesis using levels(3)[OF channel] truthful_threads[OF c(1,2)] by auto
  next
    case (thread ti ci hi)
    note h = resolved_thread[OF assms thread(2)]
    show ?thesis using levels(4)[OF thread] truthful_replies[OF h] by auto
  qed
qed (simp add: handle_list_def)

text \<open>An error says nothing about the data.\<close>

lemma tells_refused:
  assumes "refused r" and "framed_result (out_result r)" and "res_pushes (out_result r) = []"
  shows "tells r"
  using assms
  by (auto simp: refused_def framed_result_def framed_def says_def says_packet_def)

lemma handle_use_pushes: "res_pushes (out_result (handle_use fd p d)) = []"
  by (simp add: handle_use_def use_none_def use_team_def use_channel_def use_thread_def Let_def
      split: option.split list.split)

text \<open>\<open>/use\<close> answers with what \<open>/info\<close> shows next.\<close>

lemma tells_use:
  assumes "wf_data d"
  shows "tells (handle_use fd p d)"
proof (cases "omap_find (sessions d) fd")
  case (Some s)
  show ?thesis
  proof (cases "refused (handle_use fd p d)")
    case False
    note same = handle_use_info[OF Some False]
    have "tells (handle_info fd (out_data (handle_use fd p d)))"
      using assms by (intro tells_info wf_handle_use)
    then show ?thesis unfolding same by (simp add: handle_info_data)
  qed (auto intro: tells_refused simp: framed_use handle_use_pushes)
qed (simp add: handle_use_def)

text \<open>An updated node is in the updated tree.\<close>

lemma upd_mem:
  "i < length (teams d) \<Longrightarrow> x = f (teams d ! i) \<Longrightarrow> x \<in> set (teams (upd_team i f d))"
  "j < length (team_channels t) \<Longrightarrow> y = g (team_channels t ! j) \<Longrightarrow> y \<in> set (team_channels (upd_channel j g t))"
  "k < length (channel_threads c) \<Longrightarrow> z = h (channel_threads c ! k) \<Longrightarrow> z \<in> set (channel_threads (upd_thread k h c))"
  by (simp_all add: upd_team_def upd_channel_def upd_thread_def set_update_memI)

lemma tells_create:
  assumes "wf_data d" and "fresh_uuid fresh d"
  shows "tells (handle_create fresh now fd p d)"
proof (cases "omap_find (sessions d) fd")
  case (Some s)
  obtain ctx where ctx: "omap_find (client_contexts d) fd = Some ctx" "ctx_valid d ctx"
    using wf_context_of_session[OF assms(1) Some] by metis
  let ?r = "handle_create fresh now fd p d"
  have wf: "wf_data (out_data ?r)" by (rule wf_handle_create[OF assms])
  have pushed: "tells ?r"
    if "out_result ?r = add_push (make_push (event_code e) blk fds) (ok c blk)"
      and "truthful (out_data ?r) (response_code c) blk" and "truthful (out_data ?r) (event_code e) blk" for e c blk fds
    unfolding that(1) using that(2,3) by auto
  note run = handle_create_def Some ctx(1)
  show ?thesis
    using ctx(2)
  proof (cases rule: ctx_valid_cases)
    case none
    then have r: "?r = create_team fresh s p d" by (simp add: run)
    show ?thesis
    proof (cases rule: create_team_cases[of fresh s p d])
      case created
      let ?t = "new_team fresh s p"
      have d: "out_data ?r = d\<lparr>teams := teams d @ [?t]\<rparr>" unfolding r created(2) by simp
      have t: "?t \<in> set (teams (out_data ?r))" unfolding d by simp
      note tt = truthful_team(1,3)[OF t wf_team_mem[OF wf t]]
      show ?thesis by (rule pushed[OF _ tt]) (simp add: r created(2))
    qed (simp add: r)
  next
    case (team ti)
    then have r: "?r = create_channel fresh s ctx p d" by (simp add: run)
    show ?thesis
    proof (cases rule: create_channel_cases[of fresh s ctx p d])
      case (created ti)
      let ?c = "new_channel fresh p"
      have i: "ti < length (teams d)" using resolve_teamD[OF created(2)] .
      have d: "out_data ?r = upd_team ti (\<lambda>t. t\<lparr>team_channels := team_channels t @ [?c]\<rparr>) d"
        unfolding r created(4) by simp
      let ?t = "teams (out_data ?r) ! ti"
      have t: "?t \<in> set (teams (out_data ?r))" "?c \<in> set (team_channels ?t)"
        unfolding d using i by (simp_all add: upd_mem)
      have c: "wf_channel (user_ids (out_data ?r)) ?c"
        using wf_team_mem[OF wf t(1)] t(2) by (simp add: wf_team_def)
      note tt = truthful_channel(1,3)[OF t c]
      show ?thesis by (rule pushed[OF _ tt]) (simp add: r created(4))
    qed (simp add: r)
  next
    case (channel ti ci)
    then have r: "?r = create_thread fresh now s ctx p d" by (simp add: run)
    show ?thesis
    proof (cases rule: create_thread_cases[of fresh now s ctx p d])
      case (created ti ci)
      let ?h = "new_thread fresh now s p"
      have i: "ti < length (teams d)" "ci < length (team_channels (teams d ! ti))"
        using resolve_channelD[OF created(2)] by simp_all
      have d: "out_data ?r = upd_team ti (upd_channel ci (\<lambda>c. c\<lparr>channel_threads := channel_threads c @ [?h]\<rparr>)) d"
        unfolding r created(4) by simp
      let ?t = "teams (out_data ?r) ! ti" and ?c = "team_channels (teams (out_data ?r) ! ti) ! ci"
      have t: "?t \<in> set (teams (out_data ?r))" "?c \<in> set (team_channels ?t)" "?h \<in> set (channel_threads ?c)"
        unfolding d using i by (simp_all add: upd_mem)
      have h: "wf_thread (user_ids (out_data ?r)) ?h"
        using wf_team_mem[OF wf t(1)] t(2,3) by (simp add: wf_team_def wf_channel_def)
      note tt = truthful_thread(1,3)[OF t h]
      show ?thesis by (rule pushed[OF _ tt]) (simp add: r created(4))
    qed (simp add: r)
  next
    case (thread ti ci hi)
    then have r: "?r = create_reply fresh now s ctx p d" by (simp add: run)
    show ?thesis
    proof (cases rule: create_reply_cases[of fresh now s ctx p d])
      case (created ti ci hi)
      let ?e = "new_reply fresh now s p"
      note i = resolve_threadD[OF created(2)]
      have d: "out_data ?r = upd_team ti (upd_channel ci (upd_thread hi
          (\<lambda>t. t\<lparr>thread_replies := thread_replies t @ [?e]\<rparr>))) d"
        unfolding r created(4) by simp
      let ?t = "teams (out_data ?r) ! ti" and ?c = "team_channels (teams (out_data ?r) ! ti) ! ci"
        and ?h = "channel_threads (team_channels (teams (out_data ?r) ! ti) ! ci) ! hi"
      have j: "ti < length (teams d)" "ci < length (team_channels (teams d ! ti))"
        using resolve_channelD[of d ctx ti ci] i by simp_all
      have t: "?t \<in> set (teams (out_data ?r))" "?c \<in> set (team_channels ?t)" "?h \<in> set (channel_threads ?c)"
          "?e \<in> set (thread_replies ?h)"
        unfolding d using i j by (simp_all add: upd_mem)
      have h: "wf_thread (user_ids (out_data ?r)) ?h"
        using wf_team_mem[OF wf t(1)] t(2,3) by (simp add: wf_team_def wf_channel_def)
      have "take 36 (ctx_thread_uuid ctx) = take 36 (thread_uuid ?h)"
        unfolding d using resolved_thread(5)[OF assms(1) created(2)] i j by simp
      note tt = truthful_reply[OF t(1-3) h t(4) this]
      show ?thesis by (rule pushed[OF _ tt]) (simp add: r created(4))
    qed (simp add: r)
  qed
qed (simp add: handle_create_def)

section \<open>What the server has said is true\<close>

lemma tells_run_command:
  assumes "wf_data d" and "fresh_uuid fresh d"
  shows "tells (run_command cmd fresh now fd p d)"
  unfolding run_command_def
  by (cases cmd)
    (simp_all add: tells_login[OF assms] tells_logout tells_users tells_send tells_messages tells_subscriptions
      tells_use tells_create[OF assms] tells_list tells_info assms(1) del: fail_sel)

text \<open>True, and of a length that fits the header if the data is small. The verdict speaks about
  runs over which libuuid works.\<close>

definition sound :: verdict where
  "sound d c p \<longleftrightarrow> (truthful d c p \<and> fits d c p) \<and> wording d c p"

lemma sound_run_command:
  assumes "wf_data d" and "fresh_uuid fresh d"
  shows "says sound (out_data (run_command cmd fresh now fd p d)) (out_result (run_command cmd fresh now fd p d))"
  using says_conj[OF says_conj[OF tells_run_command[OF assms] sized_run_command[OF assms(1)]] speak_run_command[OF assms(1)]]
  unfolding sound_def[abs_def] .

lemma sound_logout: "wf_data d \<Longrightarrow> says sound (out_data (handle_logout fd d)) (out_result (handle_logout fd d))"
  using says_conj[OF says_conj[OF tells_logout sized_logout] speak_simple(2)] unfolding sound_def[abs_def] .

lemma wording_le: "wording d c p \<Longrightarrow> wording e c p"
  by (simp add: wording_def)

interpretation true: output_contract gen "data_ok gen" "\<lambda>d c p. good_gen gen N \<longrightarrow> sound d c p" N for gen N
proof (unfold_locales, goal_cases)
  case (1 d e c p)
  then show ?case unfolding sound_def using truthful_le fits_le wording_le by blast
next
  case (2 err d)
  then show ?case by (auto simp: sound_def)
next
  case (3 k d cmd now fd p)
  show ?case
  proof (cases "good_gen gen N")
    case True
    with 3 have "wf_data d" "fresh_uuid (gen k) d" using data_ok_fresh good_gen_mono[of gen N "Suc k"] by auto
    then show ?thesis using sound_run_command True by simp
  qed (simp add: says_framed framed_run_command)
next
  case (4 k d fd)
  show ?case
  proof (cases "good_gen gen N")
    case True
    with 4 have "wf_data d" using good_gen_mono[of gen N k] by (auto simp: data_ok_def)
    then show ?thesis using sound_logout True by simp
  qed (simp add: says_framed framed_logout)
qed

lemma stream_sound:
  assumes "reachable env sv" and "good_gen (env_uuid env) (sv_ticks sv)" and "connected sv fd"
  shows "said sound (sv_data sv) (sv_sent sv fd)"
  using true.stream[OF refl data_ok0 assms(1,3) le_refl] assms(2) by simp

lemma extends_sound:
  assumes "reachable env sv" and "server_step env sv sv'" and "good_gen (env_uuid env) (sv_ticks sv')"
    and "connected sv t" and "connected sv' t"
  shows "extends sound sv sv' t"
  using true.extends_step[OF refl ok.reachable[OF refl data_ok0 assms(1)] le_refl consistent_reachable[OF assms(1)] assms(2,4,5)]
    assms(3) by simp

end
