(* ===== verification/Client_Net.thy ===== *)
theory Client_Net
  imports Client_Response Framing
begin

text \<open>
  The client's input side and main loop (src/client/Network.cpp, stdin_handling.cpp,
  Client.cpp, Constructor.cpp). The framing loop has no size limit and ignores whether the
  client is still running; lines from the terminal are parsed and dispatched one by one.
\<close>

section \<open>From the server\<close>

definition cl_split :: "bytes \<Rightarrow> (byte, u16 \<times> bytes) split" where
  "cl_split buf =
     (if length buf < 6 then Incomplete
      else let code = ntohs host (load16 host buf);
               psize = ntohl host (load32 host (drop 2 buf))
           in if length buf < 6 + unat psize then Incomplete
              else Frame (code, take (unat psize) (drop 6 buf)) (drop (6 + unat psize) buf))"

lemma cl_split_def2:
  "cl_split buf =
     (if length buf < 6 then Incomplete
      else let n = unat (of_be32 (drop 2 buf))
           in if length buf < 6 + n then Incomplete
              else Frame (of_be16 buf, take n (drop 6 buf)) (drop (6 + n) buf))"
  by (auto simp: cl_split_def Let_def ntohs_load16 ntohl_load32)

lemma cl_split_shrink: "cl_split b = Frame f r \<Longrightarrow> length r < length b"
  by (auto simp: cl_split_def2 Let_def split: if_splits)

lemma cl_split_not_Reject: "cl_split b \<noteq> Reject"
  by (simp add: cl_split_def Let_def)

interpretation cl: frame_splitter cl_split
proof
  fix b more :: bytes and f r
  show "cl_split b = Frame f r \<Longrightarrow> length r < length b"
    by (rule cl_split_shrink)
  show "cl_split b = Frame f r \<Longrightarrow> cl_split (b @ more) = Frame f (r @ more)"
    by (auto simp: cl_split_def2 Let_def of_be_prefix split: if_splits)
  show "cl_split b = Reject \<Longrightarrow> cl_split (b @ more) = Reject"
    by (auto simp: cl_split_def2 Let_def split: if_splits)
qed

function cl_process_recv_buffer :: "client \<Rightarrow> client" where
  "cl_process_recv_buffer c =
     (case cl_split (cl_recv_buf c) of
        Frame (code, payload) rest \<Rightarrow>
          cl_process_recv_buffer (handle_response code payload (c\<lparr>cl_recv_buf := rest\<rparr>))
      | _ \<Rightarrow> c)"
  by pat_completeness auto
termination
  by (relation "measure (\<lambda>c. length (cl_recv_buf c))") (auto dest: cl_split_shrink)

declare cl_process_recv_buffer.simps [simp del]

text \<open>\<open>read\<close> on the socket; \<open>None\<close> is a result \<open>n <= 0\<close>.\<close>

definition handle_server_read :: "bytes option \<Rightarrow> client \<Rightarrow> client" where
  "handle_server_read n c =
     (case n of
        None \<Rightarrow> tell [CL_print ''Server disconnected.''] c\<lparr>cl_running := False\<rparr>
      | Some tmp \<Rightarrow> cl_process_recv_buffer (c\<lparr>cl_recv_buf := cl_recv_buf c @ tmp\<rparr>))"

section \<open>From the terminal\<close>

definition NEWLINE :: char where "NEWLINE = CHR 0x0A"

definition handle_line :: "(nat \<Rightarrow> int) \<Rightarrow> string \<Rightarrow> client \<Rightarrow> client" where
  "handle_line net line c =
     (if line = [] then c
      else let cmd = parse_line line
           in if \<not> pc_valid cmd then tell [CL_print (''Parse error: '' @ pc_error cmd)] c
              else client_dispatch net cmd c)"

lemma send_packet_stdin: "cl_stdin_buf (handle_line net line c) = cl_stdin_buf c"
proof -
  have "cl_stdin_buf (client_dispatch net cmd c) = cl_stdin_buf c" for cmd
    by (simp add: client_dispatch_def Let_def simple_cmd_defs cmd_help_def usage_def cmd_create_def
        cmd_use_def split: list.split use_level.split)
  then show ?thesis by (simp add: handle_line_def Let_def)
qed

function stdin_lines :: "(nat \<Rightarrow> int) \<Rightarrow> client \<Rightarrow> client" where
  "stdin_lines net c =
     (case find_idx (\<lambda>ch. ch = NEWLINE) (cl_stdin_buf c) of
        None \<Rightarrow> c
      | Some pos \<Rightarrow>
          stdin_lines net (handle_line net (take pos (cl_stdin_buf c))
            (c\<lparr>cl_stdin_buf := drop (pos + 1) (cl_stdin_buf c)\<rparr>)))"
  by pat_completeness auto
termination
  by (relation "measure (\<lambda>(net, c). length (cl_stdin_buf c))")
    (auto simp: send_packet_stdin dest: find_idx_SomeD)

declare stdin_lines.simps [simp del]

definition handle_stdin :: "(nat \<Rightarrow> int) \<Rightarrow> string option \<Rightarrow> client \<Rightarrow> client" where
  "handle_stdin net n c =
     (case n of
        None \<Rightarrow> c\<lparr>cl_running := False\<rparr>
      | Some buf \<Rightarrow> stdin_lines net (c\<lparr>cl_stdin_buf := cl_stdin_buf c @ buf\<rparr>))"

section \<open>Connecting and running\<close>

text \<open>\<open>_connect\<close>: the results of \<open>socket\<close>, \<open>inet_pton\<close> and \<open>connect\<close> and the text of \<open>errno\<close>
  are arguments; \<open>exit(84)\<close> is the left case.\<close>

definition connect :: "string \<Rightarrow> int \<Rightarrow> int \<Rightarrow> int \<Rightarrow> string \<Rightarrow> string + client" where
  "connect ip sock pton_ret connect_ret strerror =
     (if sock < 0 then Inl (''socket: '' @ strerror)
      else if pton_ret \<le> 0 then Inl (''Invalid IP address: '' @ ip)
      else if connect_ret < 0 then Inl (''connect: '' @ strerror)
      else Inr (client0\<lparr>cl_fd := sock\<rparr>))"

record client_ready =
  cr_stdin_in :: bool
  cr_stdin_read :: "string option"
  cr_sock_out :: bool
  cr_sock_in :: bool
  cr_sock_read :: "bytes option"
  cr_sock_hup :: bool

definition client_round :: "(nat \<Rightarrow> int) \<Rightarrow> client_ready \<Rightarrow> client \<Rightarrow> client" where
  "client_round net r c =
     (let c1 = (if cr_stdin_in r then handle_stdin net (cr_stdin_read r) c else c);
          c2 = (if cr_sock_out r then handle_server_write net c1 else c1);
          c3 = (if cr_sock_in r then handle_server_read (cr_sock_read r) c2 else c2)
      in if cr_sock_hup r
         then tell [CL_print ''Server disconnected.''] c3\<lparr>cl_running := False\<rparr> else c3)"

text \<open>How \<open>poll\<close> can end; a signal only restarts it.\<close>

datatype client_wakeup = CW_eintr | CW_failed string | CW_ready client_ready

text \<open>The loop over the wake-ups: left with the client as it is then, or still waiting after the last.\<close>

datatype client_end = Left_loop client | In_loop client

fun client_loop :: "(nat \<Rightarrow> int) \<Rightarrow> client_wakeup list \<Rightarrow> client \<Rightarrow> client_end" where
  "client_loop net [] c = (if cl_running c then In_loop c else Left_loop c)"
| "client_loop net (w # ws) c =
     (if \<not> cl_running c then Left_loop c
      else case w of
        CW_eintr \<Rightarrow> client_loop net ws c
      | CW_failed err \<Rightarrow> Left_loop (tell [CL_print (''poll: '' @ err)] c)
      | CW_ready r \<Rightarrow> client_loop net ws (client_round net r c))"

definition client_run :: "(nat \<Rightarrow> int) \<Rightarrow> client_wakeup list \<Rightarrow> client \<Rightarrow> client_end" where
  "client_run net ws c = client_loop net ws (c\<lparr>cl_running := True\<rparr>)"

section \<open>The receive loop is a fold of responses\<close>

definition respond :: "(u16 \<times> bytes) list \<Rightarrow> client \<Rightarrow> client" where
  "respond fs c = fold (\<lambda>(code, payload). handle_response code payload) fs c"

lemma respond_simps [simp]:
  "respond [] c = c" "respond ((k, p) # fs) c = respond fs (handle_response k p c)"
  "respond (fs @ gs) c = respond gs (respond fs c)"
  by (simp_all add: respond_def)

lemma response_calls_recv [simp]: "response_calls (c\<lparr>cl_recv_buf := b\<rparr>) code p = response_calls c code p"
  by (simp add: response_calls_def)

lemma respond_recv_buf [simp]: "cl_recv_buf (respond fs c) = cl_recv_buf c"
  by (induction fs arbitrary: c) auto

lemma recv_buf_same: "cl_recv_buf c = b \<Longrightarrow> c\<lparr>cl_recv_buf := b\<rparr> = c"
  by simp

lemma handle_response_recv:
  "handle_response code p (c\<lparr>cl_recv_buf := b\<rparr>) = handle_response code p c\<lparr>cl_recv_buf := b\<rparr>"
  by (simp add: handle_response_def calls_def tell_def Let_def)

lemma respond_recv: "respond fs (c\<lparr>cl_recv_buf := b\<rparr>) = respond fs c\<lparr>cl_recv_buf := b\<rparr>"
  by (induction fs arbitrary: c) (auto simp: handle_response_recv)

lemma cl_process_respond:
  "cl_process_recv_buffer c =
     (case frames cl_split (cl_recv_buf c) of (fs, rest, _) \<Rightarrow> respond fs c\<lparr>cl_recv_buf := rest\<rparr>)"
proof (induction c rule: cl_process_recv_buffer.induct)
  case (1 c)
  show ?case
  proof (cases "cl_split (cl_recv_buf c)")
    case (Frame f r)
    obtain k p where f: "f = (k, p)" by force
    have "cl_process_recv_buffer c
        = cl_process_recv_buffer (handle_response k p (c\<lparr>cl_recv_buf := r\<rparr>))"
      by (subst cl_process_recv_buffer.simps) (simp add: Frame f)
    then show ?thesis
      using 1[OF Frame f[symmetric]] Frame f
      by (simp add: cl.frames_Frame handle_response_recv respond_recv split: prod.splits)
  qed (simp_all add: cl_process_recv_buffer.simps[of c] cl.frames_Incomplete cl.frames_Reject)
qed

lemma handle_server_read_respond:
  "handle_server_read (Some bs) c =
     (case frames cl_split (cl_recv_buf c @ bs) of (fs, rest, _) \<Rightarrow> respond fs c\<lparr>cl_recv_buf := rest\<rparr>)"
  by (simp add: handle_server_read_def cl_process_respond respond_recv split: prod.splits)

lemma cl_split_message:
  assumes "length p < 2 ^ 32"
  shows "cl_split (make_message c p @ rest) = Frame (c, p) rest"
proof -
  have "unat (word_of_nat (length p) :: u32) = length p"
    using assms by (simp add: unat_of_nat take_bit_nat_eq_self)
  then show ?thesis
    by (simp add: cl_split_def2 make_message_layout Let_def)
qed

lemma cl_frames_messages:
  "(\<And>m. m \<in> set ms \<Longrightarrow> length (snd m) < 2 ^ 32) \<Longrightarrow>
     frames cl_split (concat (map (\<lambda>(c, p). make_message c p) ms)) = (ms, [], False)"
proof (induction ms)
  case Nil
  have "cl_split [] = Incomplete" by (simp add: cl_split_def)
  then show ?case by (simp add: cl.frames_Incomplete)
next
  case (Cons m ms)
  obtain c p where m: "m = (c, p)" by force
  have "cl_split (concat (map (\<lambda>(c, p). make_message c p) (m # ms)))
      = Frame m (concat (map (\<lambda>(c, p). make_message c p) ms))"
    using Cons.prems[of m] m by (simp add: cl_split_message)
  then show ?case
    using Cons.IH Cons.prems by (simp add: cl.frames_Frame)
qed

text \<open>However the server's messages were cut into reads, the client answers to them in order.\<close>

lemma cl_reads:
  assumes "\<And>m. m \<in> set ms \<Longrightarrow> length (snd m) < 2 ^ 32"
    and "concat chunks = concat (map (\<lambda>(c, p). make_message c p) ms)" and "chunks \<noteq> []"
    and "cl_recv_buf c = []"
  shows "fold (\<lambda>b. handle_server_read (Some b)) chunks c = respond ms c"
proof -
  have "fold (\<lambda>b. handle_server_read (Some b)) chunks c
      = (case frames cl_split (cl_recv_buf c @ concat chunks) of (fs, rest, _) \<Rightarrow> respond fs c\<lparr>cl_recv_buf := rest\<rparr>)"
    using assms(3)
  proof (induction chunks rule: rev_nonempty_induct)
    case (snoc b bs)
    obtain fs rest bad where fr: "frames cl_split (cl_recv_buf c @ concat bs) = (fs, rest, bad)"
      by (metis prod_cases3)
    have "\<not> bad"
      using cl.frames_end[OF fr] cl_split_not_Reject by (auto split: if_splits)
    have "fold (\<lambda>b. handle_server_read (Some b)) (bs @ [b]) c
        = handle_server_read (Some b) (respond fs c\<lparr>cl_recv_buf := rest\<rparr>)"
      using snoc.IH fr by simp
    also have "\<dots> = (case frames cl_split (rest @ b) of
        (gs, rest', _) \<Rightarrow> respond gs (respond fs c)\<lparr>cl_recv_buf := rest'\<rparr>)"
      by (simp add: handle_server_read_respond respond_recv split: prod.splits)
    finally show ?case
      using cl.frames_more[OF fr, of b] \<open>\<not> bad\<close> by (simp split: prod.splits)
  qed (simp add: handle_server_read_respond)
  also have "\<dots> = respond ms c\<lparr>cl_recv_buf := []\<rparr>"
    using cl_frames_messages[OF assms(1)] assms(2,4) by simp
  also have "\<dots> = respond ms c"
    using assms(4) by (intro recv_buf_same) simp
  finally show ?thesis .
qed

section \<open>The terminal's lines\<close>

text \<open>A line is a frame ended by a newline: how the terminal's input was cut into reads does not
  matter either.\<close>

definition line_split :: "string \<Rightarrow> (char, string) split" where
  "line_split buf =
     (case find_idx (\<lambda>ch. ch = NEWLINE) buf of
        None \<Rightarrow> Incomplete
      | Some pos \<Rightarrow> Frame (take pos buf) (drop (pos + 1) buf))"

interpretation line: frame_splitter line_split
proof
  fix b more :: string and f r
  show "line_split b = Frame f r \<Longrightarrow> length r < length b"
    by (auto simp: line_split_def dest: find_idx_SomeD split: option.splits)
  show "line_split b = Frame f r \<Longrightarrow> line_split (b @ more) = Frame f (r @ more)"
    by (auto simp: line_split_def find_idx_append dest: find_idx_SomeD split: option.splits)
  show "line_split b = Reject \<Longrightarrow> line_split (b @ more) = Reject"
    by (auto simp: line_split_def split: option.splits)
qed

definition handle_lines :: "(nat \<Rightarrow> int) \<Rightarrow> string list \<Rightarrow> client \<Rightarrow> client" where
  "handle_lines net ls c = fold (handle_line net) ls c"

lemma send_packet_message:
  "send_packet net k p c =
     handle_server_write net (c\<lparr>cl_send_buf := cl_send_buf c @ make_message (command_code k) p\<rparr>)"
  by (simp add: send_packet_def make_message_def Let_def)

lemma stdin_last:
  "c\<lparr>cl_stdin_buf := b, cl_send_buf := x\<rparr> = c\<lparr>cl_send_buf := x, cl_stdin_buf := b\<rparr>"
  "c\<lparr>cl_stdin_buf := b, cl_use_level := l, cl_use_team_uuid := t, cl_use_channel_uuid := ch,
     cl_use_thread_uuid := th\<rparr>
   = c\<lparr>cl_use_level := l, cl_use_team_uuid := t, cl_use_channel_uuid := ch,
     cl_use_thread_uuid := th, cl_stdin_buf := b\<rparr>"
  by simp_all

lemma stdin_commutes:
  "tell es (c\<lparr>cl_stdin_buf := b\<rparr>) = tell es c\<lparr>cl_stdin_buf := b\<rparr>"
  "usage ps (c\<lparr>cl_stdin_buf := b\<rparr>) = usage ps c\<lparr>cl_stdin_buf := b\<rparr>"
  "handle_server_write net (c\<lparr>cl_stdin_buf := b\<rparr>) = handle_server_write net c\<lparr>cl_stdin_buf := b\<rparr>"
  by (simp_all add: tell_def usage_def handle_server_write_def Let_def)

lemma send_stdin_commutes:
  "send_packet net k p (c\<lparr>cl_stdin_buf := b\<rparr>) = send_packet net k p c\<lparr>cl_stdin_buf := b\<rparr>"
  by (simp add: send_packet_message stdin_last(1) stdin_commutes(3))

lemma use_stdin_commutes:
  "cmd_use net cmd (c\<lparr>cl_stdin_buf := b\<rparr>) = cmd_use net cmd c\<lparr>cl_stdin_buf := b\<rparr>"
  by (simp add: cmd_use_def stdin_last(2) stdin_commutes send_stdin_commutes split: list.split)

lemma create_stdin_commutes:
  "cmd_create net cmd (c\<lparr>cl_stdin_buf := b\<rparr>) = cmd_create net cmd c\<lparr>cl_stdin_buf := b\<rparr>"
  by (cases "cl_use_level c") (simp_all add: cmd_create_def stdin_commutes send_stdin_commutes)

lemma simple_stdin_commutes:
  "cmd_help (c\<lparr>cl_stdin_buf := b\<rparr>) = cmd_help c\<lparr>cl_stdin_buf := b\<rparr>"
  "cmd_login net cmd (c\<lparr>cl_stdin_buf := b\<rparr>) = cmd_login net cmd c\<lparr>cl_stdin_buf := b\<rparr>"
  "cmd_logout net cmd (c\<lparr>cl_stdin_buf := b\<rparr>) = cmd_logout net cmd c\<lparr>cl_stdin_buf := b\<rparr>"
  "cmd_users net cmd (c\<lparr>cl_stdin_buf := b\<rparr>) = cmd_users net cmd c\<lparr>cl_stdin_buf := b\<rparr>"
  "cmd_user net cmd (c\<lparr>cl_stdin_buf := b\<rparr>) = cmd_user net cmd c\<lparr>cl_stdin_buf := b\<rparr>"
  "cmd_send net cmd (c\<lparr>cl_stdin_buf := b\<rparr>) = cmd_send net cmd c\<lparr>cl_stdin_buf := b\<rparr>"
  "cmd_messages net cmd (c\<lparr>cl_stdin_buf := b\<rparr>) = cmd_messages net cmd c\<lparr>cl_stdin_buf := b\<rparr>"
  "cmd_subscribe net cmd (c\<lparr>cl_stdin_buf := b\<rparr>) = cmd_subscribe net cmd c\<lparr>cl_stdin_buf := b\<rparr>"
  "cmd_subscribed net cmd (c\<lparr>cl_stdin_buf := b\<rparr>) = cmd_subscribed net cmd c\<lparr>cl_stdin_buf := b\<rparr>"
  "cmd_unsubscribe net cmd (c\<lparr>cl_stdin_buf := b\<rparr>) = cmd_unsubscribe net cmd c\<lparr>cl_stdin_buf := b\<rparr>"
  "cmd_list net cmd (c\<lparr>cl_stdin_buf := b\<rparr>) = cmd_list net cmd c\<lparr>cl_stdin_buf := b\<rparr>"
  "cmd_info net cmd (c\<lparr>cl_stdin_buf := b\<rparr>) = cmd_info net cmd c\<lparr>cl_stdin_buf := b\<rparr>"
  by (simp_all add: simple_cmd_defs cmd_help_def stdin_commutes send_stdin_commutes)

lemma dispatch_stdin_commutes:
  "client_dispatch net cmd (c\<lparr>cl_stdin_buf := b\<rparr>) = client_dispatch net cmd c\<lparr>cl_stdin_buf := b\<rparr>"
  by (simp only: client_dispatch_def Let_def if_distrib[where f = "\<lambda>x. x\<lparr>cl_stdin_buf := b\<rparr>"]
      simple_stdin_commutes use_stdin_commutes create_stdin_commutes stdin_commutes)

lemma handle_line_stdin:
  "handle_line net l (c\<lparr>cl_stdin_buf := b\<rparr>) = handle_line net l c\<lparr>cl_stdin_buf := b\<rparr>"
  by (simp add: handle_line_def Let_def dispatch_stdin_commutes stdin_commutes)

lemma handle_lines_simps [simp]:
  "handle_lines net [] c = c" "handle_lines net (l # ls) c = handle_lines net ls (handle_line net l c)"
  "handle_lines net (ls @ ks) c = handle_lines net ks (handle_lines net ls c)"
  by (simp_all add: handle_lines_def)

lemma handle_lines_stdin:
  "handle_lines net ls (c\<lparr>cl_stdin_buf := b\<rparr>) = handle_lines net ls c\<lparr>cl_stdin_buf := b\<rparr>"
  "cl_stdin_buf (handle_lines net ls c) = cl_stdin_buf c"
  by (induction ls arbitrary: c) (simp_all add: handle_line_stdin send_packet_stdin)

lemma stdin_lines_frames:
  "stdin_lines net c =
     (case frames line_split (cl_stdin_buf c) of (ls, rest, _) \<Rightarrow> handle_lines net ls c\<lparr>cl_stdin_buf := rest\<rparr>)"
proof (induction net c rule: stdin_lines.induct)
  case (1 net c)
  show ?case
  proof (cases "find_idx (\<lambda>ch. ch = NEWLINE) (cl_stdin_buf c)")
    case None
    then have "line_split (cl_stdin_buf c) = Incomplete" by (simp add: line_split_def)
    with None show ?thesis by (simp add: stdin_lines.simps[of net c] line.frames_Incomplete)
  next
    case (Some pos)
    then have "line_split (cl_stdin_buf c)
        = Frame (take pos (cl_stdin_buf c)) (drop (Suc pos) (cl_stdin_buf c))"
      by (simp add: line_split_def)
    with 1[OF Some] Some show ?thesis
      by (simp add: stdin_lines.simps[of net c] line.frames_Frame handle_line_stdin handle_lines_stdin
          send_packet_stdin split: prod.splits)
  qed
qed

lemma handle_stdin_frames:
  "handle_stdin net (Some buf) c =
     (case frames line_split (cl_stdin_buf c @ buf) of
        (ls, rest, _) \<Rightarrow> handle_lines net ls c\<lparr>cl_stdin_buf := rest\<rparr>)"
  by (simp add: handle_stdin_def stdin_lines_frames handle_lines_stdin split: prod.splits)

text \<open>Input read in two pieces is input read at once.\<close>

lemma handle_stdin_append:
  "handle_stdin net (Some b) (handle_stdin net (Some a) c) = handle_stdin net (Some (a @ b)) c"
proof -
  obtain ls rest bad where fr: "frames line_split (cl_stdin_buf c @ a) = (ls, rest, bad)"
    by (metis prod_cases3)
  have "\<not> bad"
    using line.frames_end[OF fr] by (auto simp: line_split_def split: if_splits option.splits)
  with line.frames_more[OF fr, of b] fr show ?thesis
    by (simp add: handle_stdin_frames handle_lines_stdin split: prod.splits)
qed

section \<open>What the terminal can cause\<close>

text \<open>The calls of the logging library in a trace.\<close>

fun calls_made :: "client_io list \<Rightarrow> client_call list" where
  "calls_made [] = []"
| "calls_made (CL_call k # es) = k # calls_made es"
| "calls_made (CL_write bs # es) = calls_made es"
| "calls_made (CL_print s # es) = calls_made es"

lemma calls_made_append [simp]: "calls_made (es @ fs) = calls_made es @ calls_made fs"
  by (induction es rule: calls_made.induct) auto

lemma calls_made_calls [simp]: "calls_made (map CL_call ks) = ks"
  by (induction ks) auto

lemma print_trace [simp]: "calls_made (map CL_print ls) = []" "written (map CL_print ls) = []"
  by (induction ls) auto

text \<open>A sequence of requests the server accepts, in which no name to log in under is too long.\<close>

definition requests :: "(command \<times> bytes) list \<Rightarrow> bytes" where
  "requests qs = concat (map (\<lambda>(k, p). make_message (command_code k) p) qs)"

definition acceptable :: "(command \<times> bytes) list \<Rightarrow> bool" where
  "acceptable qs \<longleftrightarrow> (\<forall>(k, p) \<in> set qs. length p \<le> 65535 \<and> (k = CMD_LOGIN \<longrightarrow> length p \<le> 32))"

text \<open>
  The client asks the server for something, or prints something itself; it does not touch
  what it knows from the server.
\<close>

definition asks :: "client \<Rightarrow> client \<Rightarrow> bool" where
  "asks c c' \<longleftrightarrow> (\<exists>es qs. cl_trace c' = cl_trace c @ es \<and> calls_made es = []
     \<and> cl_recv_buf c' = cl_recv_buf c \<and> cl_user_uuid c' = cl_user_uuid c
     \<and> cl_sent c' = cl_sent c @ requests qs \<and> acceptable qs)"

lemma asksI:
  assumes "cl_trace c' = cl_trace c @ es" and "calls_made es = []" and "cl_recv_buf c' = cl_recv_buf c"
    and "cl_user_uuid c' = cl_user_uuid c" and "cl_sent c' = cl_sent c @ requests qs" and "acceptable qs"
  shows "asks c c'"
  using assms unfolding asks_def by blast

lemma asks_trans: "asks a b \<Longrightarrow> asks b c \<Longrightarrow> asks a c"
proof -
  assume "asks a b" "asks b c"
  then obtain es qs es' qs' where
    "cl_trace b = cl_trace a @ es" "calls_made es = []" "cl_recv_buf b = cl_recv_buf a" "cl_user_uuid b = cl_user_uuid a"
    "cl_sent b = cl_sent a @ requests qs" "acceptable qs"
    "cl_trace c = cl_trace b @ es'" "calls_made es' = []" "cl_recv_buf c = cl_recv_buf b" "cl_user_uuid c = cl_user_uuid b"
    "cl_sent c = cl_sent b @ requests qs'" "acceptable qs'"
    by (auto simp: asks_def)
  then show "asks a c"
    by (intro asksI[where es = "es @ es'" and qs = "qs @ qs'"]) (auto simp: requests_def acceptable_def)
qed

lemma asks_same:
  assumes "cl_trace c' = cl_trace c" and "cl_recv_buf c' = cl_recv_buf c" and "cl_user_uuid c' = cl_user_uuid c"
    and "cl_send_buf c' = cl_send_buf c"
  shows "asks c c'"
  using assms by (intro asksI[where es = "[]" and qs = "[]"]) (simp_all add: requests_def acceptable_def cl_sent_def)

lemma asks_print: "asks c (tell (map CL_print ls) c)"
  by (rule asksI[where es = "map CL_print ls" and qs = "[]"])
    (simp_all add: requests_def acceptable_def cl_sent_def)

lemma asks_write: "asks c (handle_server_write net c)"
proof -
  have "\<exists>es. cl_trace (handle_server_write net c) = cl_trace c @ es \<and> calls_made es = []"
    by (auto simp: handle_server_write_def Let_def tell_def)
  moreover have "cl_user_uuid (handle_server_write net c) = cl_user_uuid c"
    by (simp add: handle_server_write_def Let_def tell_def)
  ultimately show ?thesis
    using handle_server_write_sent[of net c] by (auto simp: requests_def acceptable_def intro!: asksI[where qs = "[]"])
qed

lemma asks_send:
  assumes "length p \<le> 65535" and "k = CMD_LOGIN \<longrightarrow> length p \<le> 32"
  shows "asks c (send_packet net k p c)"
proof (rule asks_trans[OF _ asks_write[of _ net], of _ "c\<lparr>cl_send_buf := cl_send_buf c @ make_message (command_code k) p\<rparr>",
      folded send_packet_message])
  show "asks c (c\<lparr>cl_send_buf := cl_send_buf c @ make_message (command_code k) p\<rparr>)"
    using assms by (intro asksI[where es = "[]" and qs = "[(k, p)]"]) (simp_all add: requests_def acceptable_def cl_sent_def)
qed

lemma asks_usage: "asks c (usage ps c)"
  using asks_print[of c "[concat ps]"] by (simp add: usage_def)

lemma asks_use: "asks c (cmd_use net cmd c)"
proof -
  have moved: "asks c (send_packet net k p (c\<lparr>cl_use_level := l, cl_use_team_uuid := t, cl_use_channel_uuid := ch, cl_use_thread_uuid := th\<rparr>))"
    if "length p \<le> 65535" and "k \<noteq> CMD_LOGIN" for k p l t ch th
    by (rule asks_trans[OF asks_same asks_send]) (use that in simp_all)
  show ?thesis unfolding cmd_use_def by (auto intro!: moved asks_usage split: list.split)
qed

lemma asks_simple:
  "asks c (cmd_login net cmd c)" "asks c (cmd_logout net cmd c)" "asks c (cmd_users net cmd c)"
  "asks c (cmd_user net cmd c)" "asks c (cmd_send net cmd c)" "asks c (cmd_messages net cmd c)"
  "asks c (cmd_subscribe net cmd c)" "asks c (cmd_subscribed net cmd c)" "asks c (cmd_unsubscribe net cmd c)"
  "asks c (cmd_list net cmd c)" "asks c (cmd_info net cmd c)" "asks c (cmd_create net cmd c)" "asks c (cmd_help c)"
  using asks_print[of c help_lines]
  by (simp_all add: simple_cmd_defs cmd_create_def cmd_help_def asks_send asks_usage split: use_level.split)

lemma asks_dispatch: "asks c (client_dispatch net cmd c)"
proof (cases "pc_name cmd \<in> set command_names")
  case True
  then show ?thesis
    unfolding command_names_def list.set
    by (elim insertE emptyE; simp only: client_dispatch_names asks_simple asks_use)
next
  case False
  then show ?thesis
    using asks_print[of c "[''Unknown command: /'' @ pc_name cmd @ ''. Type /help for help.'']"]
    by (simp add: client_dispatch_unknown)
qed

lemma asks_line: "asks c (handle_line net line c)"
  using asks_dispatch asks_print[of c "[''Parse error: '' @ pc_error (parse_line line)]"] asks_same[of c c]
  by (simp add: handle_line_def Let_def)

lemma asks_lines: "asks c (handle_lines net ls c)"
  by (induction ls arbitrary: c) (auto intro: asks_same asks_trans[OF asks_line])

lemma asks_stdin: "asks c (handle_stdin net n c)"
proof (cases n)
  case None
  then show ?thesis by (simp add: handle_stdin_def asks_same)
next
  case (Some buf)
  obtain ls rest bad where "frames line_split (cl_stdin_buf c @ buf) = (ls, rest, bad)" by (metis prod_cases3)
  then have "handle_stdin net n c = handle_lines net ls c\<lparr>cl_stdin_buf := rest\<rparr>" by (simp add: Some handle_stdin_frames)
  moreover have "asks (handle_lines net ls c) (handle_lines net ls c\<lparr>cl_stdin_buf := rest\<rparr>)" by (simp add: asks_same)
  ultimately show ?thesis using asks_trans[OF asks_lines] by metis
qed

lemma handle_stdin_recv_buf: "cl_recv_buf (handle_stdin net n c) = cl_recv_buf c"
  using asks_stdin[of c net n] by (auto simp: asks_def)

end
