(* ===== verification/Network.thy ===== *)
theory Network
  imports Backing Client_Net
begin

text \<open>
  The whole service: one server, any number of clients, and between each client and the server
  two streams of bytes in flight. A step is one readiness event of the server's loop, one round
  of a client's loop, or a new connection; the network delivers the bytes of a stream in order
  and in pieces of any size. The invariants say what is in flight, what a client has shown and
  what it may still ask.
\<close>

declare response_code.simps [simp del] error_code.simps [simp del] event_code.simps [simp del] command_code.simps [simp del]

section \<open>State\<close>

text \<open>A client, the descriptor of its connection at the server as long as the server keeps it,
  and the bytes on their way up to the server and down to the client.\<close>

record link =
  lk_fd :: "int option"
  lk_client :: client
  lk_up :: bytes
  lk_down :: bytes

record network =
  nw_server :: server
  nw_links :: "link list"

definition network0 :: "int \<Rightarrow> network" where
  "network0 sfd = \<lparr>nw_server = server0 sfd\<lparr>sv_running := True\<rparr>, nw_links = []\<rparr>"

section \<open>Bytes that change hands\<close>

text \<open>What the server has written on a descriptor between two states, and what a client has written.\<close>

definition server_wrote :: "int \<Rightarrow> server \<Rightarrow> server \<Rightarrow> bytes" where
  "server_wrote fd sv sv' = written_on fd (drop (length (sv_trace sv)) (sv_trace sv')) []"

definition client_wrote :: "client \<Rightarrow> client \<Rightarrow> bytes" where
  "client_wrote c c' = written (drop (length (cl_trace c)) (cl_trace c'))"

text \<open>The bytes a readiness event takes off a stream.\<close>

definition server_takes :: "readiness \<Rightarrow> bytes" where
  "server_takes r = (if rv_error r \<or> \<not> rv_pollin r then [] else case rv_read r of None \<Rightarrow> [] | Some bs \<Rightarrow> bs)"

definition client_takes :: "client_ready \<Rightarrow> bytes" where
  "client_takes r = (if \<not> cr_sock_in r then [] else case cr_sock_read r of None \<Rightarrow> [] | Some bs \<Rightarrow> bs)"

text \<open>What a step of the server means for a link: its output is in flight, and it may have closed
  the connection.\<close>

definition carry :: "server \<Rightarrow> server \<Rightarrow> link \<Rightarrow> link" where
  "carry sv sv' lk = (case lk_fd lk of
      None \<Rightarrow> lk
    | Some fd \<Rightarrow> lk\<lparr>lk_fd := (if connected sv' fd then Some fd else None),
                   lk_down := lk_down lk @ server_wrote fd sv sv'\<rparr>)"

definition serve_link :: "env \<Rightarrow> nat \<Rightarrow> int \<Rightarrow> readiness \<Rightarrow> network \<Rightarrow> network" where
  "serve_link env i fd r nw =
     (let sv' = service env fd r (nw_server nw);
          lks = (nw_links nw)[i := (nw_links nw ! i)\<lparr>lk_up := drop (length (server_takes r)) (lk_up (nw_links nw ! i))\<rparr>]
      in \<lparr>nw_server = sv', nw_links = map (carry (nw_server nw) sv') lks\<rparr>)"

definition turn_link :: "(nat \<Rightarrow> int) \<Rightarrow> nat \<Rightarrow> client_ready \<Rightarrow> network \<Rightarrow> network" where
  "turn_link net i r nw =
     (let lk = nw_links nw ! i; c' = client_round net r (lk_client lk)
      in nw\<lparr>nw_links := (nw_links nw)[i := lk\<lparr>lk_client := c',
            lk_up := lk_up lk @ client_wrote (lk_client lk) c',
            lk_down := drop (length (client_takes r)) (lk_down lk)\<rparr>]\<rparr>)"

definition join_link :: "int \<Rightarrow> client \<Rightarrow> network \<Rightarrow> network" where
  "join_link fd c nw =
     \<lparr>nw_server = handle_new_connection fd (nw_server nw),
      nw_links = nw_links nw @ [\<lparr>lk_fd = Some fd, lk_client = c\<lparr>cl_running := True\<rparr>, lk_up = [], lk_down = []\<rparr>]\<rparr>"

section \<open>Steps\<close>

text \<open>
  A read gives a nonempty beginning of what is in flight, or reports an end or an error (\<open>None\<close>).
  The kernel gives a new connection a descriptor that is not in use.
\<close>

inductive network_step :: "env \<Rightarrow> network \<Rightarrow> network \<Rightarrow> bool" for env where
  join: "\<not> connected (nw_server nw) fd \<Longrightarrow> 0 \<le> fd \<Longrightarrow> connect ip sock pton_ret connect_ret err = Inr c \<Longrightarrow>
    network_step env nw (join_link fd c nw)"
| serve: "i < length (nw_links nw) \<Longrightarrow> lk_fd (nw_links nw ! i) = Some fd \<Longrightarrow> rv_read r \<noteq> Some [] \<Longrightarrow>
    prefix (server_takes r) (lk_up (nw_links nw ! i)) \<Longrightarrow> network_step env nw (serve_link env i fd r nw)"
| turn: "i < length (nw_links nw) \<Longrightarrow> cl_running (lk_client (nw_links nw ! i)) \<Longrightarrow> cr_sock_read r \<noteq> Some [] \<Longrightarrow>
    prefix (client_takes r) (lk_down (nw_links nw ! i)) \<Longrightarrow> network_step env nw (turn_link net i r nw)"
| sigint: "network_step env nw (nw\<lparr>nw_server := shutdown (nw_server nw)\<rparr>)"

inductive network_reachable :: "env \<Rightarrow> network \<Rightarrow> bool" for env where
  start: "network_reachable env (network0 sfd)"
| step: "network_reachable env nw \<Longrightarrow> network_step env nw nw' \<Longrightarrow> network_reachable env nw'"

inductive_cases network_stepE: "network_step env nw nw'"

text \<open>Seen from the server, this is a run of the server.\<close>

lemma network_server_step:
  assumes "network_step env nw nw'"
  shows "nw_server nw' = nw_server nw \<or> server_step env (nw_server nw) (nw_server nw')"
  using assms by (elim network_stepE)
    (auto simp: join_link_def serve_link_def turn_link_def Let_def intro: server_step.intros)

lemma network_server: "network_reachable env nw \<Longrightarrow> reachable env (nw_server nw)"
proof (induction rule: network_reachable.induct)
  case (start sfd)
  show ?case by (simp add: network0_def reachable.start)
next
  case (step nw nw')
  then show ?case using network_server_step[OF step.hyps(2)] reachable.step by metis
qed

section \<open>What a readiness event does\<close>

text \<open>Logging and closing write nothing.\<close>

fun quiet :: "io_event \<Rightarrow> bool" where
  "quiet (IO_log l) = True"
| "quiet (IO_close f) = True"
| "quiet (IO_accept f) = False"
| "quiet (IO_write f bs) = False"

lemma written_quiet: "list_all quiet es \<Longrightarrow> written_on fd es acc = acc"
proof (induction es)
  case (Cons e es)
  then show ?case by (cases e) auto
qed simp

lemma quiet_logs [simp]: "list_all quiet (map IO_log ls)"
  by (simp add: list_all_iff)

lemma serve_trace: "\<exists>ls. sv_trace (serve env fd fs sv) = sv_trace sv @ map IO_log ls"
proof (induction fs arbitrary: sv)
  case (Cons m fs)
  obtain k p where m: "m = (k, p)" by force
  obtain ls where "sv_trace (serve env fd fs (dispatch env fd k p sv)) = sv_trace (dispatch env fd k p sv) @ map IO_log ls"
    using Cons.IH by blast
  then show ?case by (simp add: m) (metis map_append)
qed simp

lemma read_trace:
  assumes "connected sv fd" and "omap_wf (sv_clients sv)"
  shows "\<exists>es. sv_trace (handle_client_read env fd n sv) = sv_trace sv @ es \<and> list_all quiet es"
proof (cases n)
  case None
  then show ?thesis by (auto simp: handle_client_read_def)
next
  case (Some bs)
  obtain fs rest bad where fr: "frames srv_split (recv_of sv fd @ bs) = (fs, rest, bad)" by (metis prod_cases3)
  obtain ls where "sv_trace (serve env fd fs sv) = sv_trace sv @ map IO_log ls" using serve_trace by blast
  then show ?thesis
    using handle_client_read_serve[OF assms, of env bs] by (auto simp: Some fr)
qed

lemma write_trace:
  assumes "connected sv fd" and "omap_wf (sv_clients sv)"
  shows "\<exists>es. sv_trace (handle_client_write fd n sv) = sv_trace sv @ es
    \<and> (list_all quiet es \<or> (\<exists>bs. es = [IO_write fd bs]) \<and> connected (handle_client_write fd n sv) fd)"
  using assms by (auto simp: handle_client_write_def Let_def upd_client_id)

text \<open>A readiness event accepts nobody; and if it ends the connection, it has written nothing.\<close>

lemma service_trace:
  assumes "omap_wf (sv_clients sv)" and "connected sv fd"
  obtains es where "sv_trace (service env fd r sv) = sv_trace sv @ es"
    and "list_all quiet es \<or> (\<exists>es0 bs. es = es0 @ [IO_write fd bs] \<and> list_all quiet es0) \<and> connected (service env fd r sv) fd"
proof (cases "rv_error r")
  case True
  then show ?thesis
    using that[of "map IO_log (out_logs (handle_logout fd (sv_data sv))) @ [IO_close fd]"] assms
    by (simp add: service_def)
next
  case False
  let ?sv = "if rv_pollin r then handle_client_read env fd (rv_read r) sv else sv"
  obtain es where es: "sv_trace ?sv = sv_trace sv @ es" "list_all quiet es"
    using read_trace[OF assms(2,1)] by (cases "rv_pollin r") auto
  show ?thesis
  proof (cases "connected ?sv fd \<and> rv_pollout r")
    case True
    have "omap_wf (sv_clients ?sv)"
      using read_wf[OF assms(1,2)] assms(1) by simp
    then obtain es' where "sv_trace (handle_client_write fd (rv_write r) ?sv) = sv_trace ?sv @ es'"
      "list_all quiet es' \<or> (\<exists>bs. es' = [IO_write fd bs]) \<and> connected (handle_client_write fd (rv_write r) ?sv) fd"
      using write_trace True by blast
    then show ?thesis
      using that[of "es @ es'"] es True False assms(2) by (auto simp: service_def Let_def)
  next
    case no: False
    then show ?thesis using that[of es] es False assms(2) by (auto simp: service_def Let_def)
  qed
qed

text \<open>Other connections stay open and keep what was received on them.\<close>

lemma read_other:
  assumes "omap_wf (sv_clients sv)" and "connected sv fd" and "t \<noteq> fd"
  shows "connected (handle_client_read env fd n sv) t = connected sv t"
    and "recv_of (handle_client_read env fd n sv) t = recv_of sv t"
proof -
  let ?sv = "handle_client_read env fd n sv"
  have "connected ?sv t = connected sv t \<and> recv_of ?sv t = recv_of sv t"
  proof (cases n)
    case None
    then show ?thesis using assms by (simp add: handle_client_read_def disconnect_clients)
  next
    case (Some bs)
    then show ?thesis
      using handle_client_read_serve[OF assms(2,1), of env bs] assms
      by (auto simp: disconnect_clients split: prod.splits)
  qed
  then show "connected ?sv t = connected sv t" "recv_of ?sv t = recv_of sv t" by simp_all
qed

lemma write_other:
  assumes "omap_wf (sv_clients sv)" and "connected sv fd" and "t \<noteq> fd"
  shows "connected (handle_client_write fd n sv) t = connected sv t"
    and "recv_of (handle_client_write fd n sv) t = recv_of sv t"
  using assms
  by (auto simp: handle_client_write_def Let_def upd_client_id disconnect_clients recv_of_def client_at_upd)
    (simp add: disconnect_clients(4)[unfolded recv_of_def])

lemma service_other:
  assumes "omap_wf (sv_clients sv)" and "t \<noteq> fd"
  shows "connected (service env fd r sv) t = connected sv t"
    and "recv_of (service env fd r sv) t = recv_of sv t"
  using assms read_wf(1)[OF assms(1)] read_other[OF assms(1) _ assms(2)]
  by (auto simp: service_def Let_def write_other disconnect_clients)

text \<open>A connection that survives has been relieved of the frames that were complete.\<close>

lemma service_recv:
  assumes "omap_wf (sv_clients sv)" and "connected (service env fd r sv) fd"
    and "frames srv_split (recv_of sv fd @ server_takes r) = (fs, rest, bad)" and "srv_split (recv_of sv fd) = Incomplete"
  shows "recv_of (service env fd r sv) fd = rest"
proof -
  note c = service_connected[OF assms(1,2)]
  have err: "\<not> rv_error r" using assms(1,2) c by (auto simp: service_def disconnect_clients)
  let ?sv = "if rv_pollin r then handle_client_read env fd (rv_read r) sv else sv"
  have c1: "connected ?sv fd" using assms(2) err c by (auto simp: service_def Let_def split: if_splits)
  have wf: "omap_wf (sv_clients ?sv)" using read_wf(1)[OF assms(1) c] assms(1) by simp
  have "recv_of ?sv fd = rest"
  proof (cases "rv_pollin r")
    case True
    then obtain bs where bs: "rv_read r = Some bs" using c1 c assms(1)
      by (cases "rv_read r") (auto simp: handle_client_read_def disconnect_clients)
    then have "server_takes r = bs" using err True by (simp add: server_takes_def)
    then show ?thesis
      using handle_client_read_serve[OF c assms(1), of env bs] assms(3) c1 True bs assms(1)
      by (auto simp: disconnect_clients split: if_splits)
  next
    case False
    then have "frames srv_split (recv_of sv fd) = (fs, rest, bad)" using assms(3) err by (simp add: server_takes_def)
    then show ?thesis using srv.frames_Incomplete[OF assms(4)] False by simp
  qed
  moreover have "recv_of (service env fd r sv) fd = recv_of ?sv fd"
  proof (cases "rv_pollout r")
    case True
    have "connected (handle_client_write fd (rv_write r) ?sv) fd"
      using assms(2) c c1 err True by (simp add: service_def Let_def)
    then have "recv_of (handle_client_write fd (rv_write r) ?sv) fd = recv_of ?sv fd"
      using wf c1 by (auto simp: handle_client_write_def Let_def upd_client_id disconnect_clients recv_of_def client_at_upd
          split: if_splits)
    then show ?thesis using c c1 err True by (simp add: service_def Let_def)
  qed (use c c1 err in \<open>simp add: service_def Let_def\<close>)
  ultimately show ?thesis by simp
qed

section \<open>What is on its way down\<close>

text \<open>
  What a client has received but not yet understood, what is in flight to it and what the server
  still holds for it are whole messages, and all of them are true. Of a connection the server has
  closed, the last part is lost.
\<close>

definition downstream :: "server \<Rightarrow> link \<Rightarrow> bool" where
  "downstream sv lk \<longleftrightarrow> (\<exists>held. said sound (sv_data sv) (cl_recv_buf (lk_client lk) @ lk_down lk @ held)
     \<and> (\<forall>fd. lk_fd lk = Some fd \<longrightarrow> connected sv fd \<and> held = send_of sv fd))"

text \<open>What a client has shown, and who it thinks it is.\<close>

definition honest :: "server_data_t \<Rightarrow> client \<Rightarrow> bool" where
  "honest d c \<longleftrightarrow> (\<forall>k \<in> set (calls_made (cl_trace c)). backed d k \<and> identified d k)
     \<and> (cl_user_uuid c = [] \<or> (\<exists>n. stored_user d (cl_user_uuid c) n))"

lemma said_sound_le: "data_le d e \<Longrightarrow> said sound d bs \<Longrightarrow> said sound e bs"
  using said_mono[of sound d bs sound e] truthful_le fits_le wording_le unfolding sound_def by blast

lemma honest_le: "data_le d e \<Longrightarrow> honest d c \<Longrightarrow> honest e c"
  unfolding honest_def using backed_le identified_le stored_user_le by blast

lemma carry_sel [simp]:
  "lk_client (carry sv sv' lk) = lk_client lk" "lk_up (carry sv sv' lk) = lk_up lk"
  by (simp_all add: carry_def split: option.split)

lemma written_on_new: "\<forall>f. IO_accept f \<notin> set es \<Longrightarrow> written_on t es acc = acc @ written_on t es []"
proof (induction es arbitrary: acc)
  case (Cons e es)
  then have no: "\<forall>f. IO_accept f \<notin> set es" by auto
  show ?case
  proof (cases e)
    case (IO_write f bs)
    then show ?thesis using Cons.IH[OF no, of bs] Cons.IH[OF no, of "acc @ bs"] Cons.IH[OF no, of acc] by simp
  next
    case (IO_accept f)
    then show ?thesis using Cons.prems by auto
  qed (use Cons.IH[OF no, of acc] in simp_all)
qed simp

lemma quiet_accepts: "list_all quiet es \<Longrightarrow> \<forall>f. IO_accept f \<notin> set es"
  by (auto simp: list_all_iff)

lemma downstream_service:
  assumes "reachable env sv" and "good_gen (env_uuid env) (sv_ticks (service env fd r sv))" and "downstream sv lk"
    and "connected sv fd"
  shows "downstream (service env fd r sv) (carry sv (service env fd r sv) lk)"
proof -
  let ?sv = "service env fd r sv"
  note wf = sv_consistentD(1)[OF consistent_reachable[OF assms(1)]]
  have le: "data_le (sv_data sv) (sv_data ?sv)" by (rule step_le[OF refl server_step.service wf])
  obtain held where held: "said sound (sv_data ?sv) (cl_recv_buf (lk_client lk) @ lk_down lk @ held)"
      "\<And>t. lk_fd lk = Some t \<Longrightarrow> connected sv t \<and> held = send_of sv t"
    using assms(3) said_sound_le[OF le] by (auto simp: downstream_def)
  obtain es where es: "sv_trace ?sv = sv_trace sv @ es" and
    act: "list_all quiet es \<or> (\<exists>es0 bs. es = es0 @ [IO_write fd bs] \<and> list_all quiet es0) \<and> connected ?sv fd"
    using service_trace[OF wf assms(4)] by metis
  have wrote: "server_wrote t sv ?sv = written_on t es []" for t by (simp add: server_wrote_def es)
  show ?thesis
  proof (cases "lk_fd lk")
    case None
    then show ?thesis using held(1) by (auto simp: downstream_def carry_def)
  next
    case (Some t)
    note t = held(2)[OF Some]
    show ?thesis
    proof (cases "connected ?sv t")
      case True
      have "extends sound sv ?sv t"
        by (rule extends_sound[OF assms(1) server_step.service assms(2) _ True]) (use t in simp)
      then obtain new where new: "sv_sent ?sv t = sv_sent sv t @ new" "said sound (sv_data ?sv) new" by (auto simp: extends_def)
      have "\<forall>f. IO_accept f \<notin> set es" using act quiet_accepts by fastforce
      then have "written_on t (sv_trace ?sv) [] = written_on t (sv_trace sv) [] @ server_wrote t sv ?sv"
        unfolding es wrote by (simp add: written_on_new[of es t "written_on t (sv_trace sv) []"])
      then have "server_wrote t sv ?sv @ send_of ?sv t = send_of sv t @ new" using new(1) by (simp add: sv_sent_def)
      then have "said sound (sv_data ?sv) (cl_recv_buf (lk_client lk) @ (lk_down lk @ server_wrote t sv ?sv) @ send_of ?sv t)"
        using said_append[OF held(1) new(2)] t by simp
      then show ?thesis using Some True by (auto simp: downstream_def carry_def)
    next
      case False
      then have "t = fd" using service_other(1)[OF wf, of t fd env r] t by auto
      then have "list_all quiet es" using act False by auto
      then have "server_wrote t sv ?sv = []" unfolding wrote by (rule written_quiet)
      then show ?thesis using Some False held(1) by (auto simp: downstream_def carry_def)
    qed
  qed
qed

section \<open>What a client makes of it\<close>

lemma handle_response_calls:
  "calls_made (cl_trace (handle_response code p c)) = calls_made (cl_trace c) @ response_calls c code p"
  by (simp add: handle_response_def Let_def)

lemma handle_response_user:
  "cl_user_uuid (handle_response code p c)
     = (if code = response_code RES_LOGIN_OK then read_from_start (read_fixed p 36) else cl_user_uuid c)"
  by (simp add: handle_response_def Let_def calls_def)

lemma login_names_user:
  assumes "truthful d (response_code RES_LOGIN_OK) p"
  shows "\<exists>n. stored_user d (read_from_start (read_fixed p 36)) n"
proof -
  obtain u off n off' where "run_state (read_fixed p 36) 0 = (u, off)" "run_state (read_fixed p 32) off = (n, off')"
    by fastforce
  then have "read_from_start (read_uuid_name p client_event_logged_in)
      = client_event_logged_in (read_from_start (read_fixed p 36)) n"
    by (simp add: read_from_start_def read_uuid_name_def reader_simps)
  then show ?thesis using assms by (auto simp: truthful_def one_calls)
qed

lemma honest_response:
  assumes "honest d c" and "truthful d code p"
  shows "honest d (handle_response code p c)"
  using assms login_names_user[of d p] calls_identified[of c d code p]
  by (auto simp: honest_def handle_response_calls handle_response_user truthful_def)

lemma honest_respond: "honest d c \<Longrightarrow> (\<forall>(k, p) \<in> set fs. truthful d k p) \<Longrightarrow> honest d (respond fs c)"
proof (induction fs arbitrary: c)
  case (Cons m fs)
  then show ?case using honest_response by (cases m) simp
qed simp

lemma honest_cong:
  "cl_trace c = cl_trace c' \<Longrightarrow> cl_user_uuid c = cl_user_uuid c' \<Longrightarrow> honest d c = honest d c'"
  by (simp add: honest_def)

lemma honest_stop: "honest d (tell [CL_print s] c\<lparr>cl_running := False\<rparr>) = honest d c"
  by (simp add: honest_def tell_def)

lemma honest_asks: "asks c c' \<Longrightarrow> honest d c \<Longrightarrow> honest d c'"
  by (auto simp: asks_def honest_def)

text \<open>A piece of the stream: the whole messages in it are answered to, the rest is kept.\<close>

lemma read_sound:
  assumes "small d" and "said sound d (cl_recv_buf c @ bs @ later)" and "honest d c"
  shows "honest d (handle_server_read (Some bs) c)"
    and "said sound d (cl_recv_buf (handle_server_read (Some bs) c) @ later)"
    and "cl_split (cl_recv_buf (handle_server_read (Some bs) c)) = Incomplete"
proof -
  obtain ms where ms: "(cl_recv_buf c @ bs) @ later = concat (map (\<lambda>(k, p). make_message k p) ms)" "\<forall>(k, p) \<in> set ms. sound d k p"
    using assms(2) by (auto simp: said_def)
  have "cl_split ((\<lambda>(k, p). make_message k p) m @ rest) = Frame m rest" if "m \<in> set ms" for m rest
  proof -
    obtain k p where m: "m = (k, p)" by force
    then have "length p < 2 ^ 32" using that ms(2) assms(1) by (auto simp: sound_def fits_def)
    then show ?thesis by (simp add: m cl_split_message)
  qed
  then obtain fs gs rest where f: "ms = fs @ gs" "frames cl_split (cl_recv_buf c @ bs) = (fs, rest, False)"
      "rest @ later = concat (map (\<lambda>(k, p). make_message k p) gs)"
    using cl.frames_prefix[of ms "\<lambda>(k, p). make_message k p" "\<lambda>m. m" "cl_recv_buf c @ bs" later] ms(1)
    by (auto simp: cl_split_def)
  have eq: "handle_server_read (Some bs) c = respond fs c\<lparr>cl_recv_buf := rest\<rparr>"
    unfolding handle_server_read_respond f(2) by simp
  show "honest d (handle_server_read (Some bs) c)"
    unfolding eq using honest_respond[OF assms(3), of fs] ms(2) f(1)
    by (subst honest_cong[of _ "respond fs c"]) (auto simp: sound_def)
  show "said sound d (cl_recv_buf (handle_server_read (Some bs) c) @ later)"
    unfolding eq using f(1,3) ms(2) by (auto simp: said_def)
  show "cl_split (cl_recv_buf (handle_server_read (Some bs) c)) = Incomplete"
    unfolding eq using cl.frames_end[OF f(2)] by simp
qed

lemma round_asks:
  defines "c1 \<equiv> \<lambda>net r c. (if cr_stdin_in r then handle_stdin net (cr_stdin_read r) c else c)"
  shows "asks c (if cr_sock_out r then handle_server_write net (c1 net r c) else c1 net r c)"
  using asks_trans[OF asks_stdin asks_write] asks_stdin asks_write asks_same[of c c] by (simp add: c1_def)

lemma round_sound:
  assumes "small d" and "honest d c" and "said sound d (cl_recv_buf c @ client_takes r @ later)"
    and "cl_split (cl_recv_buf c) = Incomplete"
  shows "honest d (client_round net r c)" and "said sound d (cl_recv_buf (client_round net r c) @ later)"
    and "cl_split (cl_recv_buf (client_round net r c)) = Incomplete"
proof -
  define c1 where "c1 = (if cr_stdin_in r then handle_stdin net (cr_stdin_read r) c else c)"
  define c2 where "c2 = (if cr_sock_out r then handle_server_write net c1 else c1)"
  define c3 where "c3 = (if cr_sock_in r then handle_server_read (cr_sock_read r) c2 else c2)"
  have asks: "asks c c2" unfolding c2_def c1_def by (rule round_asks)
  then have buf: "cl_recv_buf c2 = cl_recv_buf c" by (auto simp: asks_def)
  note h2 = honest_asks[OF asks assms(2)]
  have "honest d c3 \<and> said sound d (cl_recv_buf c3 @ later) \<and> cl_split (cl_recv_buf c3) = Incomplete"
  proof (cases "cr_sock_in r")
    case True
    show ?thesis
    proof (cases "cr_sock_read r")
      case None
      then have "client_takes r = []" "c3 = tell [CL_print ''Server disconnected.''] c2\<lparr>cl_running := False\<rparr>"
        using True by (simp_all add: client_takes_def c3_def handle_server_read_def)
      then show ?thesis
        using assms(3,4) h2 buf by (simp add: honest_stop)
    next
      case (Some bs)
      then have "client_takes r = bs" "c3 = handle_server_read (Some bs) c2"
        using True by (simp_all add: client_takes_def c3_def)
      then show ?thesis using read_sound[OF assms(1) _ h2, of bs later] assms(3) by (simp add: buf)
    qed
  next
    case False
    then show ?thesis using assms(3,4) h2 buf by (simp add: client_takes_def c3_def)
  qed
  moreover have "client_round net r c = (if cr_sock_hup r then tell [CL_print ''Server disconnected.''] c3\<lparr>cl_running := False\<rparr> else c3)"
    by (simp add: client_round_def c1_def c2_def c3_def)
  ultimately show "honest d (client_round net r c)" "said sound d (cl_recv_buf (client_round net r c) @ later)"
      "cl_split (cl_recv_buf (client_round net r c)) = Incomplete"
    by (auto simp: honest_stop)
qed

section \<open>The invariant of the whole service\<close>

definition link_sound :: "server \<Rightarrow> link \<Rightarrow> bool" where
  "link_sound sv lk \<longleftrightarrow> downstream sv lk \<and> honest (sv_data sv) (lk_client lk)
     \<and> cl_split (cl_recv_buf (lk_client lk)) = Incomplete"

definition links_sound :: "network \<Rightarrow> bool" where
  "links_sound nw \<longleftrightarrow> (\<forall>lk \<in> set (nw_links nw). link_sound (nw_server nw) lk)"

text \<open>The links know different connections.\<close>

definition links_apart :: "network \<Rightarrow> bool" where
  "links_apart nw \<longleftrightarrow> (\<forall>i < length (nw_links nw). \<forall>j < length (nw_links nw). \<forall>fd.
     lk_fd (nw_links nw ! i) = Some fd \<longrightarrow> connected (nw_server nw) fd \<and> (lk_fd (nw_links nw ! j) = Some fd \<longrightarrow> i = j))"

lemma turn_sound:
  fixes net :: "nat \<Rightarrow> int"
  assumes "link_sound sv lk" and "small (sv_data sv)" and "prefix (client_takes r) (lk_down lk)"
  defines "c' \<equiv> client_round net r (lk_client lk)"
  shows "link_sound sv (lk\<lparr>lk_client := c', lk_up := up, lk_down := drop (length (client_takes r)) (lk_down lk)\<rparr>)"
proof -
  obtain later where down: "lk_down lk = client_takes r @ later" using assms(3) by (auto simp: prefix_def)
  obtain held where held: "said sound (sv_data sv) (cl_recv_buf (lk_client lk) @ lk_down lk @ held)"
      "\<And>t. lk_fd lk = Some t \<Longrightarrow> connected sv t \<and> held = send_of sv t"
    using assms(1) by (auto simp: link_sound_def downstream_def)
  note rs = round_sound[of "sv_data sv" "lk_client lk" r "later @ held" net, folded c'_def]
  have "honest (sv_data sv) c' \<and> said sound (sv_data sv) (cl_recv_buf c' @ later @ held)
      \<and> cl_split (cl_recv_buf c') = Incomplete"
    using rs assms(1,2) held(1) by (simp add: link_sound_def down)
  then show ?thesis using held(2) by (auto simp: link_sound_def downstream_def down)
qed

lemma service_sound:
  assumes "reachable env sv" and "good_gen (env_uuid env) (sv_ticks (service env fd r sv))" and "connected sv fd"
    and "link_sound sv lk"
  shows "link_sound (service env fd r sv) (carry sv (service env fd r sv) (lk\<lparr>lk_up := up\<rparr>))"
proof -
  have down: "downstream sv (lk\<lparr>lk_up := up\<rparr>)" using assms(4) by (simp add: link_sound_def downstream_def)
  have "data_le (sv_data sv) (sv_data (service env fd r sv))"
    by (rule step_le[OF refl server_step.service sv_consistentD(1)[OF consistent_reachable[OF assms(1)]]])
  then show ?thesis
    using downstream_service[OF assms(1,2) down assms(3)] assms(4) honest_le by (auto simp: link_sound_def)
qed

lemma accept_frame:
  assumes "\<not> connected sv fd" and "0 \<le> fd"
  shows "send_of (handle_new_connection fd sv) fd = []" and "recv_of (handle_new_connection fd sv) fd = []"
    and "t \<noteq> fd \<Longrightarrow> send_of (handle_new_connection fd sv) t = send_of sv t"
    and "t \<noteq> fd \<Longrightarrow> recv_of (handle_new_connection fd sv) t = recv_of sv t"
  using assms by (simp_all add: handle_new_connection_def send_of_def recv_of_def client_at_def omap_find_set
      client_state0_def emit_def)

lemma apart_step:
  assumes "links_apart nw" and "network_step env nw nw'" and "omap_wf (sv_clients (nw_server nw))"
  shows "links_apart nw'"
  using assms(2)
proof (cases rule: network_step.cases)
  case (join fd ip sock pton_ret connect_ret err c)
  then show ?thesis using assms(1)
    by (auto simp: links_apart_def join_link_def nth_append less_Suc_eq)
next
  case (serve i fd r)
  let ?lks = "(nw_links nw)[i := (nw_links nw ! i)\<lparr>lk_up := drop (length (server_takes r)) (lk_up (nw_links nw ! i))\<rparr>]"
  have fds: "lk_fd (?lks ! j) = lk_fd (nw_links nw ! j)" for j by (cases "i = j"; cases "j < length (nw_links nw)") (auto simp: list_update_beyond)
  have "lk_fd (nw_links nw' ! j) = Some t \<Longrightarrow> j < length (nw_links nw) \<Longrightarrow>
      lk_fd (nw_links nw ! j) = Some t \<and> connected (nw_server nw') t" for j t
    using serve(1) fds[of j] by (auto simp: serve_link_def Let_def carry_def split: option.splits if_splits)
  moreover have "length (nw_links nw') = length (nw_links nw)" using serve(1) by (simp add: serve_link_def Let_def)
  ultimately show ?thesis using assms(1) unfolding links_apart_def by metis
next
  case (turn i r net)
  let ?lks = "nw_links nw'"
  have "lk_fd (?lks ! j) = lk_fd (nw_links nw ! j)" if "j < length (nw_links nw)" for j
    using that turn(1) by (cases "i = j") (auto simp: turn_link_def Let_def)
  moreover have "length ?lks = length (nw_links nw)" "nw_server nw' = nw_server nw" using turn(1) by (simp_all add: turn_link_def Let_def)
  ultimately show ?thesis using assms(1) unfolding links_apart_def by metis
next
  case sigint
  then show ?thesis using assms(1) by (simp add: links_apart_def connected_def)
qed

text \<open>Every step keeps every link sound, as long as libuuid works and the data stays small.\<close>

lemma sound_step:
  assumes "reachable env (nw_server nw)" and "links_sound nw" and "links_apart nw" and "network_step env nw nw'"
    and "good_gen (env_uuid env) (sv_ticks (nw_server nw'))" and "small (sv_data (nw_server nw'))"
  shows "links_sound nw'"
  using assms(4)
proof (cases rule: network_step.cases)
  case (join fd ip sock pton_ret connect_ret err c)
  note new = accept_frame[OF join(2,3)]
  have "link_sound (handle_new_connection fd (nw_server nw)) lk" if lk: "lk \<in> set (nw_links nw)" for lk
  proof -
    have "t \<noteq> fd" if "lk_fd lk = Some t" for t
      using that lk join(2) assms(3) by (auto simp: links_apart_def in_set_conv_nth)
    moreover have "link_sound (nw_server nw) lk" using assms(2) lk by (simp add: links_sound_def)
    ultimately show ?thesis using new(3) by (auto simp: link_sound_def downstream_def)
  qed
  moreover have "c = client0\<lparr>cl_fd := sock\<rparr>" using join(4) by (simp add: connect_def split: if_splits)
  moreover have "cl_split [] = Incomplete" by (simp add: cl_split_def)
  ultimately show ?thesis
    using join(1,3) new(1)
    by (auto simp: links_sound_def join_link_def link_sound_def downstream_def honest_def client0_def)
next
  case (serve i fd r)
  let ?lk = "nw_links nw ! i" and ?sv = "service env fd r (nw_server nw)"
  have fd: "connected (nw_server nw) fd" using serve(2,3) assms(3) by (auto simp: links_apart_def)
  have sv: "nw_server nw' = ?sv" using serve(1) by (simp add: serve_link_def Let_def)
  have one: "link_sound ?sv (carry (nw_server nw) ?sv (lk\<lparr>lk_up := up\<rparr>))" if "lk \<in> set (nw_links nw)" for lk up
    using service_sound[OF assms(1) _ fd] assms(2,5) that unfolding sv by (simp add: links_sound_def)
  have "link_sound ?sv (carry (nw_server nw) ?sv lk)" if "lk \<in> set (nw_links nw)" for lk
    using one[OF that, of "lk_up lk"] by simp
  then show ?thesis
    using one[of ?lk] serve(1,2) unfolding links_sound_def sv
    by (auto simp: serve_link_def Let_def elim!: set_list_updateE)
next
  case (turn i r net)
  have sv: "nw_server nw' = nw_server nw" using turn(1) by (simp add: turn_link_def Let_def)
  have "link_sound (nw_server nw) (nw_links nw ! i)" using assms(2) turn(2) by (simp add: links_sound_def)
  from turn_sound[OF this assms(6)[unfolded sv] turn(5)] show ?thesis
    using turn(1) assms(2) by (auto simp: links_sound_def turn_link_def Let_def elim!: set_list_updateE)
next
  case sigint
  then show ?thesis using assms(2)
    by (simp add: links_sound_def link_sound_def downstream_def connected_def send_of_def client_at_def)
qed

lemma network_apart: "network_reachable env nw \<Longrightarrow> links_apart nw"
proof (induction rule: network_reachable.induct)
  case (start sfd)
  show ?case by (simp add: links_apart_def network0_def)
next
  case (step nw nw')
  then show ?case using apart_step sv_consistentD(1)[OF consistent_reachable[OF network_server[OF step.hyps(1)]]] by blast
qed

lemma network_step_le:
  assumes "network_reachable env nw" and "network_step env nw nw'"
  shows "data_le (sv_data (nw_server nw)) (sv_data (nw_server nw'))"
    and "sv_ticks (nw_server nw) \<le> sv_ticks (nw_server nw')"
proof -
  note wf = sv_consistentD(1)[OF consistent_reachable[OF network_server[OF assms(1)]]]
  show "data_le (sv_data (nw_server nw)) (sv_data (nw_server nw'))"
    using network_server_step[OF assms(2)] step_le[OF refl _ wf] by auto
  show "sv_ticks (nw_server nw) \<le> sv_ticks (nw_server nw')"
    using network_server_step[OF assms(2)] step_ticks[OF _ wf] by auto
qed

lemma network_sound:
  assumes "network_reachable env nw"
  shows "good_gen (env_uuid env) (sv_ticks (nw_server nw)) \<Longrightarrow> small (sv_data (nw_server nw)) \<Longrightarrow> links_sound nw"
  using assms
proof (induction rule: network_reachable.induct)
  case (start sfd)
  show ?case by (simp add: links_sound_def network0_def)
next
  case (step nw nw')
  note le = network_step_le[OF step.hyps]
  have "links_sound nw"
    using step.IH step.prems good_gen_mono[OF step.prems(1) le(2)] small_le[OF le(1)] by blast
  then show ?case
    using sound_step[OF network_server[OF step.hyps(1)] _ network_apart[OF step.hyps(1)] step.hyps(2)] step.prems by blast
qed

section \<open>What is on its way up\<close>

text \<open>
  What the server has received of a client but not yet dispatched, what is in flight to it and
  what the client still holds are whole requests that the server accepts.
\<close>

definition upstream :: "server \<Rightarrow> link \<Rightarrow> bool" where
  "upstream sv lk \<longleftrightarrow> (\<forall>fd. lk_fd lk = Some fd \<longrightarrow>
     (\<exists>qs. acceptable qs \<and> recv_of sv fd @ lk_up lk @ cl_send_buf (lk_client lk) = requests qs))"

text \<open>The client's round writes what it asks for, and nothing else.\<close>

lemma respond_writes:
  "\<exists>es. cl_trace (respond fs c) = cl_trace c @ es \<and> written es = []" "cl_send_buf (respond fs c) = cl_send_buf c"
proof -
  have one: "\<exists>es. cl_trace (handle_response k p c) = cl_trace c @ es \<and> written es = []" for k p c
    by (simp add: handle_response_def Let_def)
  have "(\<exists>es. cl_trace (respond fs c) = cl_trace c @ es \<and> written es = []) \<and> cl_send_buf (respond fs c) = cl_send_buf c"
  proof (induction fs arbitrary: c)
    case (Cons m fs)
    obtain k p where m: "m = (k, p)" by force
    obtain es where es: "cl_trace (handle_response k p c) = cl_trace c @ es" "written es = []" using one by blast
    then show ?case using Cons.IH[of "handle_response k p c"] by (auto simp: m)
  qed simp
  then show "\<exists>es. cl_trace (respond fs c) = cl_trace c @ es \<and> written es = []" "cl_send_buf (respond fs c) = cl_send_buf c"
    by simp_all
qed

lemma server_read_writes:
  "\<exists>es. cl_trace (handle_server_read n c) = cl_trace c @ es \<and> written es = []"
  "cl_send_buf (handle_server_read n c) = cl_send_buf c"
proof -
  have "(\<exists>es. cl_trace (handle_server_read n c) = cl_trace c @ es \<and> written es = [])
      \<and> cl_send_buf (handle_server_read n c) = cl_send_buf c"
  proof (cases n)
    case None
    then show ?thesis by (simp add: handle_server_read_def)
  next
    case (Some bs)
    then show ?thesis
      using respond_writes by (auto simp: handle_server_read_respond split: prod.split)
  qed
  then show "\<exists>es. cl_trace (handle_server_read n c) = cl_trace c @ es \<and> written es = []"
    "cl_send_buf (handle_server_read n c) = cl_send_buf c" by simp_all
qed

lemma round_requests:
  obtains qs where "acceptable qs"
    and "client_wrote c (client_round net r c) @ cl_send_buf (client_round net r c) = cl_send_buf c @ requests qs"
proof -
  define c1 where "c1 = (if cr_stdin_in r then handle_stdin net (cr_stdin_read r) c else c)"
  define c2 where "c2 = (if cr_sock_out r then handle_server_write net c1 else c1)"
  define c3 where "c3 = (if cr_sock_in r then handle_server_read (cr_sock_read r) c2 else c2)"
  have "asks c c2" unfolding c2_def c1_def by (rule round_asks)
  then obtain es qs where q: "cl_trace c2 = cl_trace c @ es" "cl_sent c2 = cl_sent c @ requests qs" "acceptable qs"
    by (auto simp: asks_def)
  have "\<exists>es'. cl_trace c3 = cl_trace c2 @ es' \<and> written es' = [] \<and> cl_send_buf c3 = cl_send_buf c2"
    using server_read_writes[of "cr_sock_read r" c2] by (cases "cr_sock_in r") (auto simp: c3_def)
  then obtain es' where r: "cl_trace c3 = cl_trace c2 @ es'" "written es' = []" "cl_send_buf c3 = cl_send_buf c2"
    by blast
  have round: "client_round net r c
      = (if cr_sock_hup r then tell [CL_print ''Server disconnected.''] c3\<lparr>cl_running := False\<rparr> else c3)"
    by (simp add: client_round_def c1_def c2_def c3_def)
  have "client_wrote c (client_round net r c) = written es" "cl_send_buf (client_round net r c) = cl_send_buf c2"
    by (simp_all add: client_wrote_def round q(1) r)
  moreover have "written es @ cl_send_buf c2 = cl_send_buf c @ requests qs"
    using q(1,2) by (simp add: cl_sent_def)
  ultimately show thesis using that[OF q(3)] by simp
qed

lemma requests_append: "requests (qs @ rs) = requests qs @ requests rs"
  by (simp add: requests_def)

lemma acceptable_append: "acceptable (qs @ rs) \<longleftrightarrow> acceptable qs \<and> acceptable rs"
  by (auto simp: acceptable_def)

text \<open>A piece of a stream of requests, cut into frames: commands the server knows, none rejected.\<close>

lemma requests_prefix:
  assumes "acceptable qs" and "b @ later = requests qs"
  obtains fs gs rest where "frames srv_split b = (map (\<lambda>(k, p). (command_code k, p)) fs, rest, False)"
    and "acceptable fs" and "acceptable gs" and "rest @ later = requests gs"
proof -
  have "srv_split ((\<lambda>(k, p). make_message (command_code k) p) m @ rest) = Frame ((\<lambda>(k, p). (command_code k, p)) m) rest"
    if "m \<in> set qs" for m rest
  proof -
    obtain k p where m: "m = (k, p)" by force
    then have "length p \<le> 65535" using that assms(1) by (auto simp: acceptable_def)
    then show ?thesis by (simp add: m srv_split_message)
  qed
  then obtain fs gs rest where "qs = fs @ gs" "frames srv_split b = (map (\<lambda>(k, p). (command_code k, p)) fs, rest, False)"
      "rest @ later = concat (map (\<lambda>(k, p). make_message (command_code k) p) gs)"
    using srv.frames_prefix[of qs "\<lambda>(k, p). make_message (command_code k) p" "\<lambda>(k, p). (command_code k, p)" b later]
      assms(2) unfolding requests_def by (auto simp: srv_split_def)
  then show thesis using that[of fs rest gs] assms(1) by (simp add: requests_def acceptable_append)
qed

lemma turn_upstream:
  fixes net :: "nat \<Rightarrow> int" and r :: client_ready
  assumes "upstream sv lk"
  defines "c' \<equiv> client_round net r (lk_client lk)"
  shows "upstream sv (lk\<lparr>lk_client := c', lk_up := lk_up lk @ client_wrote (lk_client lk) c', lk_down := down\<rparr>)"
proof -
  obtain qs where q: "acceptable qs" "client_wrote (lk_client lk) c' @ cl_send_buf c' = cl_send_buf (lk_client lk) @ requests qs"
    unfolding c'_def by (rule round_requests)
  have "\<exists>qs'. acceptable qs' \<and> recv_of sv fd @ (lk_up lk @ client_wrote (lk_client lk) c') @ cl_send_buf c' = requests qs'"
    if fd: "lk_fd lk = Some fd" for fd
  proof -
    obtain qs0 where q0: "acceptable qs0" "recv_of sv fd @ lk_up lk @ cl_send_buf (lk_client lk) = requests qs0"
      using assms(1) fd unfolding upstream_def by blast
    have "recv_of sv fd @ (lk_up lk @ client_wrote (lk_client lk) c') @ cl_send_buf c'
        = recv_of sv fd @ lk_up lk @ cl_send_buf (lk_client lk) @ requests qs"
      using q(2) by simp
    also have "\<dots> = requests (qs0 @ qs)" unfolding requests_append q0(2)[symmetric] by simp
    finally show ?thesis using q(1) q0(1) acceptable_append by blast
  qed
  then show ?thesis by (simp add: upstream_def)
qed

lemma service_upstream:
  assumes "omap_wf (sv_clients sv)" and "drained sv" and "upstream sv lk" and "\<And>t. lk_fd lk = Some t \<Longrightarrow> connected sv t"
    and "lk_up lk = (if lk_fd lk = Some fd then server_takes r else []) @ up"
  shows "upstream (service env fd r sv) (carry sv (service env fd r sv) (lk\<lparr>lk_up := up\<rparr>))"
proof (cases "lk_fd lk")
  case None
  then show ?thesis by (simp add: upstream_def carry_def)
next
  case (Some t)
  obtain qs where qs: "acceptable qs" "recv_of sv t @ lk_up lk @ cl_send_buf (lk_client lk) = requests qs"
    using assms(3) Some unfolding upstream_def by blast
  show ?thesis
  proof (cases "t = fd \<and> connected (service env fd r sv) fd")
    case True
    have "(recv_of sv t @ server_takes r) @ up @ cl_send_buf (lk_client lk) = requests qs"
      using qs(2) assms(5) Some True by simp
    then obtain fs gs rest where f: "frames srv_split (recv_of sv t @ server_takes r) = (map (\<lambda>(k, p). (command_code k, p)) fs, rest, False)"
        "acceptable gs" "rest @ up @ cl_send_buf (lk_client lk) = requests gs"
      using requests_prefix[OF qs(1)] by metis
    have "srv_split (recv_of sv fd) = Incomplete" using assms(2,4) Some True by (simp add: drained_def)
    then have "recv_of (service env fd r sv) fd = rest"
      using service_recv[OF assms(1)] f(1) True by blast
    then show ?thesis using Some True f(2,3) by (auto simp: upstream_def carry_def)
  next
    case False
    then show ?thesis
      using Some qs assms(5) service_other[OF assms(1), of t fd env r]
      by (cases "t = fd") (auto simp: upstream_def carry_def)
  qed
qed

definition links_asking :: "network \<Rightarrow> bool" where
  "links_asking nw \<longleftrightarrow> (\<forall>lk \<in> set (nw_links nw). upstream (nw_server nw) lk)"

lemma asking_step:
  assumes "reachable env (nw_server nw)" and "links_asking nw" and "links_apart nw" and "network_step env nw nw'"
  shows "links_asking nw'"
  using assms(4)
proof (cases rule: network_step.cases)
  case (join fd ip sock pton_ret connect_ret err c)
  note new = accept_frame[OF join(2,3)]
  have "upstream (handle_new_connection fd (nw_server nw)) lk" if lk: "lk \<in> set (nw_links nw)" for lk
  proof -
    have "t \<noteq> fd" if "lk_fd lk = Some t" for t
      using that lk join(2) assms(3) by (auto simp: links_apart_def in_set_conv_nth)
    moreover have "upstream (nw_server nw) lk" using assms(2) lk by (simp add: links_asking_def)
    ultimately show ?thesis using new(4) by (auto simp: upstream_def)
  qed
  moreover have "c = client0\<lparr>cl_fd := sock\<rparr>" using join(4) by (simp add: connect_def split: if_splits)
  ultimately show ?thesis
    using join(1) new(2)
    by (auto simp: links_asking_def join_link_def upstream_def client0_def requests_def acceptable_def intro!: exI[of _ "[]"])
next
  case (serve i fd r)
  let ?lk = "nw_links nw ! i" and ?sv = "service env fd r (nw_server nw)"
  note wf = sv_consistentD(1)[OF consistent_reachable[OF assms(1)]]
  note dr = drained_reachable[OF assms(1)]
  have asking: "upstream (nw_server nw) lk" if "lk \<in> set (nw_links nw)" for lk using assms(2) that by (simp add: links_asking_def)
  have conn: "connected (nw_server nw) t" if "lk_fd (nw_links nw ! j) = Some t" "j < length (nw_links nw)" for j t
    using that assms(3) by (auto simp: links_apart_def)
  obtain up where up: "lk_up ?lk = server_takes r @ up" using serve(5) by (auto simp: prefix_def)
  let ?lks = "(nw_links nw)[i := ?lk\<lparr>lk_up := up\<rparr>]"
  have "upstream ?sv (carry (nw_server nw) ?sv (?lks ! j))" if j: "j < length (nw_links nw)" for j
  proof (cases "i = j")
    case True
    show ?thesis
      using service_upstream[of "nw_server nw" ?lk fd r up env, OF wf dr asking conn] serve(2,3) up True by simp
  next
    case False
    have "lk_fd (nw_links nw ! j) \<noteq> Some fd" using False j serve(2,3) assms(3) by (auto simp: links_apart_def)
    then show ?thesis
      using service_upstream[of "nw_server nw" "nw_links nw ! j" fd r "lk_up (nw_links nw ! j)" env, OF wf dr asking conn]
        j False by simp
  qed
  then show ?thesis
    using serve(1) up by (auto simp: links_asking_def serve_link_def Let_def in_set_conv_nth)
next
  case (turn i r net)
  have sv: "nw_server nw' = nw_server nw" using turn(1) by (simp add: turn_link_def Let_def)
  have "upstream (nw_server nw) (nw_links nw ! i)" using assms(2) turn(2) by (simp add: links_asking_def)
  from turn_upstream[OF this] show ?thesis
    using turn(1) assms(2) by (auto simp: links_asking_def turn_link_def Let_def elim!: set_list_updateE)
next
  case sigint
  then show ?thesis using assms(2) by (simp add: links_asking_def upstream_def recv_of_def client_at_def)
qed

lemma network_asking: "network_reachable env nw \<Longrightarrow> links_asking nw"
proof (induction rule: network_reachable.induct)
  case (start sfd)
  show ?case by (simp add: links_asking_def network0_def)
next
  case (step nw nw')
  then show ?case using asking_step[OF network_server] network_apart by blast
qed

end
