(* ===== verification/Delivery.thy ===== *)
theory Delivery
  imports Network
begin

text \<open>
  What becomes of the bytes between a client and the server. A transfer moves a piece of them one
  hop further: out of the client's buffer, into the server, out of the server's buffer, into the
  client. Whatever the sizes of the pieces, each transfer leaves less to be done, and none changes what
  the server will have done and the client will have shown when all is delivered.
\<close>

declare response_code.simps [simp del] error_code.simps [simp del] event_code.simps [simp del] command_code.simps [simp del]

section \<open>Whole messages\<close>

lemma srv_whole: "acceptable qs \<Longrightarrow> srv_split (requests qs) = Incomplete \<Longrightarrow> qs = []"
proof (cases qs)
  case (Cons m ms)
  assume a: "acceptable qs" "srv_split (requests qs) = Incomplete"
  obtain k p where m: "m = (k, p)" by force
  have "length p \<le> 65535" using a(1) by (simp add: acceptable_def Cons m)
  then show ?thesis using srv_split_message a(2) by (simp add: requests_def Cons m)
qed simp

lemma cl_whole: "said sound d bs \<Longrightarrow> small d \<Longrightarrow> cl_split bs = Incomplete \<Longrightarrow> bs = []"
proof -
  assume a: "said sound d bs" "small d" "cl_split bs = Incomplete"
  then obtain ms where ms: "bs = concat (map (\<lambda>(c, p). make_message c p) ms)" "\<forall>(c, p) \<in> set ms. sound d c p"
    by (auto simp: said_def)
  show ?thesis
  proof (cases ms)
    case (Cons m ns)
    obtain k p where m: "m = (k, p)" by force
    have "length p < 2 ^ 32" using ms(2) a(2) by (simp add: Cons m sound_def fits_def)
    then show ?thesis using cl_split_message a(3) ms(1) by (simp add: Cons m)
  qed (simp add: ms(1))
qed

lemma link_connected:
  "network_reachable env nw \<Longrightarrow> lk \<in> set (nw_links nw) \<Longrightarrow> lk_fd lk = Some fd \<Longrightarrow> connected (nw_server nw) fd"
  using network_apart by (fastforce simp: links_apart_def in_set_conv_nth)

text \<open>Whatever part of what is in flight a read gets: it dispatches commands.\<close>

lemma requests_read:
  assumes "network_reachable env nw" and "lk \<in> set (nw_links nw)" and "lk_fd lk = Some fd" and "prefix bs (lk_up lk)"
  obtains qs rest where "acceptable qs"
    and "frames srv_split (recv_of (nw_server nw) fd @ bs) = (map (\<lambda>(k, p). (command_code k, p)) qs, rest, False)"
    and "handle_client_read env fd (Some bs) (nw_server nw)
    = set_recv fd rest (serve env fd (map (\<lambda>(k, p). (command_code k, p)) qs) (nw_server nw))"
proof -
  let ?sv = "nw_server nw"
  note wf = sv_consistentD(1)[OF consistent_reachable[OF network_server[OF assms(1)]]]
  obtain later where up: "lk_up lk = bs @ later" using assms(4) by (auto simp: prefix_def)
  have "upstream ?sv lk" using network_asking[OF assms(1)] assms(2) by (simp add: links_asking_def)
  then obtain qs where "acceptable qs" "(recv_of ?sv fd @ bs) @ later @ cl_send_buf (lk_client lk) = requests qs"
    using assms(3) up by (auto simp: upstream_def)
  then obtain fs rest where f: "frames srv_split (recv_of ?sv fd @ bs) = (map (\<lambda>(k, p). (command_code k, p)) fs, rest, False)"
      "acceptable fs"
    using requests_prefix by metis
  then show thesis
    using that[OF f(2,1)] by (simp add: handle_client_read_serve[OF link_connected[OF assms(1-3)] wf])
qed

lemma idle_received:
  assumes "network_reachable env nw" and "lk \<in> set (nw_links nw)" and "lk_fd lk = Some fd"
    and "lk_up lk = []" and "cl_send_buf (lk_client lk) = []"
  shows "recv_of (nw_server nw) fd = []"
proof -
  have "upstream (nw_server nw) lk" using network_asking[OF assms(1)] assms(2) by (simp add: links_asking_def)
  then obtain qs where q: "acceptable qs" "recv_of (nw_server nw) fd = requests qs"
    using assms(3-5) by (auto simp: upstream_def)
  moreover have "srv_split (recv_of (nw_server nw) fd) = Incomplete"
    using drained_reachable[OF network_server[OF assms(1)]] link_connected[OF assms(1-3)] by (simp add: drained_def)
  ultimately show ?thesis using srv_whole[of qs] by (simp add: requests_def)
qed

section \<open>Transfers\<close>

definition flushing :: client_ready where
  "flushing = \<lparr>cr_stdin_in = False, cr_stdin_read = None, cr_sock_out = True, cr_sock_in = False,
     cr_sock_read = None, cr_sock_hup = False\<rparr>"

definition taking :: "bytes \<Rightarrow> client_ready" where
  "taking bs = \<lparr>cr_stdin_in = False, cr_stdin_read = None, cr_sock_out = False, cr_sock_in = True,
     cr_sock_read = Some bs, cr_sock_hup = False\<rparr>"

definition arriving :: "bytes \<Rightarrow> readiness" where
  "arriving bs = \<lparr>rv_error = False, rv_pollin = True, rv_pollout = False, rv_read = Some bs, rv_write = 0\<rparr>"

definition sending :: "int \<Rightarrow> readiness" where
  "sending n = \<lparr>rv_error = False, rv_pollin = False, rv_pollout = True, rv_read = None, rv_write = n\<rparr>"

text \<open>A \<open>write\<close> takes any positive number of the bytes it is given, a \<open>read\<close> any positive number of those
  in flight, up to the 4096 that both programs ask for.\<close>

inductive transfer :: "env \<Rightarrow> nat \<Rightarrow> network \<Rightarrow> network \<Rightarrow> bool" for env i where
  upload: "lk = nw_links nw ! i \<Longrightarrow> cl_running (lk_client lk) \<Longrightarrow>
    0 < n \<Longrightarrow> n \<le> int (length (cl_send_buf (lk_client lk))) \<Longrightarrow>
    transfer env i nw (turn_link (\<lambda>_. n) i flushing nw)"
| arrival: "lk = nw_links nw ! i \<Longrightarrow> lk_fd lk = Some fd \<Longrightarrow> bs \<noteq> [] \<Longrightarrow> length bs \<le> 4096 \<Longrightarrow> prefix bs (lk_up lk) \<Longrightarrow>
    transfer env i nw (serve_link env i fd (arriving bs) nw)"
| departure: "lk = nw_links nw ! i \<Longrightarrow> lk_fd lk = Some fd \<Longrightarrow>
    0 < n \<Longrightarrow> n \<le> int (length (send_of (nw_server nw) fd)) \<Longrightarrow>
    transfer env i nw (serve_link env i fd (sending n) nw)"
| download: "lk = nw_links nw ! i \<Longrightarrow> cl_running (lk_client lk) \<Longrightarrow> bs \<noteq> [] \<Longrightarrow> length bs \<le> 4096 \<Longrightarrow>
    prefix bs (lk_down lk) \<Longrightarrow> transfer env i nw (turn_link (\<lambda>_. 0) i (taking bs) nw)"

inductive_cases transferE: "transfer env i nw nw'"

lemma transfer_step: "i < length (nw_links nw) \<Longrightarrow> transfer env i nw nw' \<Longrightarrow> network_step env nw nw'"
  by (elim transferE)
    (auto intro!: network_step.intros simp: flushing_def taking_def arriving_def sending_def client_takes_def server_takes_def)

section \<open>What will have been done\<close>

text \<open>The server once it has dispatched the requests that wait on link \<open>i\<close>, all that the client will then
  get to read, and the client once it has read it.\<close>

definition server_after :: "env \<Rightarrow> nat \<Rightarrow> network \<Rightarrow> server" where
  "server_after env i nw =
     (let lk = nw_links nw ! i; sv = nw_server nw
      in case lk_fd lk of
           None \<Rightarrow> sv
         | Some fd \<Rightarrow> serve env fd (fst (frames srv_split (recv_of sv fd @ lk_up lk @ cl_send_buf (lk_client lk)))) sv)"

definition stream_after :: "env \<Rightarrow> nat \<Rightarrow> network \<Rightarrow> bytes" where
  "stream_after env i nw =
     (let lk = nw_links nw ! i
      in cl_recv_buf (lk_client lk) @ lk_down lk
         @ (case lk_fd lk of None \<Rightarrow> [] | Some fd \<Rightarrow> send_of (server_after env i nw) fd))"

definition client_after :: "env \<Rightarrow> nat \<Rightarrow> network \<Rightarrow> client" where
  "client_after env i nw = respond (fst (frames cl_split (stream_after env i nw))) (lk_client (nw_links nw ! i))"

text \<open>How far the bytes have still to go: two hops before each link, one on it.\<close>

definition way_to_go :: "env \<Rightarrow> nat \<Rightarrow> network \<Rightarrow> nat" where
  "way_to_go env i nw =
     (let lk = nw_links nw ! i
      in 2 * length (cl_send_buf (lk_client lk)) + length (lk_up lk) + length (lk_down lk)
         + (case lk_fd lk of None \<Rightarrow> 0 | Some fd \<Rightarrow> 2 * length (send_of (server_after env i nw) fd)))"

text \<open>Two clients that have shown the same and will react in the same way.\<close>

definition agree :: "client \<Rightarrow> client \<Rightarrow> bool" where
  "agree c e \<longleftrightarrow> calls_made (cl_trace c) = calls_made (cl_trace e) \<and> cl_user_uuid c = cl_user_uuid e
     \<and> cl_use_team_uuid c = cl_use_team_uuid e \<and> cl_running c = cl_running e"

lemma agree_trans [trans]: "agree a b \<Longrightarrow> agree b c \<Longrightarrow> agree a c"
  by (simp add: agree_def)

lemma agree_response: "agree c e \<Longrightarrow> agree (handle_response k p c) (handle_response k p e)"
  by (simp add: agree_def handle_response_calls handle_response_user)
    (simp add: handle_response_def response_calls_def calls_def tell_def Let_def)

lemma agree_respond: "agree c e \<Longrightarrow> agree (respond ms c) (respond ms e)"
proof (induction ms arbitrary: c e)
  case (Cons m ms)
  then show ?case by (cases m) (simp add: agree_response)
qed simp

text \<open>What a server does with frames depends on its data and its clock only.\<close>

lemma serve_alike:
  assumes "sv_data sv = sv_data sw" and "sv_ticks sv = sv_ticks sw" and "connected sv fd" and "connected sw fd"
    and "send_of sv fd = xs @ send_of sw fd"
  shows "sv_data (serve env fd fs sv) = sv_data (serve env fd fs sw)
    \<and> sv_ticks (serve env fd fs sv) = sv_ticks (serve env fd fs sw)
    \<and> send_of (serve env fd fs sv) fd = xs @ send_of (serve env fd fs sw) fd"
  using assms
proof (induction fs arbitrary: sv sw)
  case (Cons m fs)
  obtain c p where m: "m = (c, p)" by force
  have "dispatch_result env fd c p sv = dispatch_result env fd c p sw" "dispatch_ticks fd c sv = dispatch_ticks fd c sw"
    unfolding dispatch_result_def dispatch_ticks_def Cons.prems(1,2) by (rule refl)+
  then show ?case
    unfolding m serve_simps using Cons.prems by (intro Cons.IH) (simp_all add: dispatch_send_of)
qed simp

lemma respond_running: "cl_running (respond ms c) \<Longrightarrow> cl_running c" for c :: client
proof (induction ms arbitrary: c)
  case (Cons m ms)
  have "cl_running (handle_response k p c) \<Longrightarrow> cl_running c" for k p
    by (simp add: handle_response_def Let_def split: if_splits)
  then show ?case using Cons by (cases m) auto
qed simp

lemma server_after_le:
  "sv_ticks (nw_server nw) \<le> sv_ticks (server_after env i nw)"
  "data_le (sv_data (nw_server nw)) (sv_data (server_after env i nw))"
  by (auto simp: server_after_def Let_def serve_ticks serve_le split: option.split)

section \<open>One transfer\<close>

text \<open>A transfer on course: less is left to do, and the outcome stays as it was.\<close>

definition on_course :: "env \<Rightarrow> nat \<Rightarrow> network \<Rightarrow> network \<Rightarrow> bool" where
  "on_course env i nw nw' \<longleftrightarrow> way_to_go env i nw' < way_to_go env i nw
     \<and> length (nw_links nw') = length (nw_links nw) \<and> lk_fd (nw_links nw' ! i) = lk_fd (nw_links nw ! i)
     \<and> sv_data (server_after env i nw') = sv_data (server_after env i nw)
     \<and> sv_ticks (server_after env i nw') = sv_ticks (server_after env i nw)
     \<and> agree (client_after env i nw') (client_after env i nw)"

lemmas after_defs = server_after_def stream_after_def client_after_def way_to_go_def

lemma turn_link_sel:
  assumes "i < length (nw_links nw)"
  shows "nw_server (turn_link net i r nw) = nw_server nw"
    and "length (nw_links (turn_link net i r nw)) = length (nw_links nw)"
    and "nw_links (turn_link net i r nw) ! i = (let lk = nw_links nw ! i; c' = client_round net r (lk_client lk)
      in lk\<lparr>lk_client := c', lk_up := lk_up lk @ client_wrote (lk_client lk) c',
            lk_down := drop (length (client_takes r)) (lk_down lk)\<rparr>)"
  using assms by (simp_all add: turn_link_def Let_def)

lemma serve_link_sel:
  assumes "i < length (nw_links nw)" and "lk_fd (nw_links nw ! i) = Some fd"
    and "connected (service env fd r (nw_server nw)) fd"
  shows "nw_server (serve_link env i fd r nw) = service env fd r (nw_server nw)"
    and "length (nw_links (serve_link env i fd r nw)) = length (nw_links nw)"
    and "nw_links (serve_link env i fd r nw) ! i = (nw_links nw ! i)\<lparr>
      lk_up := drop (length (server_takes r)) (lk_up (nw_links nw ! i)),
      lk_down := lk_down (nw_links nw ! i) @ server_wrote fd (nw_server nw) (service env fd r (nw_server nw))\<rparr>"
  using assms by (simp_all add: serve_link_def Let_def carry_def)

lemma course_upload:
  assumes i: "i < length (nw_links nw)" and fd: "lk_fd (nw_links nw ! i) = Some fd"
    and n: "0 < n" "n \<le> int (length (cl_send_buf (lk_client (nw_links nw ! i))))"
  shows "on_course env i nw (turn_link (\<lambda>_. n) i flushing nw)"
proof -
  let ?lk = "nw_links nw ! i" and ?nw = "turn_link (\<lambda>_. n) i flushing nw"
  let ?c = "lk_client ?lk" and ?c' = "handle_server_write (\<lambda>_. n) (lk_client ?lk)"
  have ne: "cl_send_buf ?c \<noteq> []" using n by auto
  have round: "client_round (\<lambda>_. n) flushing ?c = ?c'" by (simp add: client_round_def flushing_def)
  have takes: "client_takes flushing = []" by (simp add: client_takes_def flushing_def)
  have wrote: "client_wrote ?c ?c' = take (nat n) (cl_send_buf ?c)"
    using ne n by (simp add: client_wrote_def handle_server_write_def tell_def Let_def)
  have c': "agree ?c' ?c" "cl_recv_buf ?c' = cl_recv_buf ?c" "cl_send_buf ?c' = drop (nat n) (cl_send_buf ?c)"
    using ne n by (simp_all add: agree_def handle_server_write_def tell_def Let_def)
  note sel = turn_link_sel[OF i, of "\<lambda>_. n" flushing, unfolded Let_def round takes wrote]
  have sv: "server_after env i ?nw = server_after env i nw"
    by (simp add: server_after_def sel c'(3) fd Let_def)
  then have "stream_after env i ?nw = stream_after env i nw" by (simp add: stream_after_def sel c'(2) fd Let_def)
  then have "agree (client_after env i ?nw) (client_after env i nw)"
    using agree_respond[OF c'(1)] by (simp add: client_after_def sel)
  moreover have "way_to_go env i ?nw < way_to_go env i nw"
    using n fd sv by (simp add: way_to_go_def sel c'(3) Let_def)
  ultimately show ?thesis by (simp add: on_course_def sv sel)
qed

lemma course_download:
  assumes i: "i < length (nw_links nw)" and fd: "lk_fd (nw_links nw ! i) = Some fd"
    and bs: "bs \<noteq> []" "prefix bs (lk_down (nw_links nw ! i))"
  shows "on_course env i nw (turn_link (\<lambda>_. 0) i (taking bs) nw)"
proof -
  let ?lk = "nw_links nw ! i" and ?nw = "turn_link (\<lambda>_. 0) i (taking bs) nw"
  let ?c = "lk_client ?lk" and ?c' = "handle_server_read (Some bs) (lk_client ?lk)"
  obtain later where later: "lk_down ?lk = bs @ later" using bs(2) by (auto simp: prefix_def)
  have round: "client_round (\<lambda>_. 0) (taking bs) ?c = ?c'" by (simp add: client_round_def taking_def)
  have takes: "client_takes (taking bs) = bs" by (simp add: client_takes_def taking_def)
  have wrote: "client_wrote ?c ?c' = []"
    using server_read_writes(1)[of "Some bs" ?c] by (auto simp: client_wrote_def)
  note sel = turn_link_sel[OF i, of "\<lambda>_. 0" "taking bs", unfolded Let_def round takes wrote]
  obtain fs rest bad where f: "frames cl_split (cl_recv_buf ?c @ bs) = (fs, rest, bad)" by (metis prod_cases3)
  have "\<not> bad" using cl.frames_end[OF f] cl_split_not_Reject by (auto split: if_splits)
  note more = cl.frames_more[OF f, unfolded if_not_P[OF \<open>\<not> bad\<close>]]
  have c': "?c' = respond fs ?c\<lparr>cl_recv_buf := rest\<rparr>" by (simp add: handle_server_read_respond f)
  have sv: "server_after env i ?nw = server_after env i nw"
    by (simp add: server_after_def sel server_read_writes(2) fd Let_def)
  define ys where "ys = later @ send_of (server_after env i nw) fd"
  have "stream_after env i nw = (cl_recv_buf ?c @ bs) @ ys" "stream_after env i ?nw = rest @ ys"
    using fd sv by (simp_all add: stream_after_def sel later ys_def c' Let_def)
  then have "client_after env i nw = respond (fst (frames cl_split (rest @ ys))) (respond fs ?c)"
      "client_after env i ?nw = respond (fst (frames cl_split (rest @ ys))) (respond fs ?c\<lparr>cl_recv_buf := rest\<rparr>)"
    using more[of ys] by (simp_all add: client_after_def sel c' split: prod.split)
  then have "agree (client_after env i ?nw) (client_after env i nw)" by (simp add: respond_recv agree_def)
  moreover have "way_to_go env i ?nw < way_to_go env i nw"
    using bs(1) fd sv by (simp add: way_to_go_def sel later server_read_writes(2) Let_def)
  ultimately show ?thesis by (simp add: on_course_def sv sel)
qed

lemma course_arrival:
  assumes reach: "network_reachable env nw" and i: "i < length (nw_links nw)" and fd: "lk_fd (nw_links nw ! i) = Some fd"
    and bs: "bs \<noteq> []" "prefix bs (lk_up (nw_links nw ! i))"
  shows "on_course env i nw (serve_link env i fd (arriving bs) nw)"
proof -
  let ?lk = "nw_links nw ! i" and ?sv = "nw_server nw" and ?nw = "serve_link env i fd (arriving bs) nw"
  let ?c = "lk_client ?lk"
  have mem: "?lk \<in> set (nw_links nw)" using i by simp
  note wf = sv_consistentD(1)[OF consistent_reachable[OF network_server[OF reach]]]
  note conn = link_connected[OF reach mem fd]
  obtain later where later: "lk_up ?lk = bs @ later" using bs(2) by (auto simp: prefix_def)
  obtain fs rest where f: "frames srv_split (recv_of ?sv fd @ bs) = (fs, rest, False)"
      and read: "handle_client_read env fd (Some bs) ?sv = set_recv fd rest (serve env fd fs ?sv)"
    using requests_read[OF reach mem fd bs(2)] by metis
  let ?sv1 = "serve env fd fs ?sv" and ?sv' = "set_recv fd rest (serve env fd fs ?sv)"
  have serv: "service env fd (arriving bs) ?sv = ?sv'"
    using conn read by (simp add: service_def arriving_def Let_def)
  have takes: "server_takes (arriving bs) = bs" by (simp add: server_takes_def arriving_def)
  obtain ls where "sv_trace ?sv1 = sv_trace ?sv @ map IO_log ls" using serve_trace by blast
  then have wrote: "server_wrote fd ?sv ?sv' = []" by (simp add: server_wrote_def written_quiet)
  have c': "connected ?sv' fd" "recv_of ?sv' fd = rest" using conn wf by simp_all
  note sel = serve_link_sel[OF i fd, of env "arriving bs", unfolded serv takes wrote, OF c'(1)]
  define gs where "gs = fst (frames srv_split (rest @ later @ cl_send_buf ?c))"
  have "frames srv_split (recv_of ?sv fd @ bs @ later @ cl_send_buf ?c)
      = (case frames srv_split (rest @ later @ cl_send_buf ?c) of (gs, rest', bad') \<Rightarrow> (fs @ gs, rest', bad'))"
    using srv.frames_more[OF f, of "later @ cl_send_buf ?c"] by simp
  then have "server_after env i nw = serve env fd gs ?sv1"
    using fd by (simp add: server_after_def later gs_def split: prod.split)
  moreover have "server_after env i ?nw = serve env fd gs ?sv'"
    using fd c'(2) by (simp add: server_after_def sel later gs_def)
  ultimately have same: "sv_data (server_after env i ?nw) = sv_data (server_after env i nw)"
      "sv_ticks (server_after env i ?nw) = sv_ticks (server_after env i nw)"
      "send_of (server_after env i ?nw) fd = send_of (server_after env i nw) fd"
    using serve_alike[of ?sv' ?sv1 fd "[]" env gs] conn by simp_all
  then have "stream_after env i ?nw = stream_after env i nw" using fd by (simp add: stream_after_def sel Let_def)
  then have "agree (client_after env i ?nw) (client_after env i nw)" by (simp add: client_after_def sel agree_def)
  moreover have "way_to_go env i ?nw < way_to_go env i nw"
    using bs(1) fd same(3) by (simp add: way_to_go_def sel later Let_def)
  ultimately show ?thesis using same by (simp add: on_course_def sel)
qed

lemma course_departure:
  assumes reach: "network_reachable env nw" and i: "i < length (nw_links nw)" and fd: "lk_fd (nw_links nw ! i) = Some fd"
    and n: "0 < n" "n \<le> int (length (send_of (nw_server nw) fd))"
  shows "on_course env i nw (serve_link env i fd (sending n) nw)"
proof -
  let ?lk = "nw_links nw ! i" and ?sv = "nw_server nw" and ?nw = "serve_link env i fd (sending n) nw"
  let ?buf = "send_of ?sv fd" and ?sv' = "handle_client_write fd n (nw_server nw)"
  have mem: "?lk \<in> set (nw_links nw)" using i by simp
  note wf = sv_consistentD(1)[OF consistent_reachable[OF network_server[OF reach]]]
  note conn = link_connected[OF reach mem fd]
  have "?buf \<noteq> []" using n by auto
  then have sv': "?sv' = upd_client fd (\<lambda>c. c\<lparr>cs_send_buffer := drop (nat n) ?buf\<rparr>) (emit [IO_write fd (take (nat n) ?buf)] ?sv)"
    using n conn wf by (simp add: handle_client_write_def upd_client_id Let_def)
  have part: "sv_data ?sv' = sv_data ?sv" "sv_ticks ?sv' = sv_ticks ?sv" "connected ?sv' fd"
      "send_of ?sv' fd = drop (nat n) ?buf" "recv_of ?sv' fd = recv_of ?sv fd" "server_wrote fd ?sv ?sv' = take (nat n) ?buf"
    unfolding sv' by (simp_all add: send_of_def recv_of_def client_at_upd server_wrote_def)
  have serv: "service env fd (sending n) ?sv = ?sv'" using conn by (simp add: service_def sending_def Let_def)
  have takes: "server_takes (sending n) = []" by (simp add: server_takes_def sending_def)
  note sel = serve_link_sel[OF i fd, of env "sending n", unfolded serv takes part(6), OF part(3)]
  define gs where "gs = fst (frames srv_split (recv_of ?sv fd @ lk_up ?lk @ cl_send_buf (lk_client ?lk)))"
  have after: "server_after env i nw = serve env fd gs ?sv" "server_after env i ?nw = serve env fd gs ?sv'"
    using fd part(5) by (simp_all add: server_after_def sel gs_def Let_def)
  have same: "sv_data (server_after env i ?nw) = sv_data (server_after env i nw)"
      "sv_ticks (server_after env i ?nw) = sv_ticks (server_after env i nw)"
      "send_of (server_after env i nw) fd = take (nat n) ?buf @ send_of (server_after env i ?nw) fd"
    using serve_alike[of ?sv ?sv' fd "take (nat n) ?buf" env gs] conn part unfolding after by simp_all
  then have "stream_after env i ?nw = stream_after env i nw" using fd by (simp add: stream_after_def sel Let_def)
  then have "agree (client_after env i ?nw) (client_after env i nw)" by (simp add: client_after_def sel agree_def)
  moreover have "way_to_go env i ?nw < way_to_go env i nw"
    using n fd same(3) by (simp add: way_to_go_def sel Let_def)
  ultimately show ?thesis using same by (simp add: on_course_def sel)
qed

section \<open>Any number of transfers\<close>

lemma transfer_on_course:
  assumes "network_reachable env nw" and "i < length (nw_links nw)" and "lk_fd (nw_links nw ! i) = Some fd"
    and "transfer env i nw nw'"
  shows "on_course env i nw nw'"
  using assms(4)
proof (cases rule: transfer.cases)
  case (upload lk n)
  then show ?thesis using course_upload[OF assms(2,3)] by simp
next
  case (arrival lk fd' bs)
  then show ?thesis using course_arrival[OF assms(1-3)] assms(3) by simp
next
  case (departure lk fd' n)
  then show ?thesis using course_departure[OF assms(1-3)] assms(3) by simp
next
  case (download lk bs)
  then show ?thesis using course_download[OF assms(2,3)] by simp
qed

lemma transfers_on_course:
  assumes "(transfer env i ^^ n) nw nw'" and "network_reachable env nw" and "i < length (nw_links nw)"
    and "lk_fd (nw_links nw ! i) = Some fd"
  shows "network_reachable env nw' \<and> i < length (nw_links nw') \<and> lk_fd (nw_links nw' ! i) = Some fd
    \<and> n + way_to_go env i nw' \<le> way_to_go env i nw
    \<and> sv_data (server_after env i nw') = sv_data (server_after env i nw)
    \<and> sv_ticks (server_after env i nw') = sv_ticks (server_after env i nw)
    \<and> agree (client_after env i nw') (client_after env i nw)"
  using assms
proof (induction n arbitrary: nw')
  case 0
  then show ?case by (simp add: agree_def)
next
  case (Suc n)
  obtain mid where mid: "(transfer env i ^^ n) nw mid" "transfer env i mid nw'" using Suc.prems(1) by auto
  note IH = Suc.IH[OF mid(1) Suc.prems(2-4)]
  then have course: "on_course env i mid nw'" using transfer_on_course[OF _ _ _ mid(2)] by blast
  have "network_reachable env nw'"
    using IH transfer_step[OF _ mid(2)] network_reachable.step by blast
  moreover have "agree (client_after env i nw') (client_after env i nw)"
    using course IH agree_trans unfolding on_course_def by blast
  ultimately show ?case using course IH unfolding on_course_def by simp
qed

text \<open>When no transfer is possible any more, nothing is left to be transferred.\<close>

lemma transfers_exhausted:
  assumes "\<nexists>nw'. transfer env i nw nw'" and "lk_fd (nw_links nw ! i) = Some fd"
  defines "lk \<equiv> nw_links nw ! i"
  shows "lk_up lk = []" and "send_of (nw_server nw) fd = []"
    and "cl_running (lk_client lk) \<Longrightarrow> cl_send_buf (lk_client lk) = [] \<and> lk_down lk = []"
proof -
  have take: "take 4096 bs \<noteq> [] \<and> length (take 4096 bs) \<le> 4096 \<and> prefix (take 4096 bs) bs" if "bs \<noteq> []" for bs :: bytes
    using that by (simp add: take_is_prefix)
  show "lk_up lk = []" using assms(1,2) take transfer.arrival unfolding lk_def by metis
  have pos: "0 < int (length bs)" if "bs \<noteq> []" for bs :: bytes using that by simp
  show "send_of (nw_server nw) fd = []" using assms(1,2) pos transfer.departure[OF refl _ _ order_refl] by metis
  assume run: "cl_running (lk_client lk)"
  have "cl_send_buf (lk_client lk) = []"
    using assms(1) run pos transfer.upload[OF refl _ _ order_refl] unfolding lk_def by metis
  moreover have "lk_down lk = []" using assms(1) run take transfer.download unfolding lk_def by metis
  ultimately show "cl_send_buf (lk_client lk) = [] \<and> lk_down lk = []" ..
qed

text \<open>Then the outcome is there.\<close>

lemma outcome_reached:
  assumes "network_reachable env nw" and "i < length (nw_links nw)" and "lk_fd (nw_links nw ! i) = Some fd"
    and "good_gen (env_uuid env) (sv_ticks (nw_server nw))" and "small (sv_data (nw_server nw))"
    and "lk_up (nw_links nw ! i) = []" and "lk_down (nw_links nw ! i) = []"
    and "cl_send_buf (lk_client (nw_links nw ! i)) = []" and "send_of (nw_server nw) fd = []"
  shows "recv_of (nw_server nw) fd = []" and "cl_recv_buf (lk_client (nw_links nw ! i)) = []"
    and "server_after env i nw = nw_server nw" and "client_after env i nw = lk_client (nw_links nw ! i)"
proof -
  let ?lk = "nw_links nw ! i"
  have mem: "?lk \<in> set (nw_links nw)" using assms(2) by simp
  show recv: "recv_of (nw_server nw) fd = []" by (rule idle_received[OF assms(1) mem assms(3,6,8)])
  have "link_sound (nw_server nw) ?lk" using network_sound[OF assms(1,4,5)] mem by (simp add: links_sound_def)
  then show got: "cl_recv_buf (lk_client ?lk) = []"
    using cl_whole[OF _ assms(5)] assms(3,7,9) by (auto simp: link_sound_def downstream_def)
  have "frames srv_split [] = ([], [], False)" "frames cl_split [] = ([], [], False)"
    by (simp_all add: srv.frames_Incomplete cl.frames_Incomplete srv_split_def cl_split_def)
  then show "server_after env i nw = nw_server nw" "client_after env i nw = lk_client ?lk"
    using assms(3,6-9) recv got by (simp_all add: server_after_def stream_after_def client_after_def)
qed

end
