(* ===== verification/Sample.thy ===== *)
theory Sample
  imports Server_Loop
begin

text \<open>
  Concrete inputs for the instances that go with the properties: three users, one team
  with a channel, a thread and a reply, and a server on which all three are connected.
  Alice and Bob are members of the team; Carol is not. Bob has selected the thread.
\<close>

section \<open>Identifiers\<close>

definition sid :: "byte \<Rightarrow> bytes" where "sid b = replicate 36 b"
definition sid37 :: "byte \<Rightarrow> bytes" where "sid37 b = sid b @ [0]"

lemma sid_simps [simp]:
  "length (sid b) = 36" "take 36 (sid b) = sid b" "sid b = sid c \<longleftrightarrow> b = c"
  "length (sid37 b) = 37" "take 36 (sid37 b) = sid b" "sid37 b = sid37 c \<longleftrightarrow> b = c"
  "sid b \<noteq> []"
  by (simp_all add: sid_def sid37_def)

lemma sid_cstr [simp]: "b \<noteq> 0 \<Longrightarrow> cstr (sid37 b) = sid b" "b \<noteq> 0 \<Longrightarrow> cstr (sid b) = sid b"
  by (simp_all add: sid37_def sid_def cstr_append_nul cstr_ident)

lemma sid_valid [simp]: "b \<noteq> 0 \<Longrightarrow> valid_uuid37 (sid37 b)" "b \<noteq> 0 \<Longrightarrow> valid_uuid36 (sid b)"
  by (simp_all add: valid_uuid37_def valid_uuid36_def sid37_def sid_def nth_append)

section \<open>Data\<close>

definition sample_user :: "byte \<Rightarrow> int \<Rightarrow> user_t" where
  "sample_user b fd = \<lparr>user_uuid = sid37 b, user_name = set_fixed_name [b], user_is_logged = True, user_fd = fd\<rparr>"

definition sample_reply :: reply_t where
  "sample_reply = \<lparr>reply_uuid = sid37 0x72, reply_creator_uuid = sid37 1, reply_body = zeros 512, reply_timestamp = 7\<rparr>"

definition sample_thread :: thread_t where
  "sample_thread = \<lparr>thread_uuid = sid37 0x68, thread_creator_uuid = sid37 1, thread_title = zeros 32,
     thread_body = zeros 512, thread_timestamp = 6, thread_replies = [sample_reply]\<rparr>"

definition sample_channel :: channel_t where
  "sample_channel = \<lparr>channel_uuid = sid37 0x63, channel_name = zeros 32, channel_description = zeros 255,
     channel_threads = [sample_thread]\<rparr>"

definition sample_team :: team_t where
  "sample_team = \<lparr>team_uuid = sid37 0x74, team_name = zeros 32, team_description = zeros 255,
     team_channels = [sample_channel], team_member_uuids = [sid 1, sid 2]\<rparr>"

definition sample_context :: "use_level \<Rightarrow> client_context_t" where
  "sample_context l = \<lparr>ctx_level = use_code l, ctx_team_uuid = sid37 0x74, ctx_channel_uuid = sid37 0x63,
     ctx_thread_uuid = sid37 0x68\<rparr>"

text \<open>Alice is 1 on descriptor 4, Bob 2 on descriptor 5, Carol 3 on descriptor 6.\<close>

definition sample_data :: server_data_t where
  "sample_data = \<lparr>users = [sample_user 1 4, sample_user 2 5, sample_user 3 6],
     sessions = [(4, sid 1), (5, sid 2), (6, sid 3)],
     client_contexts = [(4, context0), (5, sample_context USE_THREAD), (6, sample_context USE_TEAM)],
     teams = [sample_team], messages = []\<rparr>"

lemmas sample_defs = sample_user_def sample_reply_def sample_thread_def sample_channel_def sample_team_def
  sample_context_def sample_data_def

lemma sample_lookups [simp]:
  "find_team_by_uuid sample_data (sid 0x74) = Some 0"
  "find_channel_by_uuid sample_team (sid 0x63) = Some 0"
  "find_thread_by_uuid sample_channel (sid 0x68) = Some 0"
  "teams sample_data ! 0 = sample_team" "team_channels sample_team ! 0 = sample_channel"
  "channel_threads sample_channel ! 0 = sample_thread"
  by (simp_all add: find_team_by_uuid_def find_channel_by_uuid_def find_thread_by_uuid_def is_uuid36_def sample_defs)

lemma sample_resolve [simp]:
  "resolve_team sample_data (sample_context l) = Some 0"
  "resolve_channel sample_data (sample_context l) = Some (0, 0)"
  "resolve_thread sample_data (sample_context l) = Some (0, 0, 0)"
  by (simp_all add: resolve_team_def resolve_channel_def resolve_thread_def sample_context_def)

lemma sample_ctx_valid: "ctx_valid sample_data (sample_context l)"
  unfolding ctx_valid_def by (rule exI[of _ l]) (simp add: sample_context_def[of l, symmetric], simp add: sample_context_def)

lemma sample_user_ids [simp]: "user_ids sample_data = {sid 1, sid 2, sid 3}"
  by (simp add: user_ids_def sample_data_def sample_user_def)

lemma sample_wf: "wf_data sample_data"
proof -
  have "wf_users sample_data"
    by (simp add: wf_users_def sample_data_def sample_user_def wf_user_def)
  moreover have "wf_sessions sample_data"
    by (rule wf_sessionsI) (auto simp: sample_data_def sample_user_def omap_wf_def split: if_splits)
  moreover have "wf_contexts sample_data"
    unfolding wf_contexts_def
    using sample_ctx_valid by (auto simp: sample_data_def split: if_splits)
  moreover have "wf_teams sample_data"
    unfolding wf_teams_def sample_user_ids
    by (simp add: sample_data_def sample_team_def sample_channel_def sample_thread_def sample_reply_def
        wf_team_def wf_channel_def wf_thread_def wf_reply_def)
  moreover have "wf_messages sample_data"
    by (simp add: wf_messages_def sample_data_def)
  ultimately show ?thesis by (simp add: wf_data_def)
qed

section \<open>Server\<close>

definition sample_server :: server where
  "sample_server = \<lparr>sv_data = sample_data,
     sv_clients = map (\<lambda>fd. (fd, client_state0\<lparr>cs_fd := fd\<rparr>)) [4, 5, 6],
     sv_server_fd = 3, sv_running = True, sv_ticks = 0, sv_trace = []\<rparr>"

lemma sample_connected [simp]: "connected sample_server fd \<longleftrightarrow> fd \<in> {4, 5, 6}"
  by (simp add: connected_def sample_server_def)

lemma sample_server_data [simp]: "sv_data sample_server = sample_data"
  by (simp add: sample_server_def)

lemma sample_buffers [simp]: "recv_of sample_server fd = []" "send_of sample_server fd = []"
  by (simp_all add: recv_of_def send_of_def client_at_def sample_server_def client_state0_def)

lemma sample_consistent: "sv_consistent sample_server"
  by (auto simp: sv_consistent_def sample_server_def sample_data_def omap_wf_def split: if_splits)

lemma sample_clients_wf [simp]: "omap_wf (sv_clients sample_server)"
  using sample_consistent by (simp add: sv_consistent_def)

text \<open>UUIDs that are valid and differ for the first 30 commands.\<close>

definition sample_uuid :: "nat \<Rightarrow> bytes" where
  "sample_uuid k = replicate k 0x31 @ replicate (36 - k) 0x30 @ [0]"

definition sample_env :: env where
  "sample_env = \<lparr>env_uuid = sample_uuid, env_clock = word_of_nat\<rparr>"

lemma sample_uuid_inj: "j < 30 \<Longrightarrow> k < 30 \<Longrightarrow> sample_uuid j = sample_uuid k \<Longrightarrow> j = k"
proof -
  have count: "length (filter (\<lambda>b. b = 0x31) (sample_uuid n)) = n" for n
    by (simp add: sample_uuid_def filter_replicate)
  assume "sample_uuid j = sample_uuid k"
  then show "j = k" using count by metis
qed

lemma sample_gen: "good_gen (env_uuid sample_env) 30"
  using sample_uuid_inj
  by (auto simp: good_gen_def sample_env_def inj_on_def valid_uuid37_def sample_uuid_def nth_append
      dest: in_set_takeD)

section \<open>A short run\<close>

text \<open>A connection is accepted and its first read brings the login of Alice.\<close>

definition reading :: "bytes \<Rightarrow> readiness" where
  "reading bs = \<lparr>rv_error = False, rv_pollin = True, rv_pollout = False, rv_read = Some bs, rv_write = 0\<rparr>"

definition sample_conn :: server where
  "sample_conn = handle_new_connection 4 (server0 3\<lparr>sv_running := True\<rparr>)"

definition sample_login_bytes :: bytes where
  "sample_login_bytes = make_message (command_code CMD_LOGIN) (set_fixed_name [0x61])"

definition sample_run :: server where
  "sample_run = service sample_env 4 (reading sample_login_bytes) sample_conn"

lemma sample_conn_reachable: "reachable sample_env sample_conn"
  unfolding sample_conn_def
  by (rule reachable.step[OF reachable.start]) (rule server_step.accept, simp add: connected_def server0_def)

lemma sample_run_reachable: "reachable sample_env sample_run"
  unfolding sample_run_def
  by (rule reachable.step[OF sample_conn_reachable]) (rule server_step.service)

lemma sample_conn_simps [simp]:
  "connected sample_conn fd \<longleftrightarrow> fd = 4" "recv_of sample_conn fd = []"
  "sv_data sample_conn = server_data0" "sv_ticks sample_conn = 0" "omap_wf (sv_clients sample_conn)"
  using sv_consistentD(1)[OF consistent_reachable[OF sample_conn_reachable]]
  by (simp_all add: sample_conn_def server0_def recv_of_def client_at_def handle_new_connection_def
      omap_find_set client_state0_def emit_def) (simp_all add: connected_def)

lemma sample_frames: "frames srv_split sample_login_bytes
    = ([(command_code CMD_LOGIN, set_fixed_name [0x61])], [], False)"
proof -
  have "srv_split [] = Incomplete" by (simp add: srv_split_def)
  moreover have "srv_split sample_login_bytes = Frame (command_code CMD_LOGIN, set_fixed_name [0x61]) []"
    using srv_split_message[of "set_fixed_name [0x61]" "command_code CMD_LOGIN" "[]"]
    by (simp add: sample_login_bytes_def)
  ultimately show ?thesis by (simp add: srv.frames_Frame srv.frames_Incomplete)
qed

lemma sample_run_eq: "sample_run
    = set_recv 4 [] (dispatch sample_env 4 (command_code CMD_LOGIN) (set_fixed_name [0x61]) sample_conn)"
proof -
  have "handle_client_read sample_env 4 (Some sample_login_bytes) sample_conn
      = set_recv 4 [] (dispatch sample_env 4 (command_code CMD_LOGIN) (set_fixed_name [0x61]) sample_conn)"
    by (subst handle_client_read_serve) (simp_all add: sample_frames)
  then show ?thesis by (simp add: sample_run_def service_def reading_def)
qed

lemma sample_run_simps [simp]:
  "connected sample_run fd \<longleftrightarrow> fd = 4" "sv_ticks sample_run = 1"
  "omap_find (sessions (sv_data sample_run)) 4 = Some (cstr (sample_uuid 0))"
  unfolding sample_run_eq
  by (simp_all add: dispatch_ticks_def command_of_code_code[of CMD_LOGIN, simplified]
      dispatch_result_def run_command_def handle_login_def login_user_def find_user_by_name_def
      server_data0_def Let_def sample_env_def)

end
