(* ===== verification/Team_Properties.thy ===== *)
theory Team_Properties
  imports Team_Views Server_Output Sample
begin

text \<open>
  Properties of teams and of the commands as a whole: the refinement of the specification,
  who may write where, who is told about a creation, and what reading commands show
  afterwards. Each property is followed by an instance on the sample data.
\<close>

section \<open>The specification is implemented\<close>

lemma sample_fresh: "fresh_uuid (sid37 0x7A) sample_data"
  by (simp add: fresh_uuid_def data_uuids_def team_uuids_def channel_uuids_def sample_defs)

text \<open>C1: A command succeeds exactly when the action its payload asks for is allowed by the
  specification, and then the world read off the data changes by exactly that action. Otherwise, and
  when the payload is malformed, the answer is an error and the data is untouched.\<close>

theorem commands_implement_specification:
  assumes "wf_data d" and "fresh_uuid fresh d"
  shows "let r = run_command cmd fresh now fd p d in
    (case requested cmd fresh now p d of
       None \<Rightarrow> refused r \<and> out_data r = d
     | Some a \<Rightarrow>
         if allowed (world_of d) fd a
         then \<not> refused r \<and> world_of (out_data r) = perform fd a (world_of d)
         else refused r \<and> out_data r = d)"
  using run_command_malformed[of cmd fresh now p d fd] run_command_implements[OF assms, of cmd now p _ fd]
  by (cases "requested cmd fresh now p d") (simp_all add: Let_def implements_def del: world_of_sel)

lemma sample_session [simp]:
  "omap_find (sessions sample_data) 4 = Some (sid 1)" "omap_find (sessions sample_data) 5 = Some (sid 2)"
  "omap_find (sessions sample_data) 6 = Some (sid 3)"
  by (simp_all add: sample_data_def)

lemma sample_members [simp]: "set (team_member_uuids sample_team) = {sid 1, sid 2}"
  by (simp add: sample_team_def)

text \<open>Carol may subscribe to the team and then is a member.\<close>

theorem commands_implement_specification_witness:
  "\<not> refused (run_command CMD_SUBSCRIBE (sid37 0x7A) 0 6 (sid 0x74) sample_data)
   \<and> w_member (world_of (out_data (run_command CMD_SUBSCRIBE (sid37 0x7A) 0 6 (sid 0x74) sample_data)))
      = insert (sid 3, sid 0x74) (w_member (world_of sample_data))"
proof -
  have "requested CMD_SUBSCRIBE (sid37 0x7A) 0 (sid 0x74) sample_data = Some (Subscribe (sid 0x74))"
    by (simp add: requested_def)
  moreover have "allowed (world_of sample_data) 6 (Subscribe (sid 0x74))"
    using team_found[OF sample_lookups(1)] by (simp add: allowed_with_session(6)[of _ _ "sid 3"])
  ultimately show ?thesis
    using commands_implement_specification[OF sample_wf sample_fresh, of CMD_SUBSCRIBE 0 6 "sid 0x74"]
    by (simp add: Let_def perform_def del: world_of_sel(3-))
qed

text \<open>C2: Whatever clients send, in whatever order and pieces, the world of a reachable server is one the
  specification reaches from the empty world by allowed actions, and so has all its invariants:
  sessions belong to known users and stand in places that exist, members are known users of known
  teams, nodes lie in existing nodes, and messages run between known users.\<close>

theorem server_refines_specification:
  assumes "reachable env sv" and "good_gen (env_uuid env) (sv_ticks sv)"
  shows "evolves world0 (world_of (sv_data sv)) \<and> sane (world_of (sv_data sv))"
proof -
  have "world_ok (env_uuid env) 0 server_data0"
    using wf_server_data0 by (simp add: world_ok_def data_ok_def data_uuids_def world_of_server_data0 evolves_refl)
      (simp add: server_data0_def)
  from refined.reachable[OF refl this assms(1)] have "evolves world0 (world_of (sv_data sv))"
    using world_okD assms(2) by blast
  then show ?thesis using evolves_sane[OF _ sane_world0] by blast
qed

theorem server_refines_specification_witness:
  "evolves world0 (world_of (sv_data sample_run)) \<and> sane (world_of (sv_data sample_run))"
  by (rule server_refines_specification[OF sample_run_reachable])
    (use good_gen_mono[OF sample_gen, of 1] in simp)

section \<open>Who changes what\<close>

lemma implemented_effect:
  assumes "wf_data d" and "fresh_uuid fresh d"
  obtains (same) "out_data (run_command cmd fresh now fd p d) = d"
  | (act) a where "allowed (world_of d) fd a" and "requested cmd fresh now p d = Some a"
      and "world_of (out_data (run_command cmd fresh now fd p d)) = perform fd a (world_of d)"
proof (cases "requested cmd fresh now p d")
  case None
  then show ?thesis using run_command_malformed same by blast
next
  case (Some a)
  then show ?thesis
    using run_command_implements[OF assms Some, of fd] same act by (auto simp: implements_def split: if_splits)
qed

text \<open>C13: What is stored at a place appears only by a command of a member of the team the place is in,
  or as a new team; nothing stored is ever replaced or removed by a command.\<close>

theorem only_members_write:
  assumes "wf_data d" and "fresh_uuid fresh d"
    and "w_node (world_of (out_data (run_command cmd fresh now fd p d))) q \<noteq> w_node (world_of d) q"
  shows "\<exists>s. omap_find (sessions d) fd = Some s \<and> cmd = CMD_CREATE \<and> w_node (world_of d) q = None
    \<and> (length q = 1 \<or> (s, hd q) \<in> w_member (world_of d))"
  using assms(1,2)
proof (cases rule: implemented_effect[of d fresh cmd now fd p])
  case (act a)
  then obtain u b n where a: "a = Create u b n" and q: "q = the (w_place (world_of d) fd) @ [u]"
    using assms(3) by (cases a) (auto simp: perform_def Let_def simp del: world_of_sel split: if_splits)
  obtain s place where s: "omap_find (sessions d) fd = Some s" "w_place (world_of d) fd = Some place"
      "may_enter (world_of d) s place" "w_node (world_of d) (place @ [u]) = None"
    using act(1) unfolding a allowed_Create by auto
  have "cmd = CMD_CREATE"
    using act(2) a by (cases cmd) (auto simp: requested_def Let_def split: if_splits)
  then show ?thesis using s q by (cases place) (auto simp: may_enter_def simp del: world_of_sel)
qed (use assms(3) in simp)

lemma sample_contexts [simp]:
  "omap_find (client_contexts sample_data) 4 = Some context0"
  "omap_find (client_contexts sample_data) 5 = Some (sample_context USE_THREAD)"
  "omap_find (client_contexts sample_data) 6 = Some (sample_context USE_TEAM)"
  by (simp_all add: sample_data_def)

lemma sample_place [simp]: "place_of (sample_context USE_THREAD) = [sid 0x74, sid 0x63, sid 0x68]"
  by (simp add: place_of_def sample_context_def take_Cons_numeral)

lemma sample_reply_leaf: "w_node (world_of sample_data) [sid 0x74, sid 0x63, sid 0x68, sid 0x7A] = None"
  by (simp add: lookup_nodes)
    (simp add: thread_nodes_def tree_def sample_thread_def sample_reply_def)

lemma sample_reply_allowed:
  "allowed (world_of sample_data) 5 (Create (sid 0x7A) (zeros 512) 0)"
  using sample_reply_leaf
  by (simp add: allowed_Create_at[of _ _ "sid 2" "sample_context USE_THREAD"] node_bytes_def
      may_enter_team[of _ _ 0] del: world_of_sel)

lemma sample_reply_created:
  "world_of (out_data (run_command CMD_CREATE (sid37 0x7A) 0 5 (zeros 512) sample_data))
     = perform 5 (Create (sid 0x7A) (zeros 512) 0) (world_of sample_data)"
  using run_command_implements[OF sample_wf sample_fresh, of CMD_CREATE 0 "zeros 512" _ 5] sample_reply_allowed
  by (simp add: requested_def implements_def del: world_of_sel)

text \<open>Bob's reply appears in his team.\<close>

theorem only_members_write_witness:
  "\<exists>s. omap_find (sessions sample_data) 5 = Some s \<and> CMD_CREATE = CMD_CREATE
    \<and> w_node (world_of sample_data) [sid 0x74, sid 0x63, sid 0x68, sid 0x7A] = None
    \<and> (length [sid 0x74, sid 0x63, sid 0x68, sid 0x7A] = 1
       \<or> (s, hd [sid 0x74, sid 0x63, sid 0x68, sid 0x7A]) \<in> w_member (world_of sample_data))"
proof (rule only_members_write[OF sample_wf sample_fresh])
  show "w_node (world_of (out_data (run_command CMD_CREATE (sid37 0x7A) 0 5 (zeros 512) sample_data)))
      [sid 0x74, sid 0x63, sid 0x68, sid 0x7A]
    \<noteq> w_node (world_of sample_data) [sid 0x74, sid 0x63, sid 0x68, sid 0x7A]"
    using sample_reply_leaf unfolding sample_reply_created
    by (simp add: perform_def Let_def del: world_of_sel(4))
qed

text \<open>C17: A command changes the membership of nobody but the user who sent it: to join by
  \<open>/subscribe\<close> or by creating the team, to leave by \<open>/unsubscribe\<close>.\<close>

theorem membership_is_own_choice:
  assumes "wf_data d" and "fresh_uuid fresh d"
    and "((u, t) \<in> w_member (world_of (out_data (run_command cmd fresh now fd p d))))
           \<noteq> ((u, t) \<in> w_member (world_of d))"
  shows "omap_find (sessions d) fd = Some u
    \<and> (if (u, t) \<in> w_member (world_of d) then cmd = CMD_UNSUBSCRIBE \<and> take 36 p = t
       else cmd = CMD_SUBSCRIBE \<and> take 36 p = t \<or> cmd = CMD_CREATE \<and> t = cstr fresh)"
  using assms(1,2)
proof (cases rule: implemented_effect[of d fresh cmd now fd p])
  case (act a)
  from act(1) obtain s where s: "(\<exists>v n. a = Login v n) \<or> omap_find (sessions d) fd = Some s"
    by (cases rule: allowed_needs_session) auto
  show ?thesis
    using act(2,3) assms(3) s
    by (cases a; cases cmd)
      (auto simp: perform_def requested_def Let_def simp del: world_of_sel(3-) split: if_splits)
qed (use assms(3) in simp)

theorem membership_is_own_choice_witness:
  "omap_find (sessions sample_data) 6 = Some (sid 3)
    \<and> (if (sid 3, sid 0x74) \<in> w_member (world_of sample_data)
       then CMD_SUBSCRIBE = CMD_UNSUBSCRIBE \<and> take 36 (sid 0x74) = sid 0x74
       else CMD_SUBSCRIBE = CMD_SUBSCRIBE \<and> take 36 (sid 0x74) = sid 0x74
         \<or> CMD_SUBSCRIBE = CMD_CREATE \<and> sid 0x74 = cstr (sid37 0x7A))"
proof (rule membership_is_own_choice[OF sample_wf sample_fresh])
  have "implements sample_data 6 (Subscribe (sid 0x74)) (run_command CMD_SUBSCRIBE (sid37 0x7A) 0 6 (sid 0x74) sample_data)"
    by (rule run_command_implements[OF sample_wf sample_fresh]) (simp add: requested_def)
  moreover have "allowed (world_of sample_data) 6 (Subscribe (sid 0x74))"
    using team_found[OF sample_lookups(1)] by (simp add: allowed_with_session(6)[of _ _ "sid 3"])
  moreover have "(sid 3, sid 0x74) \<notin> w_member (world_of sample_data)" by simp
  ultimately show "((sid 3, sid 0x74) \<in> w_member (world_of (out_data
        (run_command CMD_SUBSCRIBE (sid37 0x7A) 0 6 (sid 0x74) sample_data))))
     \<noteq> ((sid 3, sid 0x74) \<in> w_member (world_of sample_data))"
    by (simp add: implements_def perform_def del: world_of_sel(3-))
qed

section \<open>Creating in a place\<close>

text \<open>C15: A successful creation is answered with the new node and announced, once and with the same
  contents, to every other session whose user may enter the place: at the top level all sessions,
  inside a team those of its members. Nobody else hears of it.\<close>

theorem creation_announced_to_members:
  assumes "wf_data d" and "omap_find (sessions d) fd = Some s" and "omap_find (client_contexts d) fd = Some c"
    and "\<not> refused (handle_create fresh now fd p d)"
  shows "let r = out_result (handle_create fresh now fd p d) in
    \<exists>blk. pk_bytes (res_response r) = make_message (response_code (created_code c)) blk
      \<and> (\<forall>t. delivered fd r t =
           (if t = fd then pk_bytes (res_response r)
            else if \<exists>u. omap_find (sessions d) t = Some u \<and> may_enter (world_of d) u (place_of c)
            then make_message (event_code (created_event c)) blk
            else []))"
proof -
  have c: "ctx_valid d c" using wf_context_of_session[OF assms(1,2)] assms(3) by fastforce
  obtain blk where blk: "creates d c blk (handle_create fresh now fd p d)"
    by (rule handle_create_creates[OF assms(2,3) c assms(4)])
  let ?push = "make_push (event_code (created_event c)) blk (audience d c)"
  have r: "out_result (handle_create fresh now fd p d) = add_push ?push (ok (created_code c) blk)"
    using blk by (simp add: creates_def)
  note a = audience_sessions(1)[OF wf_omaps(1)[OF assms(1)], of c]
    audience_sessions(2)[OF wf_omaps(1)[OF assms(1)], of _ c]
  have "copies fd ?push t = (if t \<noteq> fd \<and> t \<in> set (audience d c)
      then make_message (event_code (created_event c)) blk else [])" for t
    using copies_distinct[of ?push fd t] a(1) by simp
  then show ?thesis
    unfolding r Let_def using a(2)
    by (intro exI[of _ blk]) (auto simp: delivered_def all_copies_def simp del: world_of_sel)
qed

lemma sample_reply_accepted: "\<not> refused (handle_create (sid37 0x7A) 0 5 (zeros 512) sample_data)"
  using handle_create_implements[OF sample_wf sample_fresh, of 5 "zeros 512" 0] sample_reply_allowed
  by (simp add: implements_def del: world_of_sel)

lemma sample_enter [simp]:
  "may_enter (world_of sample_data) (sid b) (sid 0x74 # q) \<longleftrightarrow> b = 1 \<or> b = 2"
  using may_enter_team[OF sample_lookups(1), of "sid b" q] by simp

text \<open>Alice hears of Bob's reply, Carol does not.\<close>

theorem creation_announced_to_members_witness:
  "let r = out_result (handle_create (sid37 0x7A) 0 5 (zeros 512) sample_data) in
    \<exists>blk. pk_bytes (res_response r) = make_message (response_code RES_REPLY_CREATED) blk
      \<and> delivered 5 r 4 = make_message (event_code EVT_REPLY_CREATED) blk \<and> delivered 5 r 6 = []"
proof -
  have codes: "created_code (sample_context USE_THREAD) = RES_REPLY_CREATED"
    "created_event (sample_context USE_THREAD) = EVT_REPLY_CREATED"
    by (simp_all add: sample_context_def level_codes_def)
  let ?r = "out_result (handle_create (sid37 0x7A) 0 5 (zeros 512) sample_data)"
  obtain blk where blk: "pk_bytes (res_response ?r) = make_message (response_code RES_REPLY_CREATED) blk"
    "\<And>t. delivered 5 ?r t =
           (if t = 5 then pk_bytes (res_response ?r)
            else if \<exists>u. omap_find (sessions sample_data) t = Some u
              \<and> may_enter (world_of sample_data) u (place_of (sample_context USE_THREAD))
            then make_message (event_code EVT_REPLY_CREATED) blk else [])"
    using creation_announced_to_members[OF sample_wf sample_session(2) sample_contexts(2) sample_reply_accepted]
    unfolding Let_def codes by blast
  show ?thesis
    unfolding Let_def by (intro exI[of _ blk]) (simp add: blk)
qed

text \<open>C27: After a successful creation, listing the place shows what it showed before followed by the
  node that was created, byte for byte as the creation was answered, and counts one more.\<close>

theorem create_then_list:
  assumes "wf_data d" and "fresh_uuid fresh d" and "\<not> refused (handle_create fresh now fd p d)"
  shows "\<exists>c bs blk.
    let r = handle_create fresh now fd p d in
      pk_bytes (res_response (out_result (handle_list fd d)))
        = make_message (response_code (list_code c)) (counted bs)
      \<and> pk_bytes (res_response (out_result r)) = make_message (response_code (created_code c)) blk
      \<and> pk_bytes (res_response (out_result (handle_list fd (out_data r))))
        = make_message (response_code (list_code c)) (counted (bs @ [blk]))"
proof -
  obtain s where s: "omap_find (sessions d) fd = Some s"
    using assms(3) by (cases "omap_find (sessions d) fd") (auto simp: handle_create_def)
  obtain c where c: "omap_find (client_contexts d) fd = Some c" "ctx_valid d c"
    using wf_context_of_session[OF assms(1) s] by metis
  let ?d' = "out_data (handle_create fresh now fd p d)"
  have c': "ctx_valid ?d' c" by (rule ctx_valid_le[OF handle_create_le c(2)])
  obtain blk where "creates d c blk (handle_create fresh now fd p d)"
    by (rule handle_create_creates[OF s c assms(3)])
  then show ?thesis
    using handle_list_blocks[OF s c] handle_list_blocks[of ?d' fd s c] s c(1) c'
    by (intro exI[of _ c] exI[of _ "place_blocks d c"] exI[of _ blk])
      (simp add: creates_def Let_def handle_create_sessions)
qed

theorem create_then_list_witness:
  "\<exists>c bs blk.
    let r = handle_create (sid37 0x7A) 0 5 (zeros 512) sample_data in
      pk_bytes (res_response (out_result (handle_list 5 sample_data)))
        = make_message (response_code (list_code c)) (counted bs)
      \<and> pk_bytes (res_response (out_result r)) = make_message (response_code (created_code c)) blk
      \<and> pk_bytes (res_response (out_result (handle_list 5 (out_data r))))
        = make_message (response_code (list_code c)) (counted (bs @ [blk]))"
  by (rule create_then_list[OF sample_wf sample_fresh sample_reply_accepted])

section \<open>Selecting and reading a place\<close>

text \<open>C28: Selecting a place answers with what \<open>/info\<close> then shows of it.\<close>

theorem use_then_info:
  assumes "wf_data d" and "\<not> refused (handle_use fd p d)"
  shows "out_result (handle_info fd (out_data (handle_use fd p d))) = out_result (handle_use fd p d)"
proof -
  obtain s where s: "omap_find (sessions d) fd = Some s"
    using assms(2) by (cases "omap_find (sessions d) fd") (auto simp: handle_use_def)
  show ?thesis by (rule handle_use_info[OF s assms(2)])
qed

lemma sample_use_ok: "use_ok (1 # sid 0x74)"
  by (simp add: use_ok_def)

lemma sample_use_accepted: "\<not> refused (handle_use 4 (1 # sid 0x74) sample_data)"
proof -
  have "use_path (1 # sid 0x74) = [sid 0x74]"
    by (simp add: use_path_def use_uuid_def)
  then have "implements sample_data 4 (Move [sid 0x74]) (handle_use 4 (1 # sid 0x74) sample_data)"
    using handle_use_implements[OF sample_use_ok, of sample_data 4] by simp
  moreover have "allowed (world_of sample_data) 4 (Move [sid 0x74])"
    using team_found[OF sample_lookups(1)] by (simp add: allowed_Move[of _ _ "sid 1"] del: world_of_sel)
  ultimately show ?thesis by (simp add: implements_def)
qed

theorem use_then_info_witness:
  "out_result (handle_info 4 (out_data (handle_use 4 (1 # sid 0x74) sample_data)))
     = out_result (handle_use 4 (1 # sid 0x74) sample_data)"
  by (rule use_then_info[OF sample_wf sample_use_accepted])

text \<open>Subscribing to a team one is not a member of and unsubscribing again restores the data
  exactly, and subscribing twice is subscribing once.\<close>

theorem subscribe_unsubscribe:
  assumes "wf_data d" and "omap_find (sessions d) fd = Some s" and "find_team_by_uuid d t = Some i"
    and "s \<notin> set (team_member_uuids (teams d ! i))"
  shows "let d' = out_data (handle_subscribe fd t d) in
    out_data (handle_unsubscribe fd t d') = d \<and> out_data (handle_subscribe fd t d') = d'"
proof -
  have i: "i < length (teams d)" by (rule find_team_by_uuidD[OF assms(3)])
  let ?d' = "set_members i (team_member_uuids (teams d ! i) @ [s]) d"
  have d': "out_data (handle_subscribe fd t d) = ?d'" using subscribe_eq(1)[OF assms(2,3)] assms(4) by simp
  have s': "omap_find (sessions ?d') fd = Some s" and t': "find_team_by_uuid ?d' t = Some i"
    using assms(2,3) by simp_all
  show ?thesis
    using subscribe_eq(1)[OF s' t'] unsubscribe_eq[OF s' t'] i assms(4)
    by (simp add: d' Let_def set_members_nth remove1_append set_members_twice)
qed

theorem subscribe_unsubscribe_witness:
  "let d' = out_data (handle_subscribe 6 (sid 0x74) sample_data) in
    out_data (handle_unsubscribe 6 (sid 0x74) d') = sample_data \<and> out_data (handle_subscribe 6 (sid 0x74) d') = d'"
  by (rule subscribe_unsubscribe[OF sample_wf sample_session(3) sample_lookups(1)]) simp

text \<open>C30: Leaving a team does not close it to a session that has already selected a place in it: after a
  successful \<open>/unsubscribe\<close>, \<open>/list\<close> and \<open>/info\<close> answer the same session exactly as before, since
  neither looks at the membership again (\<open>/create\<close> does, and is refused).\<close>

theorem unsubscribed_still_reads:
  assumes "wf_data d" and "fresh_uuid fresh d" and "\<not> refused (handle_unsubscribe fd t d)"
    and "w_place (world_of d) fd = Some (t # q)"
  shows "let d' = out_data (handle_unsubscribe fd t d) in
    out_result (handle_list fd d') = out_result (handle_list fd d)
    \<and> out_result (handle_info fd d') = out_result (handle_info fd d)
    \<and> refused (handle_create fresh now fd p d')"
proof -
  have sess: "omap_find (sessions d) fd \<noteq> None"
    using assms(3) by (auto simp: handle_unsubscribe_def split: option.splits)
  then obtain s where s: "omap_find (sessions d) fd = Some s" by auto
  obtain i where i: "find_team_by_uuid d t = Some i" "s \<in> set (team_member_uuids (teams d ! i))"
    using assms(3) s by (auto simp: handle_unsubscribe_def Let_def split: option.splits if_splits)
  have len: "i < length (teams d)" by (rule find_team_by_uuidD[OF i(1)])
  let ?ms = "remove1 s (team_member_uuids (teams d ! i))"
  let ?d' = "set_members i ?ms d"
  have d': "out_data (handle_unsubscribe fd t d) = ?d'" by (rule unsubscribe_eq[OF s i])
  have wf: "wf_data ?d'" using wf_handle_unsubscribe[OF assms(1), of fd t] unfolding d' .
  have fr: "fresh_uuid fresh ?d'"
    using assms(2) uuids_handle_unsubscribe[of fd t d] unfolding d' fresh_uuid_def by simp
  have "s \<notin> set ?ms" using members_wf(2)[OF assms(1) i(1)] by simp
  then have "\<not> may_enter (world_of ?d') s (t # q)"
    using i(1) len by (simp add: may_enter_team[of _ _ i] set_members_nth del: world_of_sel)
  moreover have "w_place (world_of ?d') fd = Some (t # q)" "w_session (world_of ?d') fd = Some s"
    using assms(4) s by simp_all
  ultimately have "\<not> allowed (world_of ?d') fd (Create (cstr fresh) p now)"
    by (auto simp: allowed_Create simp del: world_of_sel)
  then have "refused (handle_create fresh now fd p ?d')"
    using handle_create_implements[OF wf fr, of fd p now] by (simp add: implements_def del: world_of_sel)
  then show ?thesis
    by (simp add: d' Let_def set_members_views[OF len])
qed

text \<open>Bob leaves his team and still reads the thread he had selected.\<close>

theorem unsubscribed_still_reads_witness:
  "let d' = out_data (handle_unsubscribe 5 (sid 0x74) sample_data) in
    out_result (handle_list 5 d') = out_result (handle_list 5 sample_data)
    \<and> out_result (handle_info 5 d') = out_result (handle_info 5 sample_data)
    \<and> refused (handle_create (sid37 0x7A) 0 5 (zeros 512) d')"
proof (rule unsubscribed_still_reads[OF sample_wf sample_fresh])
  show "\<not> refused (handle_unsubscribe 5 (sid 0x74) sample_data)"
    by (simp add: handle_unsubscribe_def is_uuid36_def Let_def)
  show "w_place (world_of sample_data) 5 = Some (sid 0x74 # [sid 0x63, sid 0x68])" by simp
qed

end
