(* ===== verification/Account_Properties.thy ===== *)
theory Account_Properties
  imports Server_Output Client_Response Sample
begin

text \<open>
  Properties of accounts, sessions and private messages: what a login finds or creates,
  what a logout ends, who receives a private message and what a conversation contains.
  Each property is followed by an instance on the sample data.
\<close>

section \<open>Helpers\<close>

definition names :: "server_data_t \<Rightarrow> bytes list" where
  "names d = map (\<lambda>u. cstr (user_name u)) (users d)"

lemma name_lookup_None:
  assumes "wf_data d"
  shows "find_user_by_name d n = None \<longleftrightarrow> n \<notin> set (names d)"
proof -
  have "length (user_name u) = 32" if "u \<in> set (users d)" for u
    using assms that by (simp add: wf_data_defs wf_user_def)
  then show ?thesis
    by (auto simp: find_user_by_name_def find_idx_None_iff trim_padded_name_cstr names_def)
qed

lemma login_result:
  assumes "login_user fresh fd (cstr name) d = (d1, i, logs)"
  shows "out_data (handle_login fresh fd name d) = login_session fd i d1"
    and "pk_bytes (res_response (out_result (handle_login fresh fd name d)))
           = make_message (response_code RES_LOGIN_OK) (name_entry (users d1 ! i))"
  using assms login_user_frame(5)[OF assms]
  by (simp_all add: handle_login_def trim_padded_name_cstr Let_def login_payload_def name_entry_def append_defs)

lemma login_session_nth:
  "i < length (users d1) \<Longrightarrow> users (login_session fd i d1) ! i = (users d1 ! i)\<lparr>user_is_logged := True, user_fd := fd\<rparr>"
  by simp

lemma login_names:
  assumes "wf_data d"
  shows "names (out_data (handle_login fresh fd name d)) =
    (if cstr name \<in> set (names d) then names d else names d @ [take 32 (cstr name)])"
proof -
  obtain d1 i logs where l: "login_user fresh fd (cstr name) d = (d1, i, logs)"
    by (metis prod_cases3)
  have "names (login_session fd i d1) = names d1"
    by (simp add: names_def map_list_update_same)
  moreover have "names d1 = (if cstr name \<in> set (names d) then names d else names d @ [take 32 (cstr name)])"
    using l name_lookup_None[OF assms, of "cstr name"]
    by (auto simp: login_user_def Let_def names_def cstr_set_fixed_name split: option.splits)
  ultimately show ?thesis using login_result(1)[OF l] by simp
qed

text \<open>The other commands leave the names alone, and so does a dispatch of anything but a login.\<close>

lemma names_handle_create: "names (out_data (handle_create fresh now fd p d)) = names d"
proof -
  have "names (out_data (create_team fresh user p d)) = names d" for user
    by (rule create_team_cases[of fresh user p d]) (simp_all add: names_def)
  moreover have "names (out_data (create_channel fresh user ctx p d)) = names d" for user ctx
    by (rule create_channel_cases[of fresh user ctx p d]) (simp_all add: names_def upd_team_def)
  moreover have "names (out_data (create_thread fresh now user ctx p d)) = names d" for user ctx
    by (rule create_thread_cases[of fresh now user ctx p d]) (simp_all add: names_def upd_team_def)
  moreover have "names (out_data (create_reply fresh now user ctx p d)) = names d" for user ctx
    by (rule create_reply_cases[of fresh now user ctx p d]) (simp_all add: names_def upd_team_def)
  ultimately show ?thesis by (auto simp: handle_create_def split: option.split)
qed

lemma names_handle_logout: "names (out_data (handle_logout fd d)) = names d"
  by (auto simp: names_def handle_logout_def logout_session_def Let_def map_list_update_same split: option.split)

lemma names_simple:
  "names (out_data (handle_send now fd u b d)) = names d"
  "names (out_data (handle_subscribe fd u d)) = names d"
  "names (out_data (handle_unsubscribe fd u d)) = names d"
  "names (out_data (handle_use fd p d)) = names d"
  by (auto simp: names_def frame_simps handle_subscribe_def handle_unsubscribe_def handle_use_def use_none_def use_team_def
      use_channel_def use_thread_def Let_def split: option.split list.split)

lemma names_run_command:
  assumes "cmd \<noteq> CMD_LOGIN"
  shows "names (out_data (run_command cmd fresh now fd p d)) = names d"
  using assms
  by (cases cmd) (simp_all add: run_command_def frame_simps names_simple names_handle_create names_handle_logout)

lemma distinct_names_login:
  assumes "wf_data d" and "distinct (names d)" and "length (cstr name) \<le> 32"
  shows "distinct (names (out_data (handle_login fresh fd name d)))"
  using assms by (simp add: login_names)

section \<open>Login\<close>

text \<open>What a login does, in one statement; the programs together use it again.\<close>

lemma login_outcome:
  assumes "wf_data d" and "fresh_uuid fresh d" and "length (cstr name) \<le> 32"
  shows "let r = handle_login fresh fd name d; d' = out_data r in
    \<exists>u \<in> set (users d'). omap_find (sessions d') fd = Some (cstr (user_uuid u))
      \<and> cstr (user_name u) = cstr name \<and> user_is_logged u
      \<and> omap_find (client_contexts d') fd = Some context0
      \<and> pk_bytes (res_response (out_result r)) = make_message (response_code RES_LOGIN_OK) (name_entry u)
      \<and> (if cstr name \<in> set (names d) then map user_uuid (users d') = map user_uuid (users d)
         else user_uuid u = fresh \<and> map user_uuid (users d') = map user_uuid (users d) @ [fresh])"
proof -
  obtain d1 i logs where l: "login_user fresh fd (cstr name) d = (d1, i, logs)"
    by (metis prod_cases3)
  let ?d = "login_session fd i d1" and ?u = "(users d1 ! i)\<lparr>user_is_logged := True, user_fd := fd\<rparr>"
  note i = login_user_frame(5)[OF l]
  have "cstr (user_name ?u) = cstr name"
    using login_user_name[OF l] assms(1,3) by (simp add: wf_data_defs wf_user_def)
  moreover have "?u \<in> set (users ?d)" using i by (simp add: set_update_memI)
  moreover have "map user_uuid (users ?d) = map user_uuid (users d1)"
    by (simp add: map_list_update_same)
  moreover have "if cstr name \<in> set (names d) then map user_uuid (users d1) = map user_uuid (users d)
      else user_uuid (users d1 ! i) = fresh \<and> map user_uuid (users d1) = map user_uuid (users d) @ [fresh]"
    using l name_lookup_None[OF assms(1), of "cstr name"]
    by (auto simp: login_user_def Let_def split: option.splits)
  ultimately show ?thesis
    using login_result[OF l] by (auto simp: Let_def omap_find_set name_entry_def intro!: bexI[of _ ?u])
qed

text \<open>C21: Logging in under a name of at most 32 bytes opens a session for a user of exactly that
  name: the existing user if there is one, a new user with the fresh UUID otherwise. The user is
  marked as logged in, the client starts without context, and the answer carries the user's UUID
  and name.\<close>

theorem login_opens_session:
  assumes "wf_data d" and "fresh_uuid fresh d" and "length (cstr name) \<le> 32"
  shows "let r = handle_login fresh fd name d; d' = out_data r in
    \<exists>u \<in> set (users d'). omap_find (sessions d') fd = Some (cstr (user_uuid u))
      \<and> cstr (user_name u) = cstr name \<and> user_is_logged u
      \<and> omap_find (client_contexts d') fd = Some context0
      \<and> pk_bytes (res_response (out_result r)) = make_message (response_code RES_LOGIN_OK) (name_entry u)
      \<and> (if cstr name \<in> set (names d) then map user_uuid (users d') = map user_uuid (users d)
         else user_uuid u = fresh \<and> map user_uuid (users d') = map user_uuid (users d) @ [fresh])"
  using login_outcome[OF assms] .

theorem login_opens_session_witness:
  "\<exists>u \<in> set (users (out_data (handle_login (sid37 9) 7 [0x41, 0x62] sample_data))). user_uuid u = sid37 9
     \<and> cstr (user_name u) = [0x41, 0x62]"
proof -
  have "[0x41, 0x62] \<notin> set (names sample_data)"
    by (simp add: names_def sample_data_def sample_user_def cstr_set_fixed_name)
  moreover have "fresh_uuid (sid37 9) sample_data"
    by (simp add: fresh_uuid_def data_uuids_def team_uuids_def channel_uuids_def sample_defs)
  moreover have "cstr [0x41, 0x62] = [0x41, 0x62]" by (simp add: cstr_def)
  ultimately show ?thesis
    using login_opens_session[OF sample_wf, of "sid37 9" "[0x41, 0x62]" 7] by (auto simp: Let_def)
qed

text \<open>C40: A name of more than 32 bytes never matches a stored name, which is cut to 32: two logins
  under the same long name create two users with the same stored name.\<close>

theorem long_name_duplicates:
  assumes "wf_data d" and "fresh_uuid fresh d" and "32 < length (cstr name)"
  shows "let d1 = out_data (handle_login fresh fd1 name d);
             d2 = out_data (handle_login fresh2 fd2 name d1)
         in names d2 = names d @ [take 32 (cstr name), take 32 (cstr name)]"
proof -
  have long: "cstr name \<notin> set (names e)" if "wf_data e" for e
  proof
    assume "cstr name \<in> set (names e)"
    then obtain u where "u \<in> set (users e)" "cstr name = cstr (user_name u)"
      by (auto simp: names_def)
    with that length_cstr_le[of "user_name u"] assms(3) show False
      by (simp add: wf_data_defs wf_user_def)
  qed
  let ?d1 = "out_data (handle_login fresh fd1 name d)"
  have "wf_data ?d1" using assms(1,2) by (rule wf_handle_login)
  then have "names (out_data (handle_login fresh2 fd2 name ?d1)) = names ?d1 @ [take 32 (cstr name)]"
    using long[of ?d1] by (simp only: login_names if_False)
  moreover have "names ?d1 = names d @ [take 32 (cstr name)]"
    using long[OF assms(1)] by (simp only: login_names[OF assms(1)] if_False)
  ultimately show ?thesis by (simp only: Let_def append_assoc append.simps)
qed

theorem long_name_duplicates_witness:
  "let d1 = out_data (handle_login (sid37 9) 7 (replicate 33 0x41) sample_data);
       d2 = out_data (handle_login (sid37 8) 8 (replicate 33 0x41) d1)
   in names d2 = names sample_data @ [replicate 32 0x41, replicate 32 0x41]"
proof -
  have c: "cstr (replicate 33 (0x41 :: byte)) = replicate 33 0x41"
    by (rule cstr_ident) simp
  have "fresh_uuid (sid37 9) sample_data"
    by (simp add: fresh_uuid_def data_uuids_def team_uuids_def channel_uuids_def sample_defs)
  from long_name_duplicates[OF sample_wf this, of "replicate 33 0x41" 7 "sid37 8" 8]
  show ?thesis unfolding c by simp
qed

text \<open>A user's UUID is at one place.\<close>

lemma user_index_unique:
  assumes "wf_data d" and "i < length (users d)" and "j < length (users d)"
    and "cstr (user_uuid (users d ! j)) = cstr (user_uuid (users d ! i))"
  shows "j = i"
proof -
  have "user_uuid (users d ! j) = user_uuid (users d ! i)"
    using assms valid_uuid37_inj[of "user_uuid (users d ! j)" "user_uuid (users d ! i)"]
    by (simp add: wf_data_defs wf_user_def)
  moreover have "distinct (map user_uuid (users d))"
    using assms(1) by (simp add: wf_data_defs)
  ultimately show ?thesis
    using assms(2,3) nth_eq_iff_index_eq[of "map user_uuid (users d)" j i] by simp
qed

section \<open>A second login on a connection\<close>

text \<open>C22: A login on a connection that has a session under another name replaces the session without a
  logout: if it was the user's last one, the user has no session any more, but stays marked as logged in,
  and neither the log nor any client is told that the user has left.\<close>

theorem second_login_strands_user:
  assumes "wf_data d" and "fresh_uuid fresh d" and "omap_find (sessions d) fd = Some s"
    and "find_user_by_uuid d s = Some k" and "\<And>t. t \<noteq> fd \<Longrightarrow> omap_find (sessions d) t \<noteq> Some s"
    and "length (cstr name) \<le> 32" and "cstr name \<noteq> cstr (user_name (users d ! k))"
  shows "let r = handle_login fresh fd name d; d' = out_data r in
    (\<forall>t. omap_find (sessions d') t \<noteq> Some s)
    \<and> (\<exists>u \<in> set (users d'). cstr (user_uuid u) = s \<and> user_is_logged u)
    \<and> server_event_user_logged_out s \<notin> set (out_logs r)
    \<and> event_code EVT_USER_LOGGED_OUT \<notin> (pk_code \<circ> push_packet) ` set (res_pushes (out_result r))"
proof -
  obtain d1 i logs where l: "login_user fresh fd (cstr name) d = (d1, i, logs)"
    by (metis prod_cases3)
  let ?r = "handle_login fresh fd name d" and ?d = "login_session fd i d1"
  have out: "out_data ?r = ?d" by (rule login_result(1)[OF l])
  have wf: "wf_data ?d" using wf_handle_login[OF assms(1,2), of fd name] by (simp add: out)
  obtain k' where k': "k' < length (users d)" "cstr (user_uuid (users d ! k')) = s" "user_is_logged (users d ! k')"
      "find_user_by_uuid d s = Some k'"
    using wf_session_user[OF assms(1,3)] by metis
  then have k: "k < length (users d)" "cstr (user_uuid (users d ! k)) = s" "user_is_logged (users d ! k)"
    using assms(4) by simp_all
  have old: "k < length (users d1)" "users d1 ! k = users d ! k"
    using l k(1) by (auto simp: login_user_def Let_def nth_append split: option.splits)
  note i = login_user_frame(5)[OF l]
  have "cstr (user_name (users d1 ! i)) = cstr name"
    using login_user_name[OF l] assms(1,6) by (simp add: wf_data_defs wf_user_def)
  then have ik: "i \<noteq> k" using old(2) assms(7) by auto
  have at_k: "users ?d ! k = users d ! k" using ik old by simp
  have "cstr (user_uuid (users ?d ! i)) \<noteq> s"
    using user_index_unique[OF wf, of k i] ik i old(1) k(2) at_k by auto
  then have "omap_find (sessions ?d) t \<noteq> Some s" for t
    using assms(1,5) login_user_frame[OF l] i by (auto simp: login_session_def omap_find_set)
  moreover have "\<exists>u \<in> set (users ?d). cstr (user_uuid u) = s \<and> user_is_logged u"
    using old(1) k(2,3) at_k nth_mem[of k "users ?d"] by auto
  moreover have "server_event_user_logged_out s \<notin> set logs"
    using l by (auto simp: login_user_def Let_def split: option.splits)
  ultimately show ?thesis
    unfolding Let_def out using l
    by (auto simp: handle_login_def Let_def trim_padded_name_cstr ok_def)
qed

theorem second_login_strands_user_witness:
  "let d' = out_data (handle_login (sid37 9) 4 [0x41] sample_data) in
    (\<forall>t. omap_find (sessions d') t \<noteq> Some (sid 1)) \<and> (\<exists>u \<in> set (users d'). cstr (user_uuid u) = sid 1 \<and> user_is_logged u)"
proof -
  have "fresh_uuid (sid37 9) sample_data"
    by (simp add: fresh_uuid_def data_uuids_def team_uuids_def channel_uuids_def sample_defs)
  moreover have "omap_find (sessions sample_data) 4 = Some (sid 1)" by (simp add: sample_data_def)
  moreover have "find_user_by_uuid sample_data (sid 1) = Some 0"
    by (simp add: find_user_by_uuid_def is_uuid36_def sample_data_def sample_user_def)
  moreover have "\<And>t. t \<noteq> 4 \<Longrightarrow> omap_find (sessions sample_data) t \<noteq> Some (sid 1)"
    by (auto simp: sample_data_def split: if_splits)
  moreover have "length (cstr [0x41]) \<le> 32" "cstr [0x41] \<noteq> cstr (user_name (users sample_data ! 0))"
    by (simp_all add: sample_data_def sample_user_def cstr_set_fixed_name) (simp_all add: cstr_def)
  ultimately show ?thesis
    using second_login_strands_user[OF sample_wf, of "sid37 9" 4 "sid 1" 0 "[0x41]"] unfolding Let_def by blast
qed

section \<open>Logout\<close>

text \<open>C23: A logout ends exactly the session of its descriptor. Its user stays marked as logged in,
  and nobody is told, if and only if another session of that user remains.\<close>

theorem logout_ends_one_session:
  assumes "wf_data d" and "omap_find (sessions d) fd = Some s"
  shows "let r = handle_logout fd d; d' = out_data r; other = (\<exists>t. t \<noteq> fd \<and> omap_find (sessions d) t = Some s)
    in omap_find (sessions d') fd = None
     \<and> (\<forall>t. t \<noteq> fd \<longrightarrow> omap_find (sessions d') t = omap_find (sessions d) t)
     \<and> (\<forall>u \<in> set (users d'). cstr (user_uuid u) = s \<longrightarrow> user_is_logged u = other)
     \<and> (res_pushes (out_result r) = [] \<longleftrightarrow> other)"
proof -
  have wf: "omap_wf (sessions d)" using assms(1) by auto
  obtain i where i: "i < length (users d)" "cstr (user_uuid (users d ! i)) = s" "find_user_by_uuid d s = Some i"
    using wf_session_user[OF assms] by metis
  then have f: "find_idx (\<lambda>u. take 36 (user_uuid u) = s) (users d) = Some i"
    by (auto simp: find_user_by_uuid_def split: if_splits)
  note one = user_index_unique[OF assms(1) i(1), unfolded i(2)]
  have logged: "user_is_logged u = still_online fd s d"
    if u: "u \<in> set (users (logout_session fd s d))" "cstr (user_uuid u) = s" for u
  proof -
    obtain j where j: "j < length (users d)" "u = users (logout_session fd s d) ! j"
      using u(1) f by (auto simp: logout_session_def in_set_conv_nth)
    then have "cstr (user_uuid (users d ! j)) = s"
      using u(2) f by (cases "i = j") (auto simp: logout_session_def)
    with one j f show ?thesis by (simp add: logout_session_def)
  qed
  show ?thesis
    using assms(2) wf logged still_online_iff[OF wf, of fd s]
    by (simp add: handle_logout_def Let_def omap_find_erase)
qed

theorem logout_ends_one_session_witness:
  "omap_find (sessions (out_data (handle_logout 4 sample_data))) 4 = None
   \<and> res_pushes (out_result (handle_logout 4 sample_data)) \<noteq> []"
proof -
  have s: "omap_find (sessions sample_data) 4 = Some (sid 1)"
    and "\<not> (\<exists>t. t \<noteq> 4 \<and> omap_find (sessions sample_data) t = Some (sid 1))"
    by (auto simp: sample_data_def split: if_splits)
  with logout_ends_one_session[OF sample_wf s] show ?thesis by (simp add: Let_def)
qed

end
