(* ===== verification/Message_Properties.thy ===== *)
theory Message_Properties
  imports Server_Output Sample
begin

text \<open>
  Properties of private messages: who receives one, and what a conversation shows after
  it was sent. Each property is followed by an instance on the sample data.
\<close>

section \<open>Helpers\<close>

lemma handle_send_sent:
  assumes "omap_find (sessions d) fd = Some s" and "find_user_by_uuid d r = Some i"
  shows "out_data (handle_send now fd r body d) = d\<lparr>messages := messages d @ [make_private_message s r body now]\<rparr>"
    and "all_copies fd (res_pushes (out_result (handle_send now fd r body d))) t =
      (let fds = map fst (filter (\<lambda>kv. snd kv = r) (sessions d))
       in if fds = [] then []
          else copies fd (make_push (event_code EVT_MESSAGE_RECEIVED)
                 (take 36 s @ msg_body (make_private_message s r body now)) fds) t)"
    and "pk_bytes (res_response (out_result (handle_send now fd r body d)))
           = make_message (response_code RES_SEND_OK) []"
proof -
  note u = find_user_by_uuidD[OF assms(2)]
  have "handle_send now fd r body d =
    (let fds = map fst (filter (\<lambda>kv. snd kv = r) (sessions d)); m = make_private_message s r body now
     in (if fds \<noteq> [] then add_push (make_push (event_code EVT_MESSAGE_RECEIVED) (take 36 s @ take 512 (msg_body m)) fds)
           (ok RES_SEND_OK []) else ok RES_SEND_OK [],
         [server_event_private_message_sended s (user_uuid (users d ! i)) (msg_body m)],
         d\<lparr>messages := messages d @ [m]\<rparr>))"
    using assms u by (simp add: handle_send_def is_uuid36_def Let_def append_defs)
  then show "out_data (handle_send now fd r body d) = d\<lparr>messages := messages d @ [make_private_message s r body now]\<rparr>"
    "all_copies fd (res_pushes (out_result (handle_send now fd r body d))) t =
      (let fds = map fst (filter (\<lambda>kv. snd kv = r) (sessions d))
       in if fds = [] then []
          else copies fd (make_push (event_code EVT_MESSAGE_RECEIVED)
                 (take 36 s @ msg_body (make_private_message s r body now)) fds) t)"
    "pk_bytes (res_response (out_result (handle_send now fd r body d))) = make_message (response_code RES_SEND_OK) []"
    by (simp_all add: Let_def all_copies_def)
qed

lemma session_fds:
  assumes "omap_wf (sessions d)"
  shows "distinct (map fst (filter (\<lambda>kv. snd kv = r) (sessions d)))"
    and "t \<in> set (map fst (filter (\<lambda>kv. snd kv = r) (sessions d))) \<longleftrightarrow> omap_find (sessions d) t = Some r"
  using std_map.distinct_keys[OF assms] std_map.entries_find[OF assms]
  by (auto simp: distinct_map_filter image_iff)

lemma handle_messages_eq:
  assumes "omap_find (sessions d) fd = Some s" and "find_user_by_uuid d r = Some i"
  shows "handle_messages fd r d =
    (let ms = filter (between s r) (messages d)
     in (ok RES_MESSAGES_LIST (be_bytes32 (word_of_nat (length ms)) @ concat (map message_entry ms)), [], d))"
  using assms find_user_by_uuidD[OF assms(2)]
  by (simp add: handle_messages_def is_uuid36_def Let_def messages_payload append_u32_layout)

lemma between_commute: "between s r = between r s"
  by (rule ext) (auto simp: between_def Let_def)

lemma session_known:
  assumes "wf_data d" and "omap_find (sessions d) t = Some r"
  obtains i where "find_user_by_uuid d r = Some i"
  using wf_session_user[OF assms] by metis

text \<open>What the others get of it.\<close>

lemma send_delivered:
  assumes "wf_data d" and "omap_find (sessions d) fd = Some s" and "find_user_by_uuid d r = Some i"
    and "t \<noteq> fd"
  shows "delivered fd (out_result (handle_send now fd r body d)) t =
    (if omap_find (sessions d) t = Some r
     then make_message (event_code EVT_MESSAGE_RECEIVED)
            (s @ take 512 (cstr body) @ zeros (512 - length (cstr body)))
     else [])"
proof -
  have wf: "omap_wf (sessions d)" using assms(1) by auto
  have s: "take 36 s = s"
    using wf_session_uuid(1)[OF assms(1,2)] by (simp add: valid_uuid_length)
  let ?fds = "map fst (filter (\<lambda>kv. snd kv = r) (sessions d))"
  have t: "t \<in> set ?fds \<longleftrightarrow> omap_find (sessions d) t = Some r"
    by (rule session_fds(2)[OF wf])
  have "delivered fd (out_result (handle_send now fd r body d)) t =
    (if ?fds = [] then [] else copies fd (make_push (event_code EVT_MESSAGE_RECEIVED)
         (s @ msg_body (make_private_message s r body now)) ?fds) t)"
    using assms(4) handle_send_sent(2)[OF assms(2,3), where now = now and body = body and t = t] s
    by (simp add: delivered_def Let_def)
  also have "\<dots> = (if t \<in> set ?fds then make_message (event_code EVT_MESSAGE_RECEIVED)
         (s @ msg_body (make_private_message s r body now)) else [])"
    using copies_distinct[of "make_push (event_code EVT_MESSAGE_RECEIVED)
         (s @ msg_body (make_private_message s r body now)) ?fds"] session_fds(1)[OF wf] assms(4)
    by (cases "?fds = []") (simp_all only: make_push_sel if_True if_False, auto)
  finally show ?thesis
    unfolding t by (simp add: make_private_message_body)
qed

section \<open>Delivery\<close>

text \<open>C14: What every connection gets of a private message: the sender's connection the answer
  \<open>RES_SEND_OK\<close> and nothing else, even when the message is to the sender's own user; every other session
  of the receiver the event, exactly once, with the sender's UUID and the body; all others nothing.\<close>

theorem message_reaches_receiver_only:
  assumes "wf_data d" and "omap_find (sessions d) fd = Some s" and "find_user_by_uuid d r = Some i"
  shows "delivered fd (out_result (handle_send now fd r body d)) t =
    (if t = fd then make_message (response_code RES_SEND_OK) []
     else if omap_find (sessions d) t = Some r
     then make_message (event_code EVT_MESSAGE_RECEIVED)
            (s @ take 512 (cstr body) @ zeros (512 - length (cstr body)))
     else [])"
  using send_delivered[OF assms] handle_send_sent(3)[OF assms(2,3)] by (simp add: delivered_def)

theorem message_reaches_receiver_only_witness:
  "delivered 4 (out_result (handle_send 0 4 (sid 2) [0x68, 0x69] sample_data)) 5
     = make_message (event_code EVT_MESSAGE_RECEIVED) (sid 1 @ [0x68, 0x69] @ zeros 510)
   \<and> delivered 4 (out_result (handle_send 0 4 (sid 2) [0x68, 0x69] sample_data)) 6 = []
   \<and> delivered 4 (out_result (handle_send 0 4 (sid 1) [0x68, 0x69] sample_data)) 4 = make_message (response_code RES_SEND_OK) []"
proof -
  have f: "find_user_by_uuid sample_data (sid 2) = Some 1" "find_user_by_uuid sample_data (sid 1) = Some 0"
    by (simp_all add: find_user_by_uuid_def is_uuid36_def sample_data_def sample_user_def)
  have s: "omap_find (sessions sample_data) 4 = Some (sid 1)"
    "omap_find (sessions sample_data) 5 = Some (sid 2)" "omap_find (sessions sample_data) 6 = Some (sid 3)"
    by (simp_all add: sample_data_def)
  have c: "cstr [0x68, 0x69] = [0x68, 0x69]" by (simp add: cstr_def)
  show ?thesis
    using message_reaches_receiver_only[OF sample_wf s(1) f(1), of 0 "[0x68, 0x69]" 5]
      message_reaches_receiver_only[OF sample_wf s(1) f(1), of 0 "[0x68, 0x69]" 6]
      message_reaches_receiver_only[OF sample_wf s(1) f(2), of 0 "[0x68, 0x69]" 4] s c
    by (simp del: response_code.simps event_code.simps)
qed

section \<open>Conversations\<close>

text \<open>Both participants of a conversation see the same list: the answer to \<open>/messages\<close> of one
  about the other does not depend on who asks.\<close>

theorem conversation_symmetric:
  assumes "wf_data d" and "omap_find (sessions d) fd = Some a" and "omap_find (sessions d) gd = Some b"
  shows "handle_messages fd b d = handle_messages gd a d"
proof -
  obtain i j where "find_user_by_uuid d a = Some i" "find_user_by_uuid d b = Some j"
    using session_known[OF assms(1,2)] session_known[OF assms(1,3)] by metis
  with assms show ?thesis by (simp add: handle_messages_eq between_commute[of a b])
qed

theorem conversation_symmetric_witness:
  "handle_messages 4 (sid 2) sample_data = handle_messages 5 (sid 1) sample_data"
  by (rule conversation_symmetric[OF sample_wf]) (simp_all add: sample_data_def)

text \<open>C26: Sending and then asking for the conversation shows the conversation as it was with the new
  message at its end, with sender, receiver, time and the body up to its first NUL and 512 bytes.\<close>

theorem send_then_messages:
  assumes "wf_data d" and "omap_find (sessions d) fd = Some s" and "find_user_by_uuid d r = Some i"
  shows "let d' = out_data (handle_send now fd r body d); old = filter (between s r) (messages d)
    in pk_bytes (res_response (out_result (handle_messages fd r d')))
       = make_message (response_code RES_MESSAGES_LIST)
           (be_bytes32 (word_of_nat (Suc (length old))) @ concat (map message_entry old)
            @ s @ r @ be_bytes64 now @ take 512 (cstr body) @ zeros (512 - length (cstr body)))"
proof -
  let ?m = "make_private_message s r body now"
  have len: "length s = 36" "length r = 36"
    using wf_session_uuid(1)[OF assms(1,2)] find_user_by_uuidD(3)[OF assms(3)] by (simp_all add: valid_uuid_length)
  then have "between s r ?m" by (simp add: between_def Let_def)
  moreover have "message_entry ?m = s @ r @ be_bytes64 now @ take 512 (cstr body) @ zeros (512 - length (cstr body))"
    using len by (simp add: message_entry_def make_private_message_body)
  moreover have "find_user_by_uuid (d\<lparr>messages := messages d @ [?m]\<rparr>) r = Some i"
    using assms(3) find_user_by_uuid_cong[of "d\<lparr>messages := messages d @ [?m]\<rparr>" d] by simp
  ultimately show ?thesis
    using assms(2) handle_messages_eq[of "d\<lparr>messages := messages d @ [?m]\<rparr>" fd s r i]
    by (simp add: handle_send_sent(1)[OF assms(2,3)] Let_def del: of_nat_Suc)
qed

theorem send_then_messages_witness:
  "pk_bytes (res_response (out_result (handle_messages 4 (sid 2)
      (out_data (handle_send 5 4 (sid 2) [0x68, 0, 0x69] sample_data)))))
   = make_message (response_code RES_MESSAGES_LIST)
       (be_bytes32 1 @ sid 1 @ sid 2 @ be_bytes64 5 @ [0x68] @ zeros 511)"
proof -
  have f: "find_user_by_uuid sample_data (sid 2) = Some 1"
    by (simp add: find_user_by_uuid_def is_uuid36_def sample_data_def sample_user_def)
  have s: "omap_find (sessions sample_data) 4 = Some (sid 1)"
    by (simp add: sample_data_def)
  have m: "messages sample_data = []" by (simp add: sample_data_def)
  have c: "cstr [0x68, 0, 0x69] = [0x68]" by (simp add: cstr_def)
  show ?thesis
    using send_then_messages[OF sample_wf s f, of 5 "[0x68, 0, 0x69]"] by (simp add: Let_def m c)
qed

end
