(* ===== verification/Client_Properties.thy ===== *)
theory Client_Properties
  imports Client_Net Server
begin

text \<open>
  Properties of the client: what its parser accepts and rejects, which packets its commands
  send, that input may arrive in any pieces, and that the server's records are read back.
  Each property that has hypotheses is followed by an instance.
\<close>

section \<open>The command line\<close>

text \<open>C33: A command line written as the documentation asks, the name followed by every argument in
  double quotes, is parsed back into exactly that name and those arguments.\<close>

theorem parse_inverts_quoting:
  assumes "CHR '' '' \<notin> set name" and "\<And>a. a \<in> set args \<Longrightarrow> DQUOTE \<notin> set a"
  shows "parse_line (command_line name args)
    = \<lparr>pc_name = name, pc_args = args, pc_valid = True, pc_error = []\<rparr>"
  using parse_command_line_rest[of name args "[]"] assms
  by (simp add: parsed_command0_def)

theorem parse_inverts_quoting_witness:
  "parse_line (command_line ''send'' [''a b'', [], ''c''])
    = \<lparr>pc_name = ''send'', pc_args = [''a b'', [], ''c''], pc_valid = True, pc_error = []\<rparr>"
  by (rule parse_inverts_quoting) (auto simp: DQUOTE_def)

text \<open>A quote that is not closed makes the command invalid, whatever came before it; the
  client then only reports the error: nothing is sent and no state changes.\<close>

theorem unclosed_quote_reported:
  assumes "CHR '' '' \<notin> set name" and "\<And>a. a \<in> set args \<Longrightarrow> DQUOTE \<notin> set a" and "DQUOTE \<notin> set rest"
  shows "handle_line net (command_line name args @ CHR '' '' # DQUOTE # rest) c
    = tell [CL_print ''Parse error: Unclosed double quote in argument''] c"
proof -
  have "parse_line (command_line name args @ CHR '' '' # DQUOTE # rest)
    = parse_args (CHR '' '' # DQUOTE # rest) (parsed_command0\<lparr>pc_name := name, pc_args := args\<rparr>)"
    using assms by (intro parse_command_line_rest) auto
  then have "parse_line (command_line name args @ CHR '' '' # DQUOTE # rest)
    = \<lparr>pc_name = name, pc_args = args, pc_valid = False, pc_error = ''Unclosed double quote in argument''\<rparr>"
    using parse_args_unclosed[OF assms(3)] by (simp add: parsed_command0_def)
  then show ?thesis by (simp add: handle_line_def command_line_def)
qed

theorem unclosed_quote_reported_witness:
  "handle_line (\<lambda>_. 0) (command_line ''login'' [] @ CHR '' '' # DQUOTE # ''bob'') client0
    = tell [CL_print ''Parse error: Unclosed double quote in argument''] client0"
  by (rule unclosed_quote_reported) (auto simp: DQUOTE_def)

lemma parse_bare_words:
  assumes "\<And>w. w \<in> set ws \<Longrightarrow> w \<noteq> [] \<and> CHR '' '' \<notin> set w \<and> hd w \<noteq> DQUOTE"
  shows "parse_args (concat (map (\<lambda>w. CHR '' '' # w) ws)) r = r\<lparr>pc_args := pc_args r @ ws\<rparr>"
  using assms
proof (induction ws arbitrary: r)
  case (Cons w ws)
  have "concat (map (\<lambda>w. CHR '' '' # w) ws) = [] \<or> hd (concat (map (\<lambda>w. CHR '' '' # w) ws)) = CHR '' ''"
    by (cases ws) auto
  then show ?case using Cons.prems Cons.IH by (simp add: parse_args_bare)
qed simp

text \<open>The client also accepts arguments without quotes: each word up to the next space is an
  argument, quotes inside a word included.\<close>

theorem bare_arguments_accepted:
  assumes "CHR '' '' \<notin> set name"
    and "\<And>w. w \<in> set ws \<Longrightarrow> w \<noteq> [] \<and> CHR '' '' \<notin> set w \<and> hd w \<noteq> DQUOTE"
  shows "parse_line (CHR ''/'' # name @ concat (map (\<lambda>w. CHR '' '' # w) ws))
    = \<lparr>pc_name = name, pc_args = ws, pc_valid = True, pc_error = []\<rparr>"
proof -
  have "concat (map (\<lambda>w. CHR '' '' # w) ws) = [] \<or> hd (concat (map (\<lambda>w. CHR '' '' # w) ws)) = CHR '' ''"
    by (cases ws) auto
  then show ?thesis
    using name_then_args[OF assms(1)] parse_bare_words[OF assms(2)] by (simp add: parsed_command0_def)
qed

theorem bare_arguments_accepted_witness:
  "parse_line ''/send u1 hello''
    = \<lparr>pc_name = ''send'', pc_args = [''u1'', ''hello''], pc_valid = True, pc_error = []\<rparr>"
proof -
  have "parse_line (CHR ''/'' # ''send'' @ concat (map (\<lambda>w. CHR '' '' # w) [''u1'', ''hello'']))
    = \<lparr>pc_name = ''send'', pc_args = [''u1'', ''hello''], pc_valid = True, pc_error = []\<rparr>"
    by (rule bare_arguments_accepted) (auto simp: DQUOTE_def)
  then show ?thesis by simp
qed

section \<open>Requests\<close>

text \<open>C31: Dispatching a parsed command appends to the client's output stream exactly the packet the
  protocol table has for it at the client's context level, and nothing if the table has none.\<close>

theorem dispatch_sends_request:
  "cl_sent (client_dispatch net cmd c)
     = cl_sent c @ request_bytes (request (cl_use_level c) (pc_name cmd) (pc_args cmd))"
  by (rule client_dispatch_sent)

text \<open>Whatever a user types, the packet the client sends for it is accepted by the server's
  framing loop as one frame with the command and payload of the table; it is never too large.\<close>

theorem requests_accepted:
  assumes "request level name args = Some (k, p)"
  shows "srv_split (request_bytes (request level name args) @ rest) = Frame (command_code k, p) rest
    \<and> command_of_code (command_code k) = Some k"
proof -
  have "length p \<le> 65535" using request_size[OF assms] by simp
  then show ?thesis by (simp add: request_bytes_def assms srv_split_message)
qed

theorem requests_accepted_witness:
  "srv_split (request_bytes (request USE_NONE ''user'' [''x'']) @ [7])
      = Frame (command_code CMD_USER, pack_fixed [] ''x'' 36) [7]
    \<and> command_of_code (command_code CMD_USER) = Some CMD_USER"
  by (rule requests_accepted) (simp add: request_names)

section \<open>Input in pieces\<close>

text \<open>However the server's messages were cut into reads, the client handles exactly these messages,
  in order, and keeps nothing back.\<close>

theorem client_reads_messages:
  assumes "\<And>m. m \<in> set ms \<Longrightarrow> length (snd m) < 2 ^ 32"
    and "concat chunks = concat (map (\<lambda>(c, p). make_message c p) ms)" and "chunks \<noteq> []"
    and "cl_recv_buf c = []"
  shows "fold (\<lambda>b. handle_server_read (Some b)) chunks c
    = fold (\<lambda>(code, payload). handle_response code payload) ms c"
  using cl_reads[OF assms] by (simp add: respond_def)

theorem client_reads_messages_witness:
  "fold (\<lambda>b. handle_server_read (Some b)) [[0, 0x14, 0], [0, 0, 0, 0], [0xE7, 0, 0, 0, 0]] client0
    = handle_response 0xE7 [] (handle_response 0x14 [] client0)"
proof -
  have "concat [[0, 0x14, 0], [0, 0, 0, 0], [0xE7, 0, 0, 0, 0]]
    = concat (map (\<lambda>(c, p). make_message c p) [(0x14, []), (0xE7, [])])"
    by (simp add: make_message_layout be_bytes16_def be_bytes32_def)
  moreover have "cl_recv_buf client0 = []" by (simp add: client0_def)
  ultimately have "fold (\<lambda>b. handle_server_read (Some b)) [[0, 0x14, 0], [0, 0, 0, 0], [0xE7, 0, 0, 0, 0]] client0
    = fold (\<lambda>(code, payload). handle_response code payload) [(0x14, []), (0xE7, [])] client0"
    by (intro client_reads_messages) auto
  then show ?thesis by simp
qed

text \<open>C34: The same holds for the terminal: input read in pieces has the effect of the whole input.\<close>

theorem stdin_in_pieces:
  assumes "chunks \<noteq> []"
  shows "fold (\<lambda>b. handle_stdin net (Some b)) chunks c = handle_stdin net (Some (concat chunks)) c"
  using assms
proof (induction chunks arbitrary: c)
  case (Cons b bs)
  show ?case
  proof (cases "bs = []")
    case False
    then show ?thesis using Cons.IH[of "handle_stdin net (Some b) c"] handle_stdin_append[of net "concat bs" b c] by simp
  qed simp
qed simp

theorem stdin_in_pieces_witness:
  "fold (\<lambda>b. handle_stdin (\<lambda>_. 0) (Some b)) [''/li'', ''st'' @ [NEWLINE]] client0
    = handle_stdin (\<lambda>_. 0) (Some (''/list'' @ [NEWLINE])) client0"
  using stdin_in_pieces[of "[''/li'', ''st'' @ [NEWLINE]]" "\<lambda>_. 0" client0] by simp

end
