(* ===== verification/Server_Properties.thy ===== *)
theory Server_Properties
  imports Server_Output Sample
begin

text \<open>
  Properties of the event loop: its invariant, the growth of its data, the independence
  of the network's chunking, the guard on unauthenticated clients, the output streams,
  disconnection and shutdown. Each property is followed by an instance.
\<close>

section \<open>Reachable states\<close>

text \<open>C10: In every reachable state of the server, as long as libuuid has produced distinct
  well-formed UUIDs, the data is well formed (users, sessions, contexts, team tree and messages
  are consistent with each other) and every session belongs to a connected client.\<close>

theorem reachable_well_formed:
  assumes "reachable env sv" and "good_gen (env_uuid env) (sv_ticks sv)"
  shows "wf_data (sv_data sv) \<and> omap_wf (sv_clients sv)
    \<and> dom (omap_find (sessions (sv_data sv))) \<subseteq> Collect (connected sv)"
proof -
  from ok.reachable[OF refl data_ok0 assms(1)] have "wf_data (sv_data sv)"
    using assms(2) by (simp add: data_ok_def)
  then show ?thesis
    using sv_consistentD[OF consistent_reachable[OF assms(1)]] by auto
qed

theorem reachable_well_formed_witness:
  "wf_data (sv_data sample_run) \<and> omap_wf (sv_clients sample_run)
    \<and> dom (omap_find (sessions (sv_data sample_run))) \<subseteq> Collect (connected sample_run)"
  by (rule reachable_well_formed[OF sample_run_reachable])
    (use good_gen_mono[OF sample_gen, of 1] in simp)

text \<open>C18: No step of the server loses or changes what was stored: users keep their UUID and name and
  their place, teams, channels, threads and replies are only added, and the message log only grows
  at its end.\<close>

theorem steps_only_add:
  assumes "reachable env sv" and "(server_step env)\<^sup>*\<^sup>* sv sv'"
  shows "data_le (sv_data sv) (sv_data sv')"
proof -
  have "reachable env sv' \<and> data_le (sv_data sv) (sv_data sv')"
    using assms(2)
  proof (induction rule: rtranclp_induct)
    case (step y z)
    have "omap_wf (sv_clients y)"
      using step.IH consistent_reachable sv_consistentD(1) by blast
    with step have "data_le (sv_data sv) (sv_data z)"
      using grown.step_keeps[OF refl, of "sv_data sv" y env z] by blast
    with step show ?case by (auto intro: reachable.step)
  qed (use assms(1) in simp)
  then show ?thesis by simp
qed

theorem steps_only_add_witness: "data_le (sv_data sample_conn) (sv_data sample_run)"
proof (rule steps_only_add[OF sample_conn_reachable])
  show "(server_step sample_env)\<^sup>*\<^sup>* sample_conn sample_run"
    unfolding sample_run_def by (rule r_into_rtranclp) (rule server_step.service)
qed

section \<open>Input\<close>

text \<open>C11: How the network cuts a client's byte stream into reads does not matter: reading the pieces
  one after the other, stopping if the client is disconnected, leaves the server in the same state
  as reading them at once.\<close>

theorem chunking_irrelevant:
  assumes "reachable env sv" and "connected sv fd" and "cs \<noteq> []"
  shows "read_chunks env fd cs sv = handle_client_read env fd (Some (concat cs)) sv"
  using assms sv_consistentD(1)[OF consistent_reachable[OF assms(1)]] by (intro read_chunks_concat)

theorem chunking_irrelevant_witness:
  "read_chunks sample_env 4 [[0], [1, 0], [0, 0, 0]] sample_conn
     = handle_client_read sample_env 4 (Some [0, 1, 0, 0, 0, 0]) sample_conn"
  using chunking_irrelevant[OF sample_conn_reachable, of 4 "[[0], [1, 0], [0, 0, 0]]"] by simp

text \<open>C19: The receive loop always runs to its end: in no reachable state does a connected client have
  a whole frame waiting in its receive buffer, so no request is left lying until more input comes;
  what is buffered is less than one frame, at most 6 + 65534 bytes.\<close>

theorem no_frame_left_waiting:
  assumes "reachable env sv" and "connected sv fd"
  shows "srv_split (recv_of sv fd) = Incomplete \<and> length (recv_of sv fd) < 6 + 65535"
proof -
  have "srv_split (recv_of sv fd) = Incomplete"
    using drained_reachable[OF assms(1)] assms(2) by (simp add: drained_def)
  moreover have "length (recv_of sv fd) < 6 + 65535"
    using calculation by (auto simp: srv_split_def2 Let_def word_le_nat_alt not_less split: if_splits)
  ultimately show ?thesis by blast
qed

theorem no_frame_left_waiting_witness:
  "srv_split (recv_of sample_run 4) = Incomplete \<and> length (recv_of sample_run 4) < 6 + 65535"
  by (rule no_frame_left_waiting[OF sample_run_reachable]) simp

text \<open>C9: A client without a session that does not log in has no influence: whatever complete frames
  it sends, the server's data stays as it is, nobody else receives anything, and the client
  receives exactly one \<open>ERR_UNAUTHORIZED\<close> message per frame.\<close>

theorem unauthenticated_powerless:
  assumes "connected sv fd" and "omap_wf (sv_clients sv)"
    and "omap_find (sessions (sv_data sv)) fd = None"
    and "frames srv_split (recv_of sv fd @ bs) = (fs, rest, False)"
    and "command_code CMD_LOGIN \<notin> fst ` set fs"
  shows "let sv' = handle_client_read env fd (Some bs) sv
    in sv_data sv' = sv_data sv
     \<and> send_of sv' fd = send_of sv fd
         @ concat (replicate (length fs) (make_message (error_code ERR_UNAUTHORIZED) []))
     \<and> (\<forall>t. t \<noteq> fd \<longrightarrow> connected sv t \<longrightarrow> send_of sv' t = send_of sv t)"
proof -
  have result: "dispatch_result env fd c p sw = fail ERR_UNAUTHORIZED [] (sv_data sw)"
    if "omap_find (sessions (sv_data sw)) fd = None" and "c \<noteq> command_code CMD_LOGIN" for c p sw
    using that by (simp add: dispatch_result_def)
  have serve: "sv_data (serve env fd fs sw) = sv_data sw
      \<and> send_of (serve env fd fs sw) fd = send_of sw fd
          @ concat (replicate (length fs) (make_message (error_code ERR_UNAUTHORIZED) []))
      \<and> (\<forall>t. t \<noteq> fd \<longrightarrow> connected sw t \<longrightarrow> send_of (serve env fd fs sw) t = send_of sw t)"
    if "connected sw fd" and "omap_find (sessions (sv_data sw)) fd = None"
      and "command_code CMD_LOGIN \<notin> fst ` set fs" for sw fs
    using that
  proof (induction fs arbitrary: sw)
    case (Cons m fs)
    obtain c p where m: "m = (c, p)" by force
    with Cons.prems have r: "dispatch_result env fd c p sw = fail ERR_UNAUTHORIZED [] (sv_data sw)"
      by (intro result) auto
    have "send_of (dispatch env fd c p sw) t = send_of sw t
        @ (if t = fd then make_message (error_code ERR_UNAUTHORIZED) [] else [])" if "connected sw t" for t
      using dispatch_send_of[OF that, of env fd c p] by (simp add: r delivered_def all_copies_def)
    with Cons.IH[of "dispatch env fd c p sw"] Cons.prems r show ?case
      by (simp add: m)
  qed simp
  have "handle_client_read env fd (Some bs) sv = set_recv fd rest (serve env fd fs sv)"
    using assms(1,2,4) by (simp add: handle_client_read_serve)
  with serve[OF assms(1,3,5)] show ?thesis by simp
qed

theorem unauthenticated_powerless_witness:
  "let sv' = handle_client_read sample_env 4 (Some (make_message (command_code CMD_USERS) [])) sample_conn
   in sv_data sv' = server_data0 \<and> send_of sv' 4 = make_message (error_code ERR_UNAUTHORIZED) []"
proof -
  have s: "srv_split [] = Incomplete" by (simp add: srv_split_def)
  have "frames srv_split (make_message (command_code CMD_USERS) []) = ([(command_code CMD_USERS, [])], [], False)"
    using srv_split_message[of "[]" "command_code CMD_USERS" "[]"]
    by (simp add: srv.frames_Frame srv.frames_Incomplete[OF s])
  then have fr: "frames srv_split (recv_of sample_conn 4 @ make_message (command_code CMD_USERS) [])
      = ([(command_code CMD_USERS, [])], [], False)" by simp
  have n: "omap_find (sessions (sv_data sample_conn)) 4 = None" by (simp add: server_data0_def)
  have "send_of sample_conn 4 = []"
    by (simp add: send_of_def client_at_def sample_conn_def handle_new_connection_def omap_find_set
        client_state0_def emit_def)
  with unauthenticated_powerless[OF _ _ n fr, of sample_env] show ?thesis
    by (simp add: Let_def)
qed

section \<open>Output\<close>

text \<open>In every reachable state each client's output stream, the bytes written to it since its
  connection was accepted and the bytes still queued, is a sequence of whole protocol messages;
  nothing is lost, cut or interleaved.\<close>

theorem output_is_messages:
  assumes "reachable env sv" and "connected sv fd"
  shows "\<exists>ms. sv_sent sv fd = concat (map (\<lambda>(c, p). make_message c p) ms)"
  using stream_messages[OF assms] by (simp add: messages_of_def)

theorem output_is_messages_witness:
  "\<exists>ms. sv_sent sample_run 4 = concat (map (\<lambda>(c, p). make_message c p) ms)"
  by (rule output_is_messages[OF sample_run_reachable]) simp

text \<open>C20: Each step of the server extends the stream of a client that stays connected by whole
  messages and changes nothing in what was sent before, whatever the kernel accepted from the
  writes in between.\<close>

theorem output_grows:
  assumes "reachable env sv" and "server_step env sv sv'" and "connected sv t" and "connected sv' t"
  shows "\<exists>ms. sv_sent sv' t = sv_sent sv t @ concat (map (\<lambda>(c, p). make_message c p) ms)"
  using extends_step_whole[OF consistent_reachable[OF assms(1)] assms(2-4)] by (auto simp: messages_of_def)

theorem output_grows_witness:
  "\<exists>ms. sv_sent sample_run 4 = sv_sent sample_conn 4 @ concat (map (\<lambda>(c, p). make_message c p) ms)"
  by (rule output_grows[OF sample_conn_reachable])
    (simp_all add: sample_run_def[symmetric], simp add: sample_run_def server_step.service)

section \<open>Disconnection and shutdown\<close>

text \<open>C35: When a client's connection ends, its session and its context are gone, its descriptor is
  closed once and last, and the sessions and contexts of all other clients are untouched.\<close>

theorem disconnect_cleans_up:
  assumes "wf_data (sv_data sv)" and "omap_wf (sv_clients sv)"
  shows "let sv' = handle_client_disconnect fd sv
    in \<not> connected sv' fd
    \<and> omap_find (sessions (sv_data sv')) fd = None \<and> omap_find (client_contexts (sv_data sv')) fd = None
    \<and> (\<forall>t. t \<noteq> fd \<longrightarrow> connected sv' t = connected sv t
          \<and> omap_find (sessions (sv_data sv')) t = omap_find (sessions (sv_data sv)) t
          \<and> omap_find (client_contexts (sv_data sv')) t = omap_find (client_contexts (sv_data sv)) t)
    \<and> (\<exists>logs. sv_trace sv' = sv_trace sv @ map IO_log logs @ [IO_close fd])"
proof -
  have s: "omap_wf (sessions (sv_data sv))" "omap_wf (client_contexts (sv_data sv))"
    and dom: "dom (omap_find (client_contexts (sv_data sv))) = dom (omap_find (sessions (sv_data sv)))"
    using assms(1) by (auto simp: wf_data_def wf_sessions_def)
  let ?sv = "handle_client_disconnect fd sv"
  have find: "omap_find (sessions (sv_data ?sv)) t = (if t = fd then None else omap_find (sessions (sv_data sv)) t)"
    "omap_find (client_contexts (sv_data ?sv)) t = (if t = fd then None else omap_find (client_contexts (sv_data sv)) t)" for t
    using s domIff[of fd "omap_find (sessions (sv_data sv))"] domIff[of fd "omap_find (client_contexts (sv_data sv))"] dom
    by (auto simp: handle_logout_def Let_def omap_find_erase split: option.split)
  then show ?thesis
    using disconnect_clients(3)[OF assms(2)] by (auto simp: Let_def)
qed

theorem disconnect_cleans_up_witness:
  "let sv' = handle_client_disconnect 4 sample_server
   in \<not> connected sv' 4 \<and> omap_find (sessions (sv_data sv')) 4 = None
    \<and> omap_find (sessions (sv_data sv')) 5 = Some (sid 2)"
proof -
  have "omap_find (sessions sample_data) 5 = Some (sid 2)" by (simp add: sample_data_def)
  then show ?thesis
    using disconnect_cleans_up[of sample_server 4] sample_wf by (simp add: Let_def)
qed

text \<open>Wake-ups of a server that serves: every \<open>poll\<close> succeeds, and the kernel gives a new connection a
  descriptor that is not in use, until a \<open>SIGINT\<close> during a round.\<close>

fun serving :: "env \<Rightarrow> wakeup list \<Rightarrow> server \<Rightarrow> bool" where
  "serving env [] sv = True"
| "serving env (Interrupted sigint # ws) sv = False"
| "serving env (Poll_failed # ws) sv = False"
| "serving env (Ready accepted ready sigint # ws) sv =
     ((case accepted of None \<Rightarrow> True | Some fd \<Rightarrow> \<not> connected sv fd)
      \<and> (sigint \<or> serving env ws (run_round env accepted ready sv)))"

lemma run_loop_serving:
  assumes "serving env ws sv" and "reachable env sv"
  shows "\<exists>sv'. run_loop env (ws @ Interrupted True # later) sv = Returned sv' \<and> \<not> sv_running sv' \<and> reachable env sv'"
  using assms
proof (induction env ws sv rule: serving.induct)
  case (1 env sv)
  then show ?case by (auto intro: reachable.step server_step.sigint)
next
  case (4 env accepted ready sigint ws sv)
  let ?sv = "run_round env accepted ready sv"
  have r: "reachable env ?sv"
    using 4 by (intro reachable_run_round) (auto split: option.splits)
  show ?case
  proof (cases sigint)
    case True
    have "run_loop env us (shutdown ?sv) = Returned (shutdown ?sv)" for us by (cases us) simp_all
    then show ?thesis using True r 4(3) by (auto intro: reachable.step server_step.sigint)
  next
    case False
    then show ?thesis using 4 r by auto
  qed
qed simp_all

lemma server_delete_trace:
  "sv_trace (server_delete sv) = sv_trace sv @ map IO_close (omap_keys (sv_clients sv)) @ [IO_close (sv_server_fd sv)]"
  by (simp add: server_delete_def omap_keys_def comp_def case_prod_unfold)

text \<open>C36: \<open>SIGINT\<close> ends the loop, after any history in which clients came, were served and left: as long
  as every \<open>poll\<close> before it succeeded, \<open>run\<close> returns in a reachable, stopped state, and the destructor then
  closes every client still connected, each once, and last the listening socket.\<close>

theorem run_stops_on_sigint:
  assumes "serving env ws (server0 sfd\<lparr>sv_running := True\<rparr>)"
  shows "\<exists>sv' fds. run env (ws @ Interrupted True # later) (server0 sfd) = Returned sv'
    \<and> \<not> sv_running sv' \<and> reachable env sv'
    \<and> distinct fds \<and> set fds = {fd. connected sv' fd}
    \<and> sv_trace (server_delete sv') = sv_trace sv' @ map IO_close fds @ [IO_close (sv_server_fd sv')]"
proof -
  obtain sv' where sv: "run_loop env (ws @ Interrupted True # later) (server0 sfd\<lparr>sv_running := True\<rparr>) = Returned sv'"
      "\<not> sv_running sv'" "reachable env sv'"
    using run_loop_serving[OF assms reachable.start] by blast
  have wf: "omap_wf (sv_clients sv')" by (rule sv_consistentD(1)[OF consistent_reachable[OF sv(3)]])
  have "distinct (omap_keys (sv_clients sv'))" "set (omap_keys (sv_clients sv')) = {fd. connected sv' fd}"
    using std_map.distinct_keys[OF wf] std_map.entries_find[OF wf] unfolding omap_keys_def connected_def
    by (simp, force)
  then show ?thesis using sv server_delete_trace[of sv'] by (auto simp: run_def)
qed

text \<open>A client connects and is then closed with the server.\<close>

theorem run_stops_on_sigint_witness:
  "\<exists>sv'. run sample_env [Ready (Some 4) (\<lambda>_. reading []) False, Interrupted True] (server0 3) = Returned sv'
     \<and> connected sv' 4 \<and> IO_close 4 \<in> set (drop (length (sv_trace sv')) (sv_trace (server_delete sv')))"
proof -
  let ?ws = "[Ready (Some 4) (\<lambda>_. reading []) False]" and ?sv = "server0 3\<lparr>sv_running := True\<rparr>"
  have "serving sample_env ?ws ?sv" by (simp add: connected_def server0_def)
  from run_stops_on_sigint[OF this, of "[]"]
  obtain sv' fds where sv: "run sample_env [Ready (Some 4) (\<lambda>_. reading []) False, Interrupted True] (server0 3) = Returned sv'"
      "set fds = {fd. connected sv' fd}"
      "sv_trace (server_delete sv') = sv_trace sv' @ map IO_close fds @ [IO_close (sv_server_fd sv')]"
    by auto
  have "sv' = shutdown (handle_new_connection 4 ?sv)"
    using sv(1) by (simp add: run_def run_round_def build_pollfds_def server0_def)
  then have "connected sv' 4" by (simp add: connected_def handle_new_connection_def omap_find_set shutdown_def)
  then show ?thesis using sv by auto
qed

end
