(* ===== verification/Exchange.thy ===== *)
theory Exchange
  imports Team_Properties Account_Properties Message_Properties Client_Properties Server_Properties
begin

text \<open>
  The two programs together: one request over an idle connection, and what the client shows
  for the answers of the server. The facts rest on the interpretations of the record codecs
  (Client_Response) and of the two framing loops (Server, Client_Net).
\<close>

section \<open>One request\<close>

lemma srv_frames_message:
  assumes "length p \<le> 65535"
  shows "frames srv_split (make_message c p) = ([(c, p)], [], False)"
proof -
  have "srv_split (make_message c p) = Frame (c, p) []" using srv_split_message[OF assms, of c "[]"] by simp
  moreover have "frames srv_split [] = ([], [], False)"
    by (rule srv.frames_Incomplete) (simp add: srv_split_def)
  ultimately show ?thesis using srv.frames_Frame by fastforce
qed

text \<open>A request read from an idle connection is dispatched, and its result delivered.\<close>

lemma one_request:
  fixes env :: env and c :: u16
  assumes "connected sv fd" and "omap_wf (sv_clients sv)" and "recv_of sv fd = []" and "length p \<le> 65535"
  defines "sv' \<equiv> handle_client_read env fd (Some (make_message c p)) sv"
    and "r \<equiv> dispatch_result env fd c p sv"
  shows "sv_data sv' = out_data r" and "connected sv t \<Longrightarrow> send_of sv' t = send_of sv t @ delivered fd (out_result r) t"
proof -
  have sv': "sv' = set_recv fd [] (dispatch env fd c p sv)"
    unfolding sv'_def using assms(1-3) srv_frames_message[OF assms(4)]
    by (simp add: handle_client_read_serve)
  show "sv_data sv' = out_data r" unfolding sv' r_def by simp
  show "connected sv t \<Longrightarrow> send_of sv' t = send_of sv t @ delivered fd (out_result r) t"
    unfolding sv' r_def by (simp add: dispatch_send_of)
qed

lemma dispatch_result_command:
  assumes "omap_find (sessions (sv_data sv)) fd \<noteq> None \<or> k = CMD_LOGIN"
  shows "dispatch_result env fd (command_code k) p sv
    = run_command k (env_uuid env (sv_ticks sv)) (env_clock env (sv_ticks sv)) fd p (sv_data sv)"
  using assms by (auto simp: dispatch_result_def)

lemma client_reads_message:
  assumes "cl_recv_buf c = []" and "length p < 2 ^ 32"
  shows "handle_server_read (Some (make_message code p)) c = handle_response code p c"
  using cl_reads[of "[(code, p)]" "[make_message code p]" c] assms by simp

section \<open>What the client shows\<close>

definition user_line :: "server_data_t \<Rightarrow> user_t \<Rightarrow> client_call" where
  "user_line d u = client_print_users (text_of (user_uuid u)) (text_of (user_name u)) (if is_user_online d u then 1 else 0)"

definition message_line :: "message_t \<Rightarrow> client_call" where
  "message_line m = client_private_message_print_messages (text_of (msg_sender_uuid m)) (msg_timestamp m) (text_of (msg_body m))"

definition team_line :: "team_t \<Rightarrow> client_call" where
  "team_line t = client_print_teams (text_of (team_uuid t)) (text_of (team_name t)) (text_of (team_description t))"

definition channel_line :: "channel_t \<Rightarrow> client_call" where
  "channel_line c = client_team_print_channels (text_of (channel_uuid c)) (text_of (channel_name c))
     (text_of (channel_description c))"

definition thread_line :: "thread_t \<Rightarrow> client_call" where
  "thread_line h = client_channel_print_threads (text_of (thread_uuid h)) (text_of (thread_creator_uuid h))
     (thread_timestamp h) (text_of (thread_title h)) (text_of (thread_body h))"

definition reply_line :: "bytes \<Rightarrow> reply_t \<Rightarrow> client_call" where
  "reply_line tid r = client_thread_print_replies (text_of tid) (text_of (reply_creator_uuid r))
     (reply_timestamp r) (text_of (reply_body r))"

lemmas line_defs = user_line_def message_line_def team_line_def channel_line_def thread_line_def reply_line_def

text \<open>The lines for the place a context selects.\<close>

definition place_lines :: "server_data_t \<Rightarrow> client_context_t \<Rightarrow> client_call list" where
  "place_lines d c =
     (if ctx_level c = use_code USE_NONE then map team_line (teams d)
      else if ctx_level c = use_code USE_TEAM
      then (case resolve_team d c of None \<Rightarrow> [] | Some i \<Rightarrow> map channel_line (team_channels (teams d ! i)))
      else if ctx_level c = use_code USE_CHANNEL
      then (case resolve_channel d c of None \<Rightarrow> []
            | Some (i, j) \<Rightarrow> map thread_line (channel_threads (team_channels (teams d ! i) ! j)))
      else (case resolve_thread d c of None \<Rightarrow> []
            | Some (i, j, k) \<Rightarrow> map (reply_line (take 36 (ctx_thread_uuid c)))
                (thread_replies (channel_threads (team_channels (teams d ! i) ! j) ! k))))"

lemma counted_layout:
  "counted (map f xs) = be_bytes32 (word_of_nat (length xs)) @ concat (map f xs)"
  by (simp add: counted_def)

section \<open>Lists arrive\<close>

text \<open>What the readers make of the server's counted lists, entity by entity.\<close>

lemma read_users:
  assumes "\<And>u. u \<in> set us \<Longrightarrow> wf_user u" and "length us < 2 ^ 32"
  shows "response_calls cl (response_code RES_USERS_LIST) (counted (map (user_entry d) us)) = map (user_line d) us"
  using user_codec.read_counted[OF assms, of d client_print_users]
  by (simp add: list_calls counted_layout user_line_def[abs_def] del: response_code.simps)

lemma read_teams:
  assumes "\<And>t. t \<in> set ts \<Longrightarrow> wf_team ids t" and "length ts < 2 ^ 32"
  shows "response_calls cl (response_code RES_LIST_TEAMS) (counted (map team_info ts)) = map team_line ts"
  using team_codec.read_counted[OF assms, of client_print_teams]
  by (simp add: list_calls counted_layout team_line_def[abs_def] del: response_code.simps)

lemma read_channels:
  assumes "\<And>c. c \<in> set cs \<Longrightarrow> wf_channel ids c" and "length cs < 2 ^ 32"
  shows "response_calls cl (response_code RES_LIST_CHANNELS) (counted (map channel_info cs)) = map channel_line cs"
  using channel_codec.read_counted[OF assms, of client_team_print_channels]
  by (simp add: list_calls counted_layout channel_line_def[abs_def] del: response_code.simps)

lemma read_threads:
  assumes "\<And>h. h \<in> set hs \<Longrightarrow> wf_thread ids h" and "length hs < 2 ^ 32"
  shows "response_calls cl (response_code RES_LIST_THREADS) (counted (map thread_info hs)) = map thread_line hs"
  using thread_codec.read_counted[OF assms, of client_channel_print_threads]
  by (simp add: list_calls counted_layout thread_line_def[abs_def] del: response_code.simps)

lemma read_replies:
  assumes "valid_uuid36 (take 36 tid)" and "\<And>r. r \<in> set rs \<Longrightarrow> wf_reply ids r" and "length rs < 2 ^ 32"
  shows "response_calls cl (response_code RES_LIST_REPLIES) (counted (map (reply_info tid) rs))
    = map (reply_line (take 36 tid)) rs"
proof -
  let ?tid = "take 36 tid @ [0]"
  have v: "valid_uuid37 ?tid" by (rule valid_uuid37_of_36[OF assms(1)])
  have len: "length (take 36 tid) = 36" using assms(1) by (simp add: valid_uuid36_def)
  have i: "reply_info tid = reply_info ?tid" using len by (simp add: reply_info_def fun_eq_iff)
  have t: "text_of ?tid = text_of (take 36 tid)"
    using assms(1) by (simp add: valid_uuid36_def cstr_append_nul cstr_ident)
  show ?thesis
    using reply_codec.read_counted[of rs ?tid ids client_thread_print_replies] assms(2,3) v
    by (simp add: list_calls counted_layout reply_line_def[abs_def] i t del: response_code.simps)
qed

lemma read_messages:
  assumes "\<And>m. m \<in> set ms \<Longrightarrow> wf_message ids m" and "length ms < 2 ^ 32"
  shows "response_calls cl (response_code RES_MESSAGES_LIST) (counted (map message_entry ms)) = map message_line ms"
  using message_codec.read_counted[OF assms]
  by (simp add: list_calls counted_layout message_line_def[abs_def] del: response_code.simps)

lemma resolved_thread_uuid:
  assumes "wf_data d" and "resolve_thread d c = Some (i, j, k)"
  shows "valid_uuid36 (take 36 (ctx_thread_uuid c))"
    and "wf_thread (user_ids d) (channel_threads (team_channels (teams d ! i) ! j) ! k)"
proof -
  note k = resolve_threadD[OF assms(2)] and i = resolve_channelD[OF conjunct1[OF resolve_threadD[OF assms(2)]]]
  let ?h = "channel_threads (team_channels (teams d ! i) ! j) ! k"
  show h: "wf_thread (user_ids d) ?h"
    using k i wf_team_nth[OF assms(1)] by (meson wf_channel_nth wf_thread_nth)
  then have "valid_uuid37 (thread_uuid ?h)" by (simp add: wf_thread_def)
  moreover have "take 36 (thread_uuid ?h) = take 36 (ctx_thread_uuid c)"
    using k find_thread_by_uuidD(2) by blast
  ultimately show "valid_uuid36 (take 36 (ctx_thread_uuid c))"
    using valid_uuid36_cstr valid_uuid37_cstr by metis
qed

lemma place_lines_read:
  assumes "wf_data d" and "ctx_valid d c" and "length (place_blocks d c) < 2 ^ 32"
  shows "response_calls cl (response_code (list_code c)) (counted (place_blocks d c)) = place_lines d c"
  using assms(2)
proof (cases rule: ctx_valid_cases)
  case none
  then show ?thesis
    using read_teams[of "teams d" "user_ids d" cl] assms(1,3)
    by (simp add: place_blocks_def place_lines_def level_codes_def wf_data_def wf_teams_def
        del: use_code.simps response_code.simps)
next
  case (team i)
  have "wf_team (user_ids d) (teams d ! i)" by (rule wf_team_nth[OF assms(1) resolve_teamD[OF team(2)]])
  then show ?thesis
    using read_channels[of "team_channels (teams d ! i)" "user_ids d" cl] team assms(3)
    by (simp add: place_blocks_def place_lines_def level_codes_def wf_team_def del: use_code.simps response_code.simps)
next
  case (channel i j)
  then have "wf_channel (user_ids d) (team_channels (teams d ! i) ! j)"
    using resolve_channelD[OF channel(2)] wf_team_nth[OF assms(1)] by (meson wf_channel_nth)
  then show ?thesis
    using read_threads[of "channel_threads (team_channels (teams d ! i) ! j)" "user_ids d" cl] channel assms(3)
    by (simp add: place_blocks_def place_lines_def level_codes_def wf_channel_def del: use_code.simps response_code.simps)
next
  case (thread i j k)
  note h = resolved_thread_uuid[OF assms(1) thread(2)]
  show ?thesis
    using read_replies[OF h(1), of "thread_replies (channel_threads (team_channels (teams d ! i) ! j) ! k)"
        "user_ids d" cl] h(2) thread assms(3)
    by (simp add: place_blocks_def place_lines_def level_codes_def wf_thread_def del: use_code.simps response_code.simps)
qed

section \<open>Logging in\<close>

lemma login_calls:
  assumes "wf_user u"
  shows "handle_response (response_code RES_LOGIN_OK) (name_entry u) c
    = calls [client_event_logged_in (text_of (user_uuid u)) (text_of (user_name u))] c
        \<lparr>cl_user_uuid := text_of (user_uuid u)\<rparr>"
proof -
  have "read_from_start (read_uuid_name (name_entry u) client_event_logged_in)
    = client_event_logged_in (text_of (user_uuid u)) (text_of (user_name u))"
    by (rule name_codec.read_one[OF assms])
  moreover have "read_from_start (read_fixed (name_entry u) 36) = text_of (user_uuid u)"
    using assms by (simp add: read_from_start_def reader_simps name_entry_def wf_user_def valid_uuid_length
        valid_uuid37_cstr cstr_take)
  ultimately show ?thesis
    by (simp add: handle_response_def response_calls_def Let_def)
qed

lemma login_line:
  assumes "DQUOTE \<notin> set name"
  shows "handle_line net (command_line ''login'' [name]) c = send_packet net CMD_LOGIN (pack_fixed [] name 32) c"
proof -
  have "parse_line (command_line ''login'' [name])
    = \<lparr>pc_name = ''login'', pc_args = [name], pc_valid = True, pc_error = []\<rparr>"
    using parse_command_line_rest[of "''login''" "[name]" "[]"] assms by (simp add: parsed_command0_def)
  then show ?thesis
    by (simp add: handle_line_def command_line_def client_dispatch_def cmd_login_def)
qed

text \<open>A packed name, read as a C string, is the name.\<close>

lemma cstr_packed:
  assumes "0 \<notin> set (bytes_of name)" and "length name \<le> n"
  shows "cstr (pack_fixed [] name n) = bytes_of name"
  using assms by (simp add: pack_fixed_layout)

end
