(* ===== verification/Network_Properties.thy ===== *)
theory Network_Properties
  imports Delivery Exchange
begin

text \<open>
  Properties of the whole service, server, clients and network together, and a short run of it
  as the instance they are shown on: a client connects, its user logs in, the server answers and
  the client shows the answer.
\<close>

declare response_code.simps [simp del] error_code.simps [simp del] event_code.simps [simp del] command_code.simps [simp del]

section \<open>A short run of the whole service\<close>

definition typing :: "string \<Rightarrow> client_ready" where
  "typing s = \<lparr>cr_stdin_in = True, cr_stdin_read = Some s, cr_sock_out = False, cr_sock_in = False,
     cr_sock_read = None, cr_sock_hup = False\<rparr>"

definition joined :: network where
  "joined = join_link 4 (client0\<lparr>cl_fd := 3\<rparr>) (network0 3)"

definition asked :: network where
  "asked = turn_link (\<lambda>_. 1000) 0 (typing (command_line ''login'' [''a''] @ [NEWLINE])) joined"

definition understood :: network where
  "understood = serve_link sample_env 0 4 (arriving sample_login_bytes) asked"

definition answered :: network where
  "answered = serve_link sample_env 0 4 (sending 74) understood"

definition told :: network where
  "told = turn_link (\<lambda>_. 0) 0 (taking (lk_down (nw_links answered ! 0))) answered"

lemma joined_reachable: "network_reachable sample_env joined"
  unfolding joined_def
proof (rule network_reachable.step[OF network_reachable.start network_step.join])
  show "connect ''127.0.0.1'' 3 1 0 [] = Inr (client0\<lparr>cl_fd := 3\<rparr>)" by (simp add: connect_def)
qed (simp_all add: network0_def connected_def server0_def)

lemma joined_parts:
  "nw_server joined = sample_conn"
  "nw_links joined = [\<lparr>lk_fd = Some 4, lk_client = client0\<lparr>cl_fd := 3, cl_running := True\<rparr>, lk_up = [], lk_down = []\<rparr>]"
  by (simp_all add: joined_def join_link_def network0_def sample_conn_def)

lemma login_bytes: "make_message (command_code CMD_LOGIN) (pack_fixed [] ''a'' 32) = sample_login_bytes"
  by (simp add: sample_login_bytes_def pack_fixed_layout set_fixed_name_def memcpy0_def bytes_of_def byte_of_char_def
      numeral_eq_Suc zeros_def)

lemma length_login_bytes: "length sample_login_bytes = 38"
  using arg_cong[OF login_bytes, of length] by simp

text \<open>The line, the newline, the request: all of it leaves in one write.\<close>

lemma one_line:
  assumes "NEWLINE \<notin> set l"
  shows "frames line_split (l @ [NEWLINE]) = ([l], [], False)"
proof -
  have "find_idx (\<lambda>ch. ch = NEWLINE) l = None" using assms by (auto simp: find_idx_None_iff)
  then have "line_split (l @ [NEWLINE]) = Frame l []" by (simp add: line_split_def find_idx_append)
  moreover have "frames line_split [] = ([], [], False)"
    by (rule line.frames_Incomplete) (simp add: line_split_def)
  ultimately show ?thesis using line.frames_Frame by fastforce
qed

lemma asked_parts:
  "nw_server asked = sample_conn"
  "\<exists>c. nw_links asked = [\<lparr>lk_fd = Some 4, lk_client = c, lk_up = sample_login_bytes, lk_down = []\<rparr>]
     \<and> cl_running c \<and> cl_recv_buf c = [] \<and> cl_send_buf c = []"
proof -
  show "nw_server asked = sample_conn" by (simp add: asked_def turn_link_def joined_parts Let_def)
  let ?line = "command_line ''login'' [''a'']" and ?c = "client0\<lparr>cl_fd := 3, cl_running := True\<rparr>"
  let ?c' = "client_round (\<lambda>_. 1000) (typing (?line @ [NEWLINE])) ?c"
  have "NEWLINE \<notin> set ?line" by (simp add: command_line_def quote_args_def NEWLINE_def DQUOTE_def)
  then have "frames line_split (cl_stdin_buf ?c @ ?line @ [NEWLINE]) = ([?line], [], False)"
    using one_line by (simp add: client0_def)
  moreover have "?c' = handle_stdin (\<lambda>_. 1000) (Some (?line @ [NEWLINE])) ?c"
    by (simp add: client_round_def typing_def)
  ultimately have c': "?c' = send_packet (\<lambda>_. 1000) CMD_LOGIN (pack_fixed [] ''a'' 32) ?c\<lparr>cl_stdin_buf := []\<rparr>"
    using login_line[of "''a''" "\<lambda>_. 1000" ?c] by (simp add: handle_stdin_frames DQUOTE_def)
  have takes: "client_takes (typing s) = []" for s by (simp add: client_takes_def typing_def)
  have sent: "send_packet (\<lambda>_. 1000) CMD_LOGIN (pack_fixed [] ''a'' 32) ?c
      = tell [CL_write sample_login_bytes] (?c\<lparr>cl_writes := 1, cl_send_buf := []\<rparr>)"
    using length_login_bytes unfolding send_packet_message login_bytes
    by (auto simp: handle_server_write_def client0_def)
  show "\<exists>c. nw_links asked = [\<lparr>lk_fd = Some 4, lk_client = c, lk_up = sample_login_bytes, lk_down = []\<rparr>]
     \<and> cl_running c \<and> cl_recv_buf c = [] \<and> cl_send_buf c = []"
    unfolding asked_def turn_link_def joined_parts Let_def
    by (simp add: client_wrote_def c' sent takes) (simp add: client0_def)
qed

lemma asked_reachable: "network_reachable sample_env asked"
  unfolding asked_def
  by (rule network_reachable.step[OF joined_reachable network_step.turn])
    (simp_all add: joined_parts typing_def client_takes_def)

text \<open>The server reads the request, and writes its answer when the connection is ready for it.\<close>

lemma login_answer:
  obtains u where "send_of sample_run 4 = make_message (response_code RES_LOGIN_OK) (login_payload u)"
    and "truthful (sv_data sample_run) (response_code RES_LOGIN_OK) (login_payload u)"
proof -
  let ?p = "set_fixed_name [0x61]" and ?fresh = "sample_uuid 0"
  let ?r = "handle_login ?fresh 4 ?p server_data0"
  have r: "dispatch_result sample_env 4 (command_code CMD_LOGIN) ?p sample_conn = ?r"
    by (subst dispatch_result_command) (simp_all add: run_command_def sample_env_def)
  have send: "send_of sample_run 4 = pk_bytes (res_response (out_result ?r))"
    unfolding sample_run_eq
    by (simp add: dispatch_send_of r delivered_def del: command_code.simps)
      (simp add: sample_conn_def handle_new_connection_def send_of_def client_at_def omap_find_set emit_def client_state0_def)
  have data: "sv_data sample_run = out_data ?r" unfolding sample_run_eq by (simp add: r del: command_code.simps)
  have ok: "data_ok (env_uuid sample_env) 0 server_data0" by (rule data_ok0)
  have "wf_data server_data0" "fresh_uuid ?fresh server_data0"
    using data_ok_fresh[OF ok] good_gen_mono[OF sample_gen, of 1] by (simp_all add: sample_env_def)
  then have "says truthful (out_data ?r) (out_result ?r)" by (rule tells_login)
  moreover obtain d1 i logs where l: "login_user ?fresh 4 (trim_padded_name ?p) server_data0 = (d1, i, logs)"
    by (metis prod_cases3)
  define u where "u = users (login_session 4 i d1) ! i"
  have "res_response (out_result ?r) = res_response (ok RES_LOGIN_OK (login_payload u))"
    by (simp add: handle_login_def l Let_def u_def)
  ultimately have "truthful (out_data ?r) (response_code RES_LOGIN_OK) (login_payload u)
      \<and> pk_bytes (res_response (out_result ?r)) = make_message (response_code RES_LOGIN_OK) (login_payload u)"
    by (auto simp: says_def says_packet_def make_message_def Let_def simp del: response_code.simps)
  then show thesis using that[of u] by (simp only: send data)
qed

lemma understood_parts:
  "nw_server understood = sample_run"
  "\<exists>c. nw_links understood = [\<lparr>lk_fd = Some 4, lk_client = c, lk_up = [], lk_down = []\<rparr>]
     \<and> cl_running c \<and> cl_recv_buf c = [] \<and> cl_send_buf c = []"
proof -
  obtain c where c: "nw_links asked = [\<lparr>lk_fd = Some 4, lk_client = c, lk_up = sample_login_bytes, lk_down = []\<rparr>]"
      "cl_running c" "cl_recv_buf c = []" "cl_send_buf c = []"
    using asked_parts(2) by blast
  have "handle_client_read sample_env 4 (Some sample_login_bytes) sample_conn = sample_run"
    using sample_run_simps(1)[of 4] by (simp add: sample_run_def service_def reading_def Let_def)
  then have sv: "service sample_env 4 (arriving sample_login_bytes) sample_conn = sample_run"
    using sample_run_simps(1)[of 4] by (simp add: service_def arriving_def Let_def)
  obtain ls where "sv_trace sample_run = sv_trace sample_conn @ map IO_log ls"
    unfolding sample_run_eq by (simp add: set_recv_sel)
  then have "server_wrote 4 sample_conn sample_run = []" by (simp add: server_wrote_def written_quiet)
  moreover have "connected sample_run 4" by simp
  moreover have "server_takes (arriving sample_login_bytes) = sample_login_bytes" by (simp add: server_takes_def arriving_def)
  ultimately have "nw_links understood = [\<lparr>lk_fd = Some 4, lk_client = c, lk_up = [], lk_down = []\<rparr>]"
    unfolding understood_def serve_link_def asked_parts(1) c(1) Let_def sv by (simp add: carry_def)
  then show "\<exists>c. nw_links understood = [\<lparr>lk_fd = Some 4, lk_client = c, lk_up = [], lk_down = []\<rparr>]
     \<and> cl_running c \<and> cl_recv_buf c = [] \<and> cl_send_buf c = []" using c(2-4) by blast
  show "nw_server understood = sample_run"
    unfolding understood_def serve_link_def asked_parts(1) Let_def sv by simp
qed

lemma answered_parts:
  "\<exists>u c. sv_data (nw_server answered) = sv_data sample_run \<and> sv_ticks (nw_server answered) = 1
     \<and> send_of (nw_server answered) 4 = [] \<and> send_of (nw_server understood) 4 = lk_down (nw_links answered ! 0)
     \<and> truthful (sv_data sample_run) (response_code RES_LOGIN_OK) (login_payload u)
     \<and> nw_links answered = [\<lparr>lk_fd = Some 4, lk_client = c, lk_up = [],
          lk_down = make_message (response_code RES_LOGIN_OK) (login_payload u)\<rparr>]
     \<and> cl_running c \<and> cl_recv_buf c = [] \<and> cl_send_buf c = []"
proof -
  obtain u where u: "send_of sample_run 4 = make_message (response_code RES_LOGIN_OK) (login_payload u)"
      "truthful (sv_data sample_run) (response_code RES_LOGIN_OK) (login_payload u)"
    by (rule login_answer)
  let ?m = "make_message (response_code RES_LOGIN_OK) (login_payload u)" and ?r = "sending 74"
  have short: "length ?m = 74" using u(2) by (simp add: truthful_def)
  obtain c where c: "nw_links understood = [\<lparr>lk_fd = Some 4, lk_client = c, lk_up = [], lk_down = []\<rparr>]"
      "cl_running c" "cl_recv_buf c = []" "cl_send_buf c = []"
    using understood_parts(2) by blast
  have wf: "omap_wf (sv_clients sample_run)"
    by (rule sv_consistentD(1)[OF consistent_reachable[OF sample_run_reachable]])
  have sv: "service sample_env 4 ?r sample_run
      = upd_client 4 (\<lambda>c. c\<lparr>cs_send_buffer := []\<rparr>) (emit [IO_write 4 ?m] sample_run)"
    using u(1) short wf sample_run_simps(1)[of 4]
    by (auto simp: service_def sending_def handle_client_write_def upd_client_id Let_def simp del: response_code.simps)
  have "server_wrote 4 sample_run (service sample_env 4 ?r sample_run) = ?m"
    by (simp add: server_wrote_def sv del: response_code.simps)
  moreover have "connected (service sample_env 4 ?r sample_run) 4" by (simp add: sv)
  moreover have "server_takes ?r = []" by (simp add: server_takes_def sending_def)
  ultimately have "nw_links answered = [\<lparr>lk_fd = Some 4, lk_client = c, lk_up = [], lk_down = ?m\<rparr>]"
    unfolding answered_def serve_link_def understood_parts(1) c(1) Let_def by (simp add: carry_def del: response_code.simps)
  moreover have "sv_data (nw_server answered) = sv_data sample_run \<and> sv_ticks (nw_server answered) = 1
      \<and> send_of (nw_server answered) 4 = []"
    unfolding answered_def serve_link_def understood_parts(1) Let_def
    by (simp add: sv) (simp add: send_of_def client_at_upd wf)
  ultimately show ?thesis using u c(2-4) by (auto simp: understood_parts(1))
qed

text \<open>The answer arrives.\<close>

lemma told_parts:
  "sv_ticks (nw_server told) = 1" "sv_data (nw_server told) = sv_data sample_run" "send_of (nw_server told) 4 = []"
  "(transfer sample_env 0 ^^ 3) asked told"
  "\<exists>c u n. nw_links told = [\<lparr>lk_fd = Some 4, lk_client = c, lk_up = [], lk_down = []\<rparr>]
     \<and> client_event_logged_in u n \<in> set (calls_made (cl_trace c)) \<and> cl_send_buf c = [] \<and> cl_running c"
proof -
  obtain x c where a: "sv_data (nw_server answered) = sv_data sample_run" "sv_ticks (nw_server answered) = 1"
    "send_of (nw_server answered) 4 = []" "send_of (nw_server understood) 4 = lk_down (nw_links answered ! 0)"
    "truthful (sv_data sample_run) (response_code RES_LOGIN_OK) (login_payload x)"
    "nw_links answered = [\<lparr>lk_fd = Some 4, lk_client = c, lk_up = [],
       lk_down = make_message (response_code RES_LOGIN_OK) (login_payload x)\<rparr>]"
    "cl_running c" "cl_recv_buf c = []" "cl_send_buf c = []"
    using answered_parts by blast
  let ?m = "make_message (response_code RES_LOGIN_OK) (login_payload x)"
  have short: "length (login_payload x) = 68" using a(5) by (simp add: truthful_def)
  define c' where "c' = client_round (\<lambda>_. 0) (taking ?m) c"
  have c': "c' = handle_server_read (Some ?m) c" by (simp add: c'_def client_round_def taking_def)
  have server: "nw_server told = nw_server answered" by (simp add: told_def turn_link_def Let_def)
  show "sv_ticks (nw_server told) = 1" "sv_data (nw_server told) = sv_data sample_run" "send_of (nw_server told) 4 = []"
    by (simp_all add: server a)
  have takes: "client_takes (taking ?m) = ?m" by (simp add: client_takes_def taking_def)
  have len: "length ?m = 74" using short by simp
  have "transfer sample_env 0 asked understood"
    unfolding understood_def
    by (rule transfer.arrival[OF refl]) (use asked_parts(2) length_login_bytes in auto)
  moreover have "transfer sample_env 0 understood answered"
    unfolding answered_def
    by (rule transfer.departure[OF refl]) (use understood_parts(2) a(4,6) len in auto)
  moreover have "transfer sample_env 0 answered told"
    unfolding told_def
    by (rule transfer.download[OF refl]) (use a len in auto)
  ultimately show "(transfer sample_env 0 ^^ 3) asked told" by (auto simp: numeral_eq_Suc)
  have "client_wrote c c' = []"
    using server_read_writes(1)[of "Some ?m" c] by (auto simp: client_wrote_def c')
  then have "nw_links told = [\<lparr>lk_fd = Some 4, lk_client = c', lk_up = [], lk_down = []\<rparr>]"
    by (simp add: told_def turn_link_def Let_def a(6) takes c'_def[symmetric])
  moreover have read: "c' = handle_response (response_code RES_LOGIN_OK) (login_payload x) c"
    unfolding c' using client_reads_message[OF a(8)] short by simp
  moreover have "\<exists>u n. client_event_logged_in u n \<in> set (calls_made (cl_trace c'))"
  proof -
    obtain u n where "read_from_start (read_uuid_name (login_payload x) client_event_logged_in) = client_event_logged_in u n"
      by (cases "read_from_start (read_uuid_name (login_payload x) client_event_logged_in)"; simp add: read_from_start_def read_uuid_name_def reader_simps split: prod.splits)
    then show ?thesis unfolding read by (auto simp: handle_response_calls one_calls)
  qed
  moreover have "cl_send_buf c' = [] \<and> cl_running c'" unfolding read using a(7,9) by (simp add: handle_response_def Let_def)
  ultimately show "\<exists>c u n. nw_links told = [\<lparr>lk_fd = Some 4, lk_client = c, lk_up = [], lk_down = []\<rparr>]
     \<and> client_event_logged_in u n \<in> set (calls_made (cl_trace c)) \<and> cl_send_buf c = [] \<and> cl_running c" by blast
qed

lemma told_reachable: "network_reachable sample_env told"
proof -
  obtain c where "nw_links asked = [\<lparr>lk_fd = Some 4, lk_client = c, lk_up = sample_login_bytes, lk_down = []\<rparr>]"
    using asked_parts(2) by blast
  then show ?thesis using transfers_on_course[OF told_parts(4) asked_reachable, of 4] by simp
qed

lemma sample_run_small: "small (sv_data sample_run)"
  unfolding sample_run_eq
  by (simp add: dispatch_result_command[where k = CMD_LOGIN, simplified] run_command_def handle_login_def login_user_def
      find_user_by_name_def server_data0_def Let_def small_def login_session_def)

lemma told_sound: "good_gen (env_uuid sample_env) (sv_ticks (nw_server told))" "small (sv_data (nw_server told))"
  using good_gen_mono[OF sample_gen, of 1] sample_run_small by (simp_all add: told_parts)

section \<open>Names in the whole service\<close>

lemma names_serve:
  assumes "data_ok (env_uuid env) (sv_ticks sv) (sv_data sv)"
    and "good_gen (env_uuid env) (sv_ticks (serve env fd (map (\<lambda>(k, p). (command_code k, p)) qs) sv))"
    and "acceptable qs" and "distinct (names (sv_data sv))"
  shows "distinct (names (sv_data (serve env fd (map (\<lambda>(k, p). (command_code k, p)) qs) sv)))"
  using assms
proof (induction qs arbitrary: sv)
  case (Cons m qs)
  obtain k p where m: "m = (k, p)" by force
  let ?sv = "dispatch env fd (command_code k) p sv"
  have gen: "good_gen (env_uuid env) (sv_ticks (serve env fd (map (\<lambda>(k, p). (command_code k, p)) qs) ?sv))"
    using Cons.prems(2) by (simp add: m)
  have "sv_ticks sv \<le> sv_ticks ?sv" by (simp add: dispatch_ticks_def)
  then have "good_gen (env_uuid env) (sv_ticks sv)"
    using good_gen_mono[OF gen] serve_ticks[of ?sv env fd] le_trans by blast
  then have wf: "wf_data (sv_data sv)" using Cons.prems(1) by (simp add: data_ok_def)
  have p: "k = CMD_LOGIN \<Longrightarrow> length (cstr p) \<le> 32" and acc: "acceptable qs"
    using Cons.prems(3) le_trans[OF length_cstr_le[of p]] by (auto simp: acceptable_def m)
  have "distinct (names (out_data (dispatch_result env fd (command_code k) p sv)))"
  proof (cases "k = CMD_LOGIN")
    case True
    have "dispatch_result env fd (command_code CMD_LOGIN) p sv
        = run_command CMD_LOGIN (env_uuid env (sv_ticks sv)) (env_clock env (sv_ticks sv)) fd p (sv_data sv)"
      by (subst dispatch_result_command) simp_all
    then show ?thesis
      using True distinct_names_login[OF wf Cons.prems(4) p] by (simp add: run_command_def)
  next
    case False
    have "names (out_data (dispatch_result env fd (command_code k) p sv)) = names (sv_data sv)"
      using names_run_command[OF False]
      by (cases "omap_find (sessions (sv_data sv)) fd")
        (auto simp: dispatch_result_def command_of_code_code split: option.split)
    then show ?thesis using Cons.prems(4) by simp
  qed
  then show ?case
    using Cons.IH[OF ok.dispatch[OF refl Cons.prems(1)] gen acc] by (simp add: m)
qed simp

lemma names_write: "names (sv_data (handle_client_write fd n sv)) = names (sv_data sv)"
  by (simp add: handle_client_write_def Let_def names_handle_logout)

lemma names_step:
  assumes "network_reachable env nw" and "network_step env nw nw'"
    and "good_gen (env_uuid env) (sv_ticks (nw_server nw'))" and "distinct (names (sv_data (nw_server nw)))"
  shows "distinct (names (sv_data (nw_server nw')))"
  using assms(2)
proof (cases rule: network_step.cases)
  case (serve i fd r)
  let ?sv = "nw_server nw" and ?lk = "nw_links nw ! i"
  have mem: "?lk \<in> set (nw_links nw)" using serve(2) by simp
  note conn = link_connected[OF assms(1) mem serve(3)]
  note ok = ok.reachable[OF refl data_ok0 network_server[OF assms(1)]]
  have sv': "nw_server nw' = service env fd r ?sv" using serve(1) by (simp add: serve_link_def Let_def)
  show ?thesis
  proof (cases "rv_error r \<or> \<not> rv_pollin r \<or> rv_read r = None")
    case True
    then show ?thesis
      using assms(4) conn by (auto simp: sv' service_def names_handle_logout names_write handle_client_read_def Let_def)
  next
    case False
    then obtain bs where bs: "rv_read r = Some bs" "server_takes r = bs" by (auto simp: server_takes_def)
    obtain qs rest where q: "acceptable qs" "handle_client_read env fd (Some bs) ?sv
        = set_recv fd rest (serve env fd (map (\<lambda>(k, p). (command_code k, p)) qs) ?sv)"
      using requests_read[OF assms(1) mem serve(3), of bs] serve(5) bs(2) by metis
    have "sv_ticks (nw_server nw') = sv_ticks (serve env fd (map (\<lambda>(k, p). (command_code k, p)) qs) ?sv)
        \<and> names (sv_data (nw_server nw')) = names (sv_data (serve env fd (map (\<lambda>(k, p). (command_code k, p)) qs) ?sv))"
      using False conn bs(1) q(2) by (auto simp: sv' service_def Let_def names_write write_ticks)
    then show ?thesis using names_serve[OF ok _ q(1) assms(4), of fd] assms(3) by simp
  qed
qed (use assms(4) in \<open>simp_all add: join_link_def turn_link_def Let_def\<close>)

section \<open>Properties\<close>



text \<open>C12: In every reachable state each client's output stream is a sequence of messages that
  doc/RFC.md allows: each has the code of a response, an event or an error, other than
  \<open>ERR_ALREADY_EXISTS\<close>, and a payload of exactly the length its table gives, the count of a list
  agreeing with its length.\<close>

theorem messages_follow_rfc:
  assumes "reachable env sv" and "good_gen (env_uuid env) (sv_ticks sv)" and "connected sv fd"
  shows "\<exists>ms. sv_sent sv fd = concat (map (\<lambda>(c, p). make_message c p) ms) \<and> (\<forall>(c, p) \<in> set ms. rfc_message c p)"
proof -
  obtain ms where "sv_sent sv fd = concat (map (\<lambda>(c, p). make_message c p) ms)" "\<forall>(c, p) \<in> set ms. sound (sv_data sv) c p"
    using stream_sound[OF assms] by (auto simp: said_def)
  moreover have "rfc_message c p" if "sound d c p" for d c p
    using that rfc_message[of c p d] by (simp add: sound_def truthful_def)
  ultimately show ?thesis by fast
qed

theorem messages_follow_rfc_witness:
  "\<exists>ms. sv_sent sample_run 4 = concat (map (\<lambda>(c, p). make_message c p) ms) \<and> list_all (\<lambda>m. rfc_message (fst m) (snd m)) ms"
proof -
  have "good_gen (env_uuid sample_env) (sv_ticks sample_run)" using good_gen_mono[OF sample_gen, of 1] by simp
  then show ?thesis using messages_follow_rfc[OF sample_run_reachable, of 4]
    unfolding list_all_iff by fastforce
qed

text \<open>C4: The server never rejects what a client of this program sends: whatever part of what is in flight from it
  a read gets, the server dispatches known commands with payloads of acceptable size, in order, and keeps the
  connection.\<close>

theorem genuine_client_never_rejected:
  assumes "network_reachable env nw" and "lk \<in> set (nw_links nw)" and "lk_fd lk = Some fd" and "prefix bs (lk_up lk)"
  shows "connected (handle_client_read env fd (Some bs) (nw_server nw)) fd
    \<and> (\<exists>qs rest. acceptable qs \<and> handle_client_read env fd (Some bs) (nw_server nw)
           = set_recv fd rest (serve env fd (map (\<lambda>(k, p). (command_code k, p)) qs) (nw_server nw)))"
proof -
  note wf = sv_consistentD(1)[OF consistent_reachable[OF network_server[OF assms(1)]]]
  obtain qs rest where "acceptable qs" "handle_client_read env fd (Some bs) (nw_server nw)
      = set_recv fd rest (serve env fd (map (\<lambda>(k, p). (command_code k, p)) qs) (nw_server nw))"
    by (rule requests_read[OF assms])
  then show ?thesis using wf link_connected[OF assms(1-3)] by auto
qed

theorem genuine_client_never_rejected_witness:
  "connected (handle_client_read sample_env 4 (Some sample_login_bytes) (nw_server asked)) 4"
proof -
  obtain c where "nw_links asked = [\<lparr>lk_fd = Some 4, lk_client = c, lk_up = sample_login_bytes, lk_down = []\<rparr>]"
    using asked_parts(2) by blast
  then show ?thesis
    using genuine_client_never_rejected[OF asked_reachable, of "nw_links asked ! 0" 4 sample_login_bytes] by simp
qed

text \<open>C5: Everything is delivered, and nothing is lost, repeated or reordered on the way: let link \<open>i\<close> be
  served, in any order and in pieces of any size, each write taking some of what the buffer holds and each
  read some of what is in flight. From every reachable state at most \<open>way_to_go\<close> transfers are possible; and when none
  is possible any more, nothing is in flight or held back in either direction, the server's data is what it
  would be had it dispatched at once all the requests that were on their way, and the client has shown what it would
  have shown had it then read all the answers at once. The hypotheses are those of the whole service, for the data the
  server will have, and that no answer to a logout is under way, which would stop the client.\<close>

theorem everything_delivered:
  assumes "network_reachable env nw" and "i < length (nw_links nw)" and "lk_fd (nw_links nw ! i) = Some fd"
    and "good_gen (env_uuid env) (sv_ticks (server_after env i nw))" and "small (sv_data (server_after env i nw))"
    and "cl_running (client_after env i nw)"
    and "(transfer env i ^^ n) nw nw'"
  shows "n \<le> way_to_go env i nw
    \<and> ((\<nexists>nw''. transfer env i nw' nw'') \<longrightarrow>
        (let lk = nw_links nw' ! i; sv = nw_server nw'; c = lk_client lk
         in lk_fd lk = Some fd \<and> lk_up lk = [] \<and> lk_down lk = []
          \<and> cl_send_buf c = [] \<and> cl_recv_buf c = [] \<and> send_of sv fd = [] \<and> recv_of sv fd = []
          \<and> sv_data sv = sv_data (server_after env i nw)
          \<and> calls_made (cl_trace c) = calls_made (cl_trace (client_after env i nw))
          \<and> cl_user_uuid c = cl_user_uuid (client_after env i nw)))"
proof -
  note course = transfers_on_course[OF assms(7,1-3)]
  then have agree: "agree (client_after env i nw') (client_after env i nw)" by blast
  have run: "cl_running (lk_client (nw_links nw' ! i))"
    using agree assms(6) respond_running by (auto simp: agree_def client_after_def)
  have gen: "good_gen (env_uuid env) (sv_ticks (nw_server nw'))" and small: "small (sv_data (nw_server nw'))"
    using good_gen_mono[OF assms(4)] small_le[OF _ assms(5)] server_after_le[of nw' env i] course by auto
  show ?thesis
  proof (intro conjI impI)
    show "n \<le> way_to_go env i nw" using course by linarith
    assume stuck: "\<nexists>nw''. transfer env i nw' nw''"
    have fd': "lk_fd (nw_links nw' ! i) = Some fd" using course by blast
    note left = transfers_exhausted[OF stuck fd'] transfers_exhausted(3)[OF stuck fd' run]
    have "network_reachable env nw'" "i < length (nw_links nw')" using course by blast+
    note idle = outcome_reached[OF this fd' gen small left(1) _ _ left(2)]
    show "let lk = nw_links nw' ! i; sv = nw_server nw'; c = lk_client lk
         in lk_fd lk = Some fd \<and> lk_up lk = [] \<and> lk_down lk = []
          \<and> cl_send_buf c = [] \<and> cl_recv_buf c = [] \<and> send_of sv fd = [] \<and> recv_of sv fd = []
          \<and> sv_data sv = sv_data (server_after env i nw)
          \<and> calls_made (cl_trace c) = calls_made (cl_trace (client_after env i nw))
          \<and> cl_user_uuid c = cl_user_uuid (client_after env i nw)"
      using fd' left idle course agree unfolding Let_def agree_def by auto
  qed
qed

text \<open>The login request that is in flight: three transfers, and the server's user is on the screen.\<close>

theorem everything_delivered_witness:
  "\<exists>nw'. (transfer sample_env 0 ^^ 3) asked nw' \<and> 3 \<le> way_to_go sample_env 0 asked
     \<and> sv_data (nw_server nw') = sv_data (server_after sample_env 0 asked)
     \<and> calls_made (cl_trace (lk_client (nw_links nw' ! 0))) = calls_made (cl_trace (client_after sample_env 0 asked))"
proof -
  obtain c where asked: "nw_links asked = [\<lparr>lk_fd = Some 4, lk_client = c, lk_up = sample_login_bytes, lk_down = []\<rparr>]"
    using asked_parts(2) by blast
  obtain c' where told: "nw_links told = [\<lparr>lk_fd = Some 4, lk_client = c', lk_up = [], lk_down = []\<rparr>]"
      "cl_send_buf c' = []" "cl_running c'"
    using told_parts(5) by blast
  have "0 < length (nw_links asked)" "lk_fd (nw_links asked ! 0) = Some 4" by (simp_all add: asked)
  note start = asked_reachable this
  note course = transfers_on_course[OF told_parts(4) start]
  have "server_after sample_env 0 told = nw_server told" "client_after sample_env 0 told = lk_client (nw_links told ! 0)"
    using outcome_reached(3,4)[OF told_reachable _ _ told_sound, of 0 4] told told_parts(3) by simp_all
  then have after: "good_gen (env_uuid sample_env) (sv_ticks (server_after sample_env 0 asked))"
      "small (sv_data (server_after sample_env 0 asked))" "cl_running (client_after sample_env 0 asked)"
    using course told_sound told(1,3) by (simp_all add: agree_def)
  have "\<nexists>nw''. transfer sample_env 0 told nw''"
    using told told_parts(3) by (auto elim!: transferE)
  then show ?thesis
    using everything_delivered[OF start after told_parts(4)] told_parts(4) unfolding Let_def by blast
qed

text \<open>C39: In every reachable state of the whole service no two users have the same name: however often and
  wherever a user logs in under a name, with the clients of this program it is the same account.\<close>

theorem names_stay_distinct:
  assumes "network_reachable env nw" and "good_gen (env_uuid env) (sv_ticks (nw_server nw))"
  shows "distinct (names (sv_data (nw_server nw)))"
  using assms(1,2)
proof (induction rule: network_reachable.induct)
  case (start sfd)
  show ?case by (simp add: network0_def server0_def server_data0_def names_def)
next
  case (step nw nw')
  have "distinct (names (sv_data (nw_server nw)))"
    using step.IH good_gen_mono[OF step.prems network_step_le(2)[OF step.hyps]] by blast
  then show ?case using names_step[OF step.hyps step.prems] by blast
qed

theorem names_stay_distinct_witness: "distinct (names (sv_data (nw_server told)))"
  by (rule names_stay_distinct[OF told_reachable told_sound(1)])

text \<open>C6: When nothing is in flight and nothing waits to be written, both sides have understood everything: the server
  holds no received byte it has not dispatched and the client none it has not shown.\<close>

theorem idle_means_done:
  assumes "network_reachable env nw" and "good_gen (env_uuid env) (sv_ticks (nw_server nw))"
    and "small (sv_data (nw_server nw))" and "lk \<in> set (nw_links nw)" and "lk_fd lk = Some fd"
    and "lk_up lk = []" and "lk_down lk = []" and "cl_send_buf (lk_client lk) = []" and "send_of (nw_server nw) fd = []"
  shows "recv_of (nw_server nw) fd = [] \<and> cl_recv_buf (lk_client lk) = []"
proof
  show "recv_of (nw_server nw) fd = []" by (rule idle_received[OF assms(1,4,5,6,8)])
  have "link_sound (nw_server nw) lk" using network_sound[OF assms(1-3)] assms(4) by (simp add: links_sound_def)
  then show "cl_recv_buf (lk_client lk) = []"
    using cl_whole[OF _ assms(3)] assms(5-9) by (auto simp: link_sound_def downstream_def)
qed

theorem idle_means_done_witness:
  "recv_of (nw_server told) 4 = [] \<and> map (cl_recv_buf \<circ> lk_client) (nw_links told) = [[]]"
proof -
  obtain c where l: "nw_links told = [\<lparr>lk_fd = Some 4, lk_client = c, lk_up = [], lk_down = []\<rparr>]" "cl_send_buf c = []"
    using told_parts(5) by blast
  then show ?thesis
    using idle_means_done[OF told_reachable told_sound, of "nw_links told ! 0" 4] told_parts(3) by simp
qed

end
