(* ===== verification/Privacy.thy ===== *)
theory Privacy
  imports Network Message_Properties
begin

text \<open>
  Who is shown private messages. A client reads the server's stream in order, and the answer to
  its login tells it who it is; the invariant of this theory says that any private message that
  follows was sent by or to that user. It is carried through the server by the contract of a
  stream (Server_Output), which here depends on the descriptor and on its session.
\<close>

declare response_code.simps [simp del] error_code.simps [simp del] event_code.simps [simp del] command_code.simps [simp del]

section \<open>Reading a stream\<close>

text \<open>Who the client takes itself for after a sequence of messages.\<close>

fun addressee :: "string \<Rightarrow> (u16 \<times> bytes) list \<Rightarrow> string" where
  "addressee u [] = u"
| "addressee u ((c, p) # ms) =
     addressee (if c = response_code RES_LOGIN_OK then read_from_start (read_fixed p 36) else u) ms"

lemma addressee_append [simp]: "addressee u (ms @ ns) = addressee (addressee u ms) ns"
  by (induction u ms rule: addressee.induct) auto

lemma respond_user: "cl_user_uuid (respond ms c) = addressee (cl_user_uuid c) ms" for c :: client
proof (induction ms arbitrary: c)
  case (Cons m ms)
  obtain k p where m: "m = (k, p)" by force
  then show ?case using Cons.IH[of "handle_response k p c"] by (simp add: handle_response_user)
qed simp

text \<open>A call that shows a private message shows one of the user's own.\<close>

fun own :: "server_data_t \<Rightarrow> string \<Rightarrow> client_call \<Rightarrow> bool" where
  "own d u (client_private_message_print_messages s ts b) = (\<exists>m \<in> set (messages d).
     s = text_of (msg_sender_uuid m) \<and> ts = msg_timestamp m \<and> b = text_of (msg_body m)
     \<and> (u = text_of (msg_sender_uuid m) \<or> u = text_of (msg_receiver_uuid m)))"
| "own d u (client_event_private_message_received s b) = (\<exists>m \<in> set (messages d).
     s = text_of (msg_sender_uuid m) \<and> b = text_of (msg_body m) \<and> u = text_of (msg_receiver_uuid m))"
| "own d u k = True"

lemma own_le: "data_le d e \<Longrightarrow> own d u k \<Longrightarrow> own e u k"
  using messages_le by (cases k) fastforce+

definition suits :: "server_data_t \<Rightarrow> string \<Rightarrow> u16 \<Rightarrow> bytes \<Rightarrow> bool" where
  "suits d u code p \<longleftrightarrow> (\<forall>c. \<forall>k \<in> set (response_calls c code p). own d u k)"

lemma suits_le: "data_le d e \<Longrightarrow> suits d u code p \<Longrightarrow> suits e u code p"
  unfolding suits_def using own_le by blast

fun discreet :: "server_data_t \<Rightarrow> string \<Rightarrow> (u16 \<times> bytes) list \<Rightarrow> bool" where
  "discreet d u [] = True"
| "discreet d u (m # ms) = (suits d u (fst m) (snd m) \<and> discreet d (addressee u [m]) ms)"

lemma discreet_append [simp]: "discreet d u (ms @ ns) \<longleftrightarrow> discreet d u ms \<and> discreet d (addressee u ms) ns"
proof (induction ms arbitrary: u)
  case (Cons m ms)
  then show ?case by (cases m) auto
qed simp

lemma discreet_le: "data_le d e \<Longrightarrow> discreet d u ms \<Longrightarrow> discreet e u ms"
  by (induction ms arbitrary: u) (auto intro: suits_le)

lemma discreet_nth:
  "discreet d u ms \<Longrightarrow> i < length ms \<Longrightarrow> suits d (addressee u (take i ms)) (fst (ms ! i)) (snd (ms ! i))"
proof (induction ms arbitrary: u i)
  case (Cons m ms)
  obtain k p where m: "m = (k, p)" by force
  show ?case using Cons.prems Cons.IH[of "addressee u [m]" "i - 1"] by (cases i) (simp_all add: m)
qed simp

section \<open>Messages that show no private message\<close>

definition plain :: "u16 \<Rightarrow> bool" where
  "plain code \<longleftrightarrow> code \<noteq> response_code RES_LOGIN_OK \<and> code \<noteq> response_code RES_MESSAGES_LIST
     \<and> code \<noteq> event_code EVT_MESSAGE_RECEIVED"

lemma plain_codes [simp]:
  "plain (response_code r) \<longleftrightarrow> r \<noteq> RES_LOGIN_OK \<and> r \<noteq> RES_MESSAGES_LIST"
  "plain (event_code e) \<longleftrightarrow> e \<noteq> EVT_MESSAGE_RECEIVED"
  "plain (error_code err)"
  by (auto simp: plain_def response_code_inj event_code_inj code_families_disjoint)

lemma suits_public:
  assumes "code \<noteq> response_code RES_MESSAGES_LIST" and "code \<noteq> event_code EVT_MESSAGE_RECEIVED"
  shows "suits d u code p"
proof -
  have one: "own d u (read_from_start r)" if "\<And>off. own d u (fst (run_state r off))" for r :: "client_call reader"
    using that by (simp add: read_from_start_def)
  have all: "\<forall>k \<in> set (read_from_start (read_list p r)). own d u k" if "\<And>off. own d u (fst (run_state r off))"
    for r :: "client_call reader" using read_list_all[of "own d u"] that by blast
  show ?thesis
    unfolding suits_def using assms
    by (auto simp: response_calls_def Let_def reader_defs reader_simps split: if_splits prod.splits
        intro!: one dest!: bspec[OF all, rotated])
qed

section \<open>Most commands answer with plain messages\<close>

definition hush :: verdict where
  [simp]: "hush d code p \<longleftrightarrow> plain code"

lemma hush_fail [simp, intro]: "says hush (out_data (fail e p d)) (out_result (fail e p d))"
  by auto

lemma hush_simple:
  "says hush d' (out_result (handle_logout fd d))"
  "says hush d' (out_result (handle_users fd d))"
  "says hush d' (out_result (handle_user fd u d))"
  "says hush d' (out_result (handle_subscribed_teams fd d))"
  "says hush d' (out_result (handle_subscribed_users fd u d))"
  "says hush d' (out_result (handle_subscribe fd u d))"
  "says hush d' (out_result (handle_unsubscribe fd u d))"
  by (auto simp: handle_logout_def handle_users_def handle_user_def handle_subscribed_teams_def
      handle_subscribed_users_def handle_subscribe_def handle_unsubscribe_def Let_def split: option.split intro!: says_add_push says_ok)

lemma hush_places:
  "says hush d' (out_result (handle_use fd p d))"
  "says hush d' (out_result (handle_list fd d))"
  "says hush d' (out_result (handle_info fd d))"
  by (auto simp: handle_use_def use_none_def use_team_def use_channel_def use_thread_def handle_list_def
      handle_info_def Let_def split: option.split list.split intro!: says_ok)

lemma hush_create: "says hush d' (out_result (handle_create fresh now fd p d))"
proof -
  have "says hush d' (out_result (create_team fresh user p d))" for user
    by (rule create_team_cases[of fresh user p d]) (auto intro!: says_add_push says_ok)
  moreover have "says hush d' (out_result (create_channel fresh user ctx p d))" for user ctx
    by (rule create_channel_cases[of fresh user ctx p d]) (auto intro!: says_add_push says_ok)
  moreover have "says hush d' (out_result (create_thread fresh now user ctx p d))" for user ctx
    by (rule create_thread_cases[of fresh now user ctx p d]) (auto intro!: says_add_push says_ok)
  moreover have "says hush d' (out_result (create_reply fresh now user ctx p d))" for user ctx
    by (rule create_reply_cases[of fresh now user ctx p d]) (auto intro!: says_add_push says_ok)
  ultimately show ?thesis by (auto simp: handle_create_def split: option.split)
qed

lemma hush_run_command:
  assumes "cmd \<noteq> CMD_LOGIN" and "cmd \<noteq> CMD_SEND" and "cmd \<noteq> CMD_MESSAGES"
  shows "says hush d' (out_result (run_command cmd fresh now fd p d))"
  using assms unfolding run_command_def
  by (cases cmd) (simp_all add: hush_simple hush_places hush_create)

text \<open>They open no session either.\<close>

lemma sessions_run_command:
  assumes "wf_data d" and "cmd \<noteq> CMD_LOGIN"
  shows "omap_find (sessions (out_data (run_command cmd fresh now fd p d))) t \<in> {None, omap_find (sessions d) t}"
proof -
  have "omap_wf (sessions d)" using assms(1) by auto
  then show ?thesis
    using assms(2) unfolding run_command_def
    by (cases cmd) (auto simp: frame_simps handle_logout_def Let_def omap_find_erase split: option.split)
qed

section \<open>The contract\<close>

text \<open>The stream \<open>xs\<close> of the connection \<open>t\<close> is discreet, and tells its reader the session of \<open>t\<close>.\<close>

definition confided :: "server_data_t \<Rightarrow> int \<Rightarrow> bytes \<Rightarrow> bool" where
  "confided d t xs \<longleftrightarrow> (\<exists>ms. xs = concat (map (\<lambda>(c, p). make_message c p) ms) \<and> discreet d [] ms
     \<and> (\<forall>s. omap_find (sessions d) t = Some s \<longrightarrow> addressee [] ms = string_of s))"

lemma confided_more:
  assumes "confided d t xs" and "data_le d e" and "new = concat (map (\<lambda>(c, p). make_message c p) ns)"
    and "\<And>u. (\<forall>s. omap_find (sessions d) t = Some s \<longrightarrow> u = string_of s) \<Longrightarrow> discreet e u ns"
    and "\<And>u s. (\<forall>s. omap_find (sessions d) t = Some s \<longrightarrow> u = string_of s) \<Longrightarrow>
      omap_find (sessions e) t = Some s \<Longrightarrow> addressee u ns = string_of s"
  shows "confided e t (xs @ new)"
proof -
  obtain ms where ms: "xs = concat (map (\<lambda>(c, p). make_message c p) ms)" "discreet d [] ms"
    "\<forall>s. omap_find (sessions d) t = Some s \<longrightarrow> addressee [] ms = string_of s"
    using assms(1) by (auto simp: confided_def)
  then show ?thesis
    unfolding confided_def using assms(3) assms(4,5)[of "addressee [] ms"] discreet_le[OF assms(2)]
    by (intro exI[of _ "ms @ ns"]) auto
qed

lemma confided_hush:
  assumes "confided d t xs" and "data_le d e" and "said hush e new"
    and "omap_find (sessions e) t \<in> {None, omap_find (sessions d) t}"
  shows "confided e t (xs @ new)"
proof -
  obtain ns where ns: "new = concat (map (\<lambda>(c, p). make_message c p) ns)" "\<forall>(c, p) \<in> set ns. plain c"
    using assms(3) by (auto simp: said_def)
  have "discreet e u ns \<and> addressee u ns = u" for u
    using ns(2) by (induction ns) (auto simp: plain_def suits_public)
  then show ?thesis using assms(4) by (intro confided_more[OF assms(1,2) ns(1)]) auto
qed

section \<open>Every command keeps it\<close>

abbreviation keeps :: "server_data_t \<Rightarrow> int \<Rightarrow> int \<Rightarrow> bytes \<Rightarrow> outcome \<Rightarrow> bool" where
  "keeps d fd t xs r \<equiv> confided (out_data r) t (xs @ delivered fd (out_result r) t)"

lemma keeps_fail: "confided d t xs \<Longrightarrow> keeps d fd t xs (fail e p d)"
  using confided_hush[OF _ data_le_refl said_delivered(1)[OF hush_fail]] by simp

lemma keeps_login:
  assumes "wf_data d" and "fresh_uuid fresh d" and "confided d t xs"
  shows "keeps d fd t xs (handle_login fresh fd name d)"
proof -
  obtain d1 i logs where l: "login_user fresh fd (trim_padded_name name) d = (d1, i, logs)"
    by (metis prod_cases3)
  let ?r = "handle_login fresh fd name d" and ?d = "login_session fd i d1"
  let ?u = "users ?d ! i"
  have i: "i < length (users ?d)" using login_user_frame(5)[OF l] by simp
  have out: "out_data ?r = ?d" by (simp add: handle_login_def l Let_def)
  note le = handle_login_le[of d fresh fd name, unfolded out]
  have u: "wf_user ?u" using wf_handle_login[OF assms(1,2), of fd name] i unfolding out by (rule wf_user_nth)
  have s: "omap_find (sessions ?d) t = (if t = fd then Some (cstr (user_uuid ?u)) else omap_find (sessions d) t)"
    using assms(1) login_user_frame[OF l] i by (auto simp: login_session_def omap_find_set)
  show ?thesis
  proof (cases "t = fd")
    case True
    have "delivered fd (out_result ?r) t = make_message (response_code RES_LOGIN_OK) (name_entry ?u)"
      by (simp add: True delivered_def handle_login_def l Let_def login_payload_entry)
    moreover have "suits ?d v (response_code RES_LOGIN_OK) (name_entry ?u)" for v by (rule suits_public) simp_all
    moreover have "read_from_start (read_fixed (name_entry ?u) 36) = string_of (cstr (user_uuid ?u))"
      using u by (simp add: read_from_start_def reader_simps name_entry_def wf_user_def valid_uuid_length valid_uuid37_cstr cstr_take)
    ultimately show ?thesis
      unfolding out using s True
      by (intro confided_more[OF assms(3) le, where ns = "[(response_code RES_LOGIN_OK, name_entry ?u)]"]) simp_all
  next
    case False
    have "said hush ?d (all_copies fd (res_pushes (out_result ?r)) t)"
      by (auto simp: handle_login_def l Let_def all_copies_def copies_def intro!: said_concat said_message)
    then show ?thesis
      unfolding out using s False by (intro confided_hush[OF assms(3) le]) (auto simp: delivered_def)
  qed
qed

lemma keeps_send:
  assumes "wf_data d" and "confided d t xs"
  shows "keeps d fd t xs (handle_send now fd r body d)"
proof (rule handle_send_cases[of now fd r body d])
  fix e p
  assume "handle_send now fd r body d = fail e p d"
  then show ?thesis using keeps_fail[OF assms(2)] by simp
next
  fix s i
  assume a: "omap_find (sessions d) fd = Some s" "find_user_by_uuid d r = Some i"
    and out: "out_data (handle_send now fd r body d) = d\<lparr>messages := messages d @ [make_private_message s r body now]\<rparr>"
  let ?r = "handle_send now fd r body d" and ?m = "make_private_message s r body now"
  let ?d = "d\<lparr>messages := messages d @ [?m]\<rparr>"
  note le = handle_send_le[of d now fd r body, unfolded out]
  have wf: "wf_message (user_ids ?d) ?m"
    using wf_handle_send[OF assms(1), of now fd r body] unfolding out by (auto simp: wf_data_def wf_messages_def)
  have "r \<in> user_ids d" using find_user_by_uuid_total[OF assms(1)] a(2) by auto
  then have len: "length s = 36" "length r = 36" "0 \<notin> set r"
    using wf_session_uuid(1)[OF assms(1) a(1)] user_ids_valid[OF assms(1)] by (auto simp: valid_uuid36_def)
  show ?thesis
  proof (cases "t = fd")
    case True
    then have "said hush ?d (delivered fd (out_result ?r) t)"
      using handle_send_sent(3)[OF a, of now body] by (auto simp: delivered_def intro!: said_message)
    then show ?thesis unfolding out by (intro confided_hush[OF assms(2) le]) auto
  next
    case False
    note new = send_delivered[OF assms(1) a False, of now body]
    show ?thesis
    proof (cases "omap_find (sessions d) t = Some r")
      case True
      have "response_calls c (event_code EVT_MESSAGE_RECEIVED) (s @ msg_body ?m)
          = [client_event_private_message_received (text_of (msg_sender_uuid ?m)) (text_of (msg_body ?m))]" for c
        using private_event_calls[OF wf, of c] len by simp
      moreover have "text_of (msg_receiver_uuid ?m) = string_of r" using len by (simp add: cstr_append_nul)
      ultimately have "suits ?d (string_of r) (event_code EVT_MESSAGE_RECEIVED) (s @ msg_body ?m)"
        by (simp add: suits_def)
      then show ?thesis
        unfolding out using True new
        by (intro confided_more[OF assms(2) le, where ns = "[(event_code EVT_MESSAGE_RECEIVED, s @ msg_body ?m)]"])
          (simp_all add: make_private_message_body)
    next
      case False
      then show ?thesis unfolding out new by (intro confided_hush[OF assms(2) le]) auto
    qed
  qed
qed

lemma keeps_messages:
  assumes "wf_data d" and "confided d t xs"
  shows "keeps d fd t xs (handle_messages fd r d)"
proof (cases "omap_find (sessions d) fd = None \<or> find_user_by_uuid d r = None \<or> t \<noteq> fd")
  case True
  have "said hush d (delivered fd (out_result (handle_messages fd r d)) t)"
    using True by (auto simp: handle_messages_def delivered_def all_copies_def Let_def intro!: said_message split: option.split)
  then show ?thesis unfolding handle_messages_data by (intro confided_hush[OF assms(2) data_le_refl]) auto
next
  case False
  then obtain s i where a: "omap_find (sessions d) fd = Some s" "find_user_by_uuid d r = Some i" "t = fd" by auto
  let ?ms = "filter (between s r) (messages d)"
  have wf: "wf_message (user_ids d) m" if "m \<in> set (messages d)" for m using assms(1) that by (simp add: wf_data_def wf_messages_def)
  have "string_of s \<in> {text_of (msg_sender_uuid m), text_of (msg_receiver_uuid m)}" if "m \<in> set ?ms" for m
    using that wf[of m] by (auto simp: between_def wf_message_def valid_uuid37_cstr Let_def)
  then have "suits d (string_of s) (response_code RES_MESSAGES_LIST) (counted (map message_entry ?ms))"
    using private_list_calls[of ?ms "user_ids d"] wf unfolding suits_def by fastforce
  then show ?thesis
    unfolding handle_messages_data using a
    by (intro confided_more[OF assms(2) data_le_refl,
          where ns = "[(response_code RES_MESSAGES_LIST, counted (map message_entry ?ms))]"])
      (simp_all add: handle_messages_eq[OF a(1,2)] delivered_def counted_def Let_def)
qed

lemma keeps_run_command:
  assumes "wf_data d" and "fresh_uuid fresh d" and "confided d t xs"
  shows "keeps d fd t xs (run_command cmd fresh now fd p d)"
proof -
  consider (login) "cmd = CMD_LOGIN" | (send) "cmd = CMD_SEND" | (messages) "cmd = CMD_MESSAGES"
    | (other) "cmd \<noteq> CMD_LOGIN" "cmd \<noteq> CMD_SEND" "cmd \<noteq> CMD_MESSAGES" by blast
  then show ?thesis
  proof cases
    case login
    then show ?thesis using keeps_login[OF assms] by (simp add: run_command_def)
  next
    case send
    then show ?thesis using keeps_send[OF assms(1,3)] by (simp add: run_command_def)
  next
    case messages
    then show ?thesis using keeps_messages[OF assms(1,3)] by (simp add: run_command_def)
  next
    case other
    show ?thesis
      by (rule confided_hush[OF assms(3) run_command_le said_delivered(1)[OF hush_run_command[OF other]]
            sessions_run_command[OF assms(1) other(1)]])
  qed
qed

lemma keeps_parting:
  assumes "wf_data d" and "confided d t xs"
  shows "confided (out_data (handle_logout fd d)) t (xs @ all_copies fd (res_pushes (out_result (handle_logout fd d))) t)"
  using confided_hush[OF assms(2) handle_logout_le said_delivered(2)[OF hush_simple(1)]]
    sessions_run_command[OF assms(1), of CMD_LOGOUT] by (simp add: run_command_def)

interpretation confided: stream_contract gen "data_ok gen" "\<lambda>d t xs. good_gen gen N \<longrightarrow> confided d t xs" N for gen N
proof (unfold_locales, goal_cases)
  case (1 err d t xs fd)
  then show ?case using keeps_fail[where d = d and t = t and xs = xs and fd = fd and e = err] by simp
next
  case (2 k d t xs cmd now fd p)
  then have "wf_data d \<and> fresh_uuid (gen k) d" if "good_gen gen N"
    using data_ok_fresh good_gen_mono[of gen N "Suc k"] that by auto
  then show ?case using keeps_run_command 2(3) by blast
next
  case (3 k d t fd xs)
  then have "wf_data d" if "good_gen gen N" using good_gen_mono[of gen N k] that by (auto simp: data_ok_def)
  then show ?case using keeps_parting 3(4) by blast
qed

lemma stream_confided:
  assumes "reachable env sv" and "good_gen (env_uuid env) (sv_ticks sv)" and "connected sv t"
  shows "confided (sv_data sv) t (sv_sent sv t)"
proof -
  have "confided d t []" if "omap_find (sessions d) t = None" for d t
    unfolding confided_def by (rule exI[of _ "[]"]) (simp add: that)
  then show ?thesis
    using confided.fine_reachable[OF refl data_ok0 assms(1) _ assms(3) le_refl] assms(2) by blast
qed

section \<open>Property\<close>

text \<open>C7: Private messages stay private: a client that reads the bytes a reachable server has sent on a
  connection, in order and from the start, is shown at each point only private messages that were sent
  by or to the user it has last been logged in as on that connection, and is told of the arrival only of
  messages to that user; each is stored by the server with this sender, time and text.\<close>

theorem private_messages_confidential:
  assumes "reachable env sv" and "good_gen (env_uuid env) (sv_ticks sv)" and "connected sv t"
  shows "\<exists>ms. sv_sent sv t = concat (map (\<lambda>(c, p). make_message c p) ms)
    \<and> (\<forall>i < length ms. let c = respond (take i ms) client0
         in \<forall>k \<in> set (response_calls c (fst (ms ! i)) (snd (ms ! i))). own (sv_data sv) (cl_user_uuid c) k)
    \<and> (case omap_find (sessions (sv_data sv)) t of None \<Rightarrow> True
       | Some s \<Rightarrow> cl_user_uuid (respond ms client0) = string_of s)"
proof -
  have u0: "cl_user_uuid client0 = []" by (simp add: client0_def)
  obtain ms where ms: "sv_sent sv t = concat (map (\<lambda>(c, p). make_message c p) ms)" "discreet (sv_data sv) [] ms"
    "\<forall>s. omap_find (sessions (sv_data sv)) t = Some s \<longrightarrow> addressee [] ms = string_of s"
    using stream_confided[OF assms] by (auto simp: confided_def)
  have "\<forall>k \<in> set (response_calls c (fst (ms ! i)) (snd (ms ! i))). own (sv_data sv) (addressee [] (take i ms)) k"
    if "i < length ms" for c i
    using discreet_nth[OF ms(2) that] by (simp add: suits_def)
  then show ?thesis
    using ms(1,3) by (intro exI[of _ ms]) (auto simp: respond_user u0 Let_def split: option.split)
qed

theorem private_messages_confidential_witness:
  "\<exists>ms. sv_sent sample_run 4 = concat (map (\<lambda>(c, p). make_message c p) ms)
    \<and> cl_user_uuid (respond ms client0) = string_of (cstr (sample_uuid 0))"
  using private_messages_confidential[OF sample_run_reachable, of 4] good_gen_mono[OF sample_gen, of 1] by auto

end
