(* ===== verification/Blind.thy ===== *)
theory Blind
  imports Business
begin

text \<open>
  Handlers that do not look at the log of private messages: given another log they do the same.
\<close>

section \<open>Lookups\<close>

fun relog :: "message_t list \<Rightarrow> outcome \<Rightarrow> outcome" where
  "relog ms (res, logs, d) = (res, logs, d\<lparr>messages := ms\<rparr>)"

lemma relog_sel [simp]:
  "out_result (relog ms r) = out_result r" "out_logs (relog ms r) = out_logs r"
  "out_data (relog ms r) = out_data r\<lparr>messages := ms\<rparr>"
  by (cases r; simp)+

named_theorems blind \<open>what does not depend on the log of private messages\<close>

lemma blind_lookups [blind]:
  fixes d :: server_data_t
  shows "find_user_by_name (d\<lparr>messages := ms\<rparr>) = find_user_by_name d"
    "is_logged_in (d\<lparr>messages := ms\<rparr>) = is_logged_in d"
    "is_user_online (d\<lparr>messages := ms\<rparr>) = is_user_online d"
    "find_user_by_uuid (d\<lparr>messages := ms\<rparr>) = find_user_by_uuid d"
    "find_team_by_uuid (d\<lparr>messages := ms\<rparr>) = find_team_by_uuid d"
    "logged_fds (d\<lparr>messages := ms\<rparr>) = logged_fds d"
    "team_member_fds (d\<lparr>messages := ms\<rparr>) = team_member_fds d"
    "still_online fd u (d\<lparr>messages := ms\<rparr>) = still_online fd u d"
    "append_user (d\<lparr>messages := ms\<rparr>) = append_user d"
    "list_team_items (d\<lparr>messages := ms\<rparr>) = list_team_items d"
  by (auto simp: find_user_by_name_def is_logged_in_def is_user_online_def find_user_by_uuid_def find_team_by_uuid_def
      logged_fds_def team_member_fds_def still_online_def append_user_def list_team_items_def fun_eq_iff)

lemma blind_blocks [blind]:
  fixes d :: server_data_t
  shows "logout_payload (d\<lparr>messages := ms\<rparr>) = logout_payload d"
    "subscribed_users (d\<lparr>messages := ms\<rparr>) = subscribed_users d"
    "user_details (d\<lparr>messages := ms\<rparr>) = user_details d"
  by (simp_all add: logout_payload_def subscribed_users_def user_details_def blind fun_eq_iff split: option.split)

lemma blind_updates [blind]:
  fixes d :: server_data_t
  shows "fail e p (d\<lparr>messages := ms\<rparr>) = relog ms (fail e p d)"
    "login_session fd i (d\<lparr>messages := ms\<rparr>) = login_session fd i d\<lparr>messages := ms\<rparr>"
    "logout_session fd u (d\<lparr>messages := ms\<rparr>) = logout_session fd u d\<lparr>messages := ms\<rparr>"
    "set_members i us (d\<lparr>messages := ms\<rparr>) = set_members i us d\<lparr>messages := ms\<rparr>"
    "set_context fd c (d\<lparr>messages := ms\<rparr>) = set_context fd c d\<lparr>messages := ms\<rparr>"
    "upd_team ti f (d\<lparr>messages := ms\<rparr>) = upd_team ti f d\<lparr>messages := ms\<rparr>"
  by (simp_all add: fail_def login_session_def logout_session_def still_online_def set_members_def set_context_def
      upd_team_def Let_def split: option.split)

section \<open>Handlers\<close>

lemma blind_login: "handle_login fresh fd name (d\<lparr>messages := ms\<rparr>) = relog ms (handle_login fresh fd name d)"
proof -
  obtain d1 i logs where l: "login_user fresh fd (trim_padded_name name) d = (d1, i, logs)"
    by (metis prod_cases3)
  then have "login_user fresh fd (trim_padded_name name) (d\<lparr>messages := ms\<rparr>) = (d1\<lparr>messages := ms\<rparr>, i, logs)"
    by (auto simp: login_user_def blind Let_def split: option.splits)
  with l show ?thesis by (simp add: handle_login_def blind Let_def)
qed

lemma blind_simple:
  fixes d :: server_data_t
  shows "handle_logout fd (d\<lparr>messages := ms\<rparr>) = relog ms (handle_logout fd d)"
    "handle_users fd (d\<lparr>messages := ms\<rparr>) = relog ms (handle_users fd d)"
    "handle_user fd u (d\<lparr>messages := ms\<rparr>) = relog ms (handle_user fd u d)"
    "handle_subscribe fd u (d\<lparr>messages := ms\<rparr>) = relog ms (handle_subscribe fd u d)"
    "handle_unsubscribe fd u (d\<lparr>messages := ms\<rparr>) = relog ms (handle_unsubscribe fd u d)"
    "handle_subscribed_teams fd (d\<lparr>messages := ms\<rparr>) = relog ms (handle_subscribed_teams fd d)"
    "handle_subscribed_users fd u (d\<lparr>messages := ms\<rparr>) = relog ms (handle_subscribed_users fd u d)"
  by (simp_all add: handle_logout_def handle_users_def handle_user_def handle_subscribe_def handle_unsubscribe_def
      handle_subscribed_teams_def handle_subscribed_users_def blind Let_def split: option.split)

lemma blind_use: "handle_use fd p (d\<lparr>messages := ms\<rparr>) = relog ms (handle_use fd p d)"
  by (simp add: handle_use_def use_none_def use_team_def use_channel_def use_thread_def blind Let_def
      split: option.split list.split)

lemma blind_list: "handle_list fd (d\<lparr>messages := ms\<rparr>) = relog ms (handle_list fd d)"
  by (simp add: handle_list_def blind Let_def split: option.split)

lemma blind_info: "handle_info fd (d\<lparr>messages := ms\<rparr>) = relog ms (handle_info fd d)"
  by (simp add: handle_info_def blind Let_def split: option.split)

lemma blind_create: "handle_create fresh now fd p (d\<lparr>messages := ms\<rparr>) = relog ms (handle_create fresh now fd p d)"
proof -
  have "create_team fresh user p (d\<lparr>messages := ms\<rparr>) = relog ms (create_team fresh user p d)" for user
    by (simp add: create_team_def blind logged_fds_def Let_def)
  moreover have "create_channel fresh user ctx p (d\<lparr>messages := ms\<rparr>) = relog ms (create_channel fresh user ctx p d)" for user ctx
    by (simp add: create_channel_def blind Let_def split: option.split)
  moreover have "create_thread fresh now user ctx p (d\<lparr>messages := ms\<rparr>) = relog ms (create_thread fresh now user ctx p d)"
    for user ctx by (simp add: create_thread_def blind Let_def split: option.split)
  moreover have "create_reply fresh now user ctx p (d\<lparr>messages := ms\<rparr>) = relog ms (create_reply fresh now user ctx p d)"
    for user ctx by (simp add: create_reply_def blind Let_def split: option.split)
  ultimately show ?thesis by (simp add: handle_create_def blind split: option.split)
qed

lemma blind_run_command:
  assumes "cmd \<noteq> CMD_SEND" and "cmd \<noteq> CMD_MESSAGES"
  shows "run_command cmd fresh now fd p (d\<lparr>messages := ms\<rparr>) = relog ms (run_command cmd fresh now fd p d)"
  using assms unfolding run_command_def
  by (cases cmd) (simp_all add: blind_login blind_simple blind_use blind_list blind_info blind_create)

end
