(* ===== verification/Secrecy.thy ===== *)
theory Secrecy
  imports Blind Message_Properties
begin

text \<open>
  Private messages as a secret: what a connection receives does not depend on the private messages
  that others exchange. Two runs of the server that differ only in those are compared step by step;
  the data of the two agree up to these messages.
\<close>

declare response_code.simps [simp del] error_code.simps [simp del] event_code.simps [simp del] command_code.simps [simp del]

section \<open>Data that a group of users cannot tell apart\<close>

definition party :: "bytes list \<Rightarrow> message_t \<Rightarrow> bool" where
  "party U m \<longleftrightarrow> take 36 (msg_sender_uuid m) \<in> set U \<or> take 36 (msg_receiver_uuid m) \<in> set U"

definition alike :: "bytes list \<Rightarrow> server_data_t \<Rightarrow> server_data_t \<Rightarrow> bool" where
  "alike U d e \<longleftrightarrow> e = d\<lparr>messages := messages e\<rparr> \<and> filter (party U) (messages e) = filter (party U) (messages d)"

text \<open>Whoever is logged in on the connection belongs to the group.\<close>

definition watched :: "bytes list \<Rightarrow> int \<Rightarrow> server_data_t \<Rightarrow> bool" where
  "watched U t d \<longleftrightarrow> (case omap_find (sessions d) t of None \<Rightarrow> True | Some u \<Rightarrow> u \<in> set U)"

lemma alikeE:
  assumes "alike U d e"
  obtains ms where "e = d\<lparr>messages := ms\<rparr>" and "filter (party U) ms = filter (party U) (messages d)"
  using assms unfolding alike_def by blast

lemma alikeI: "filter (party U) ms = filter (party U) (messages d) \<Longrightarrow> alike U d (d\<lparr>messages := ms\<rparr>)"
  by (simp add: alike_def)

lemma alike_refl [simp]: "alike U d d"
  by (simp add: alike_def)

lemma alike_sel: "alike U d e \<Longrightarrow> sessions e = sessions d \<and> users e = users d"
  by (elim alikeE) simp

text \<open>A conversation of a member of the group is in the part they see.\<close>

lemma filter_between:
  assumes "s \<in> set U" and "filter (party U) ms = filter (party U) ns"
  shows "filter (between s r) ms = filter (between s r) ns"
proof -
  have "filter (between s r) xs = filter (between s r) (filter (party U) xs)" for xs
    unfolding filter_filter using assms(1) by (intro filter_cong) (auto simp: between_def party_def Let_def)
  then show ?thesis using assms(2) by metis
qed

section \<open>The same command in both runs\<close>

lemma alike_send:
  assumes "alike U d e"
  shows "alike U (out_data (handle_send now fd r b d)) (out_data (handle_send now fd r b e))
    \<and> out_result (handle_send now fd r b e) = out_result (handle_send now fd r b d)"
  using assms by (elim alikeE) (auto simp: handle_send_def blind alike_def Let_def split: option.split)

lemma alike_messages:
  assumes "alike U d e" and "watched U t d"
  shows "alike U (out_data (handle_messages fd r d)) (out_data (handle_messages fd r e))
    \<and> delivered fd (out_result (handle_messages fd r e)) t = delivered fd (out_result (handle_messages fd r d)) t"
proof -
  have data: "out_data (handle_messages fd r x) = x" for x by (rule handle_messages_data)
  obtain ms where e: "e = d\<lparr>messages := ms\<rparr>" and ms: "filter (party U) ms = filter (party U) (messages d)"
    using assms(1) by (elim alikeE)
  have push: "res_pushes (out_result (handle_messages fd r x)) = []" for x
    by (simp add: handle_messages_def Let_def split: option.split)
  have "out_result (handle_messages t r e) = out_result (handle_messages t r d)"
  proof (cases "omap_find (sessions d) t")
    case (Some s)
    then have "s \<in> set U" using assms(2) by (simp add: watched_def)
    then show ?thesis using Some by (simp add: handle_messages_def e blind filter_between[OF _ ms] Let_def split: option.split)
  qed (simp add: handle_messages_def e)
  then show ?thesis
    unfolding data using assms(1) by (auto simp: delivered_def push all_copies_def)
qed

lemma alike_run_command:
  fixes cmd :: command and fresh p :: bytes and now :: u64 and fd :: int
  assumes "alike U d e" and "watched U t d"
  defines "r \<equiv> run_command cmd fresh now fd p d" and "r' \<equiv> run_command cmd fresh now fd p e"
  shows "alike U (out_data r) (out_data r') \<and> delivered fd (out_result r') t = delivered fd (out_result r) t"
proof -
  consider "cmd = CMD_SEND" | "cmd = CMD_MESSAGES" | "cmd \<noteq> CMD_SEND" "cmd \<noteq> CMD_MESSAGES" by blast
  then show ?thesis
  proof cases
    case 1
    then show ?thesis using alike_send[OF assms(1)] by (simp add: r_def r'_def run_command_def)
  next
    case 2
    then show ?thesis using alike_messages[OF assms(1,2)] by (simp add: r_def r'_def run_command_def)
  next
    case 3
    obtain ms where e: "e = d\<lparr>messages := ms\<rparr>" and ms: "filter (party U) ms = filter (party U) (messages d)"
      using assms(1) by (elim alikeE)
    have "messages (out_data r) = messages d"
      unfolding r_def using arg_cong[OF blind_run_command[OF 3, where d = d and ms = "messages d" and fresh = fresh and now = now and fd = fd and p = p], of "messages \<circ> out_data"]
      by simp
    then show ?thesis
      using ms unfolding r_def r'_def e blind_run_command[OF 3] by (auto intro: alikeI)
  qed
qed

section \<open>A message among others\<close>

lemma third_party_send:
  assumes "wf_data d" and "watched U t d" and "omap_find (sessions d) fd = Some s" and "s \<notin> set U" and "r \<notin> set U"
  shows "alike U d (out_data (handle_send now fd r b d))" and "delivered fd (out_result (handle_send now fd r b d)) t = []"
proof -
  have t: "t \<noteq> fd" and not_r: "omap_find (sessions d) t \<noteq> Some r"
    using assms(2-5) by (auto simp: watched_def)
  have "alike U d (out_data (handle_send now fd r b d)) \<and> delivered fd (out_result (handle_send now fd r b d)) t = []"
  proof (rule handle_send_cases[of now fd r b d])
    fix e p
    assume "handle_send now fd r b d = fail e p d"
    then show ?thesis using t by (simp add: delivered_def all_copies_def)
  next
    fix s' i
    assume i: "find_user_by_uuid d r = Some i"
      and out: "omap_find (sessions d) fd = Some s'" "out_data (handle_send now fd r b d)
        = d\<lparr>messages := messages d @ [make_private_message s' r b now]\<rparr>"
    have len: "length s = 36" "length r = 36"
      using wf_session_uuid(1)[OF assms(1,3)] find_user_by_uuidD(3)[OF i] by (simp_all add: valid_uuid36_def)
    then have "\<not> party U (make_private_message s r b now)" using assms(4,5) by (simp add: party_def)
    then have "alike U d (out_data (handle_send now fd r b d))"
      unfolding out(2) using out(1) assms(3) by (intro alikeI) simp
    then show ?thesis using send_delivered[OF assms(1,3) i t] not_r by simp
  qed
  then show "alike U d (out_data (handle_send now fd r b d))" "delivered fd (out_result (handle_send now fd r b d)) t = []"
    by simp_all
qed

lemma alike_sym: "alike U d e \<Longrightarrow> alike U e d"
  by (elim alikeE) (simp add: alike_def)

lemma alike_trans: "alike U c d \<Longrightarrow> alike U d e \<Longrightarrow> alike U c e"
  by (elim alikeE) (auto intro: alikeI)


section \<open>Two runs\<close>

type_synonym request = "int \<times> u16 \<times> bytes"

text \<open>The frames of all connections, in the order in which the server dispatches them.\<close>

fun dispatches :: "env \<Rightarrow> request list \<Rightarrow> server \<Rightarrow> server" where
  "dispatches env [] sv = sv"
| "dispatches env ((fd, c, p) # rs) sv = dispatches env rs (dispatch env fd c p sv)"

text \<open>
  Two sequences of requests, the first on the server \<open>sv\<close>, that differ only in private messages
  from a user outside the group to a user outside it: another text, another receiver.
\<close>

inductive varied :: "env \<Rightarrow> bytes list \<Rightarrow> int \<Rightarrow> server \<Rightarrow> request list \<Rightarrow> request list \<Rightarrow> bool" for env U t where
  none: "varied env U t sv [] []"
| same: "watched U t (sv_data sv) \<Longrightarrow> varied env U t (dispatch env fd c p sv) rs rs' \<Longrightarrow>
    varied env U t sv ((fd, c, p) # rs) ((fd, c, p) # rs')"
| other: "watched U t (sv_data sv) \<Longrightarrow> omap_find (sessions (sv_data sv)) fd = Some s \<Longrightarrow> s \<notin> set U \<Longrightarrow>
    extract_sv p 0 36 \<notin> set U \<Longrightarrow> extract_sv p' 0 36 \<notin> set U \<Longrightarrow>
    varied env U t (dispatch env fd (command_code CMD_SEND) p sv) rs rs' \<Longrightarrow>
    varied env U t sv ((fd, command_code CMD_SEND, p) # rs) ((fd, command_code CMD_SEND, p') # rs')"

text \<open>Two servers that \<open>t\<close> cannot tell apart.\<close>

definition same_to :: "bytes list \<Rightarrow> int \<Rightarrow> server \<Rightarrow> server \<Rightarrow> bool" where
  "same_to U t sv sw \<longleftrightarrow> alike U (sv_data sv) (sv_data sw) \<and> sv_ticks sw = sv_ticks sv
     \<and> connected sv t \<and> connected sw t \<and> send_of sw t = send_of sv t"

lemma same_to_dispatch:
  assumes "same_to U t sv sw"
    and "alike U (out_data (dispatch_result env fd c p sv)) (out_data (dispatch_result env fd c q sw))"
    and "delivered fd (out_result (dispatch_result env fd c q sw)) t = delivered fd (out_result (dispatch_result env fd c p sv)) t"
  shows "same_to U t (dispatch env fd c p sv) (dispatch env fd c q sw)"
  using assms alike_sel[of U "sv_data sv" "sv_data sw"]
  by (simp add: same_to_def dispatch_send_of dispatch_ticks_def)

lemma same_to_command:
  assumes "same_to U t sv sw" and "watched U t (sv_data sv)"
  shows "same_to U t (dispatch env fd c p sv) (dispatch env fd c p sw)"
proof -
  have a: "alike U (sv_data sv) (sv_data sw)" "sv_ticks sw = sv_ticks sv" using assms(1) by (simp_all add: same_to_def)
  note s = alike_sel[OF a(1)]
  have "alike U (out_data (dispatch_result env fd c p sv)) (out_data (dispatch_result env fd c p sw))
      \<and> delivered fd (out_result (dispatch_result env fd c p sw)) t = delivered fd (out_result (dispatch_result env fd c p sv)) t"
    using alike_run_command[OF a(1) assms(2)] a s by (auto simp: dispatch_result_def split: option.split)
  then show ?thesis using same_to_dispatch[OF assms(1)] by blast
qed

lemma same_to_other:
  assumes "same_to U t sv sw" and "watched U t (sv_data sv)" and "wf_data (sv_data sv)" and "wf_data (sv_data sw)"
    and "omap_find (sessions (sv_data sv)) fd = Some s" and "s \<notin> set U"
    and "extract_sv p 0 36 \<notin> set U" and "extract_sv q 0 36 \<notin> set U"
  shows "same_to U t (dispatch env fd (command_code CMD_SEND) p sv) (dispatch env fd (command_code CMD_SEND) q sw)"
proof -
  have a: "alike U (sv_data sv) (sv_data sw)" "sv_ticks sw = sv_ticks sv" using assms(1) by (simp_all add: same_to_def)
  have w: "watched U t (sv_data sw)" "omap_find (sessions (sv_data sw)) fd = Some s"
    using assms(2,5) alike_sel[OF a(1)] by (simp_all add: watched_def)
  have r: "dispatch_result env fd (command_code CMD_SEND) x y
      = handle_send (env_clock env (sv_ticks y)) fd (extract_sv x 0 36) (extract_sv x 36 MAX_BODY_LENGTH) (sv_data y)"
    if "omap_find (sessions (sv_data y)) fd = Some s" for x y
    using that by (simp add: dispatch_result_def run_command_def)
  note p = third_party_send[OF assms(3,2,5,6,7)] and q = third_party_send[OF assms(4) w assms(6,8)]
  show ?thesis
  proof (rule same_to_dispatch[OF assms(1)])
    show "alike U (out_data (dispatch_result env fd (command_code CMD_SEND) p sv))
        (out_data (dispatch_result env fd (command_code CMD_SEND) q sw))"
      unfolding r[OF assms(5)] r[OF w(2)] using alike_trans[OF alike_sym[OF p(1)] alike_trans[OF a(1) q(1)]] .
  qed (simp only: r[OF assms(5)] r[OF w(2)] p(2) q(2))
qed

lemma varied_same:
  assumes "varied env U t sv rs rs'"
  shows "same_to U t sv sw \<Longrightarrow> data_ok (env_uuid env) (sv_ticks sv) (sv_data sv) \<Longrightarrow>
    data_ok (env_uuid env) (sv_ticks sw) (sv_data sw) \<Longrightarrow> good_gen (env_uuid env) (sv_ticks sv + length rs) \<Longrightarrow>
    same_to U t (dispatches env rs sv) (dispatches env rs' sw)"
  using assms
proof (induction arbitrary: sw rule: varied.induct)
  case (same sv fd c p rs rs')
  have "good_gen (env_uuid env) (sv_ticks (dispatch env fd c p sv) + length rs)"
    using same.prems(4) by (rule good_gen_mono) (simp add: dispatch_ticks_def)
  from same.IH[OF same_to_command[OF same.prems(1) same.hyps(1)] ok.dispatch[OF refl same.prems(2)]
      ok.dispatch[OF refl same.prems(3)] this]
  show ?case by (simp only: dispatches.simps)
next
  case (other sv fd s p p' rs rs')
  have wf: "wf_data (sv_data sv)" "wf_data (sv_data sw)"
    using other.prems good_gen_mono[OF other.prems(4)] by (auto simp: data_ok_def same_to_def)
  have "good_gen (env_uuid env) (sv_ticks (dispatch env fd (command_code CMD_SEND) p sv) + length rs)"
    using other.prems(4) by (rule good_gen_mono) (simp add: dispatch_ticks_def)
  from other.IH[OF same_to_other[OF other.prems(1) other.hyps(1) wf other.hyps(2-5)]
      ok.dispatch[OF refl other.prems(2)] ok.dispatch[OF refl other.prems(3)] this]
  show ?case by (simp only: dispatches.simps)
qed simp

section \<open>Two users\<close>

text \<open>A second connection, on which Bob logs in while Alice writes to herself.\<close>

definition sample_two :: server where
  "sample_two = handle_new_connection 5 sample_run"

definition note_to_self :: "byte \<Rightarrow> request" where
  "note_to_self b = (4, command_code CMD_SEND, take 36 (sample_uuid 0) @ replicate 512 b)"

definition sample_requests :: "byte \<Rightarrow> request list" where
  "sample_requests b = [(5, command_code CMD_LOGIN, set_fixed_name [0x62]), note_to_self b, (5, command_code CMD_USERS, [])]"

lemma sample_two_reachable: "reachable sample_env sample_two"
  unfolding sample_two_def
  by (rule reachable.step[OF sample_run_reachable]) (rule server_step.accept, simp)

lemma sample_two_parts:
  "sv_data sample_two = sv_data sample_run" "sv_ticks sample_two = 1" "connected sample_two 5"
  "omap_find (sessions (sv_data sample_run)) 5 = None"
proof -
  show "omap_find (sessions (sv_data sample_run)) 5 = None"
    using sv_consistentD(3)[OF consistent_reachable[OF sample_run_reachable], of 5]
    by (cases "omap_find (sessions (sv_data sample_run)) 5") auto
qed (simp_all add: sample_two_def handle_new_connection_def emit_def connected_def omap_find_set
    sv_consistentD(1)[OF consistent_reachable[OF sample_run_reachable]])

lemma sample_run_users: "users (sv_data sample_run)
    = [\<lparr>user_uuid = sample_uuid 0, user_name = set_fixed_name [0x61], user_is_logged = True, user_fd = 4\<rparr>]"
  unfolding sample_run_eq
  by (simp add: command_of_code_code[of CMD_LOGIN, simplified] dispatch_result_def run_command_def handle_login_def
      login_user_def find_user_by_name_def server_data0_def Let_def sample_env_def login_session_def
      trim_padded_name_cstr cstr_set_fixed_name)

definition sample_bob :: server where
  "sample_bob = dispatch sample_env 5 (command_code CMD_LOGIN) (set_fixed_name [0x62]) sample_two"

lemma sample_uuids: "cstr (sample_uuid 0) = replicate 36 0x30" "cstr (sample_uuid (Suc 0)) = 0x31 # replicate 35 0x30"
    "take 36 (sample_uuid 0) = replicate 36 0x30"
proof -
  have "0 \<notin> set (replicate 36 (0x30 :: byte))" "0 \<notin> set (0x31 # replicate 35 (0x30 :: byte))" by simp_all
  from this[THEN cstr_append_nul] show "cstr (sample_uuid 0) = replicate 36 0x30"
    "cstr (sample_uuid (Suc 0)) = 0x31 # replicate 35 0x30" by (simp_all add: sample_uuid_def)
qed (simp add: sample_uuid_def)

lemma sample_bob_sessions:
  "omap_find (sessions (sv_data sample_bob)) 5 = Some (cstr (sample_uuid 1))"
  "omap_find (sessions (sv_data sample_bob)) 4 = Some (cstr (sample_uuid 0))"
proof -
  have wf: "omap_wf (sessions (sv_data sample_run))" using sv_consistentD(2)[OF consistent_reachable[OF sample_run_reachable]] .
  show "omap_find (sessions (sv_data sample_bob)) 5 = Some (cstr (sample_uuid 1))"
    "omap_find (sessions (sv_data sample_bob)) 4 = Some (cstr (sample_uuid 0))"
    using sample_run_simps(3) wf
    by (simp_all add: sample_bob_def command_of_code_code[of CMD_LOGIN] dispatch_result_def run_command_def handle_login_def
        login_user_def find_user_by_name_def Let_def sample_env_def login_session_def sample_two_parts sample_run_users
        trim_padded_name_cstr cstr_set_fixed_name omap_find_set)
qed

lemma sample_varied: "varied sample_env [cstr (sample_uuid 1)] 5 sample_two (sample_requests 0x78) (sample_requests 0x79)"
proof -
  let ?U = "[cstr (sample_uuid 1)]"
  have ne: "replicate 36 0x30 \<noteq> 0x31 # replicate 35 (0x30 :: byte)" by (simp add: numeral_eq_Suc)
  have "sessions (out_data (dispatch_result sample_env 4 (command_code CMD_SEND) p sample_bob)) = sessions (sv_data sample_bob)" for p
    by (simp add: dispatch_result_def run_command_def sample_bob_sessions frame_simps)
  then have w: "watched ?U 5 (sv_data (dispatch sample_env 4 (command_code CMD_SEND) p sample_bob))" for p
    by (simp add: watched_def sample_bob_sessions)
  have "varied sample_env ?U 5 sample_bob [note_to_self 0x78, (5, command_code CMD_USERS, [])]
      [note_to_self 0x79, (5, command_code CMD_USERS, [])]"
    unfolding note_to_self_def
  proof (rule varied.other)
    show "watched ?U 5 (sv_data sample_bob)" by (simp add: watched_def sample_bob_sessions)
    show "omap_find (sessions (sv_data sample_bob)) 4 = Some (cstr (sample_uuid 0))" by (rule sample_bob_sessions)
    show "varied sample_env ?U 5 (dispatch sample_env 4 (command_code CMD_SEND) (take 36 (sample_uuid 0) @ replicate 512 0x78) sample_bob)
        [(5, command_code CMD_USERS, [])] [(5, command_code CMD_USERS, [])]" by (intro varied.same varied.none w)
  qed (simp_all add: sample_uuids ne)
  then show ?thesis
    unfolding sample_requests_def
    by (intro varied.same) (simp_all add: watched_def sample_two_parts sample_bob_def)
qed

section \<open>Property\<close>

text \<open>C8: What a connection receives does not depend on other people's private messages: replace, in any
  sequence of requests of any clients, the texts and receivers of private messages between users outside
  a group by others outside it; as long as only members of the group log in on a connection, it receives
  byte for byte the same.\<close>

theorem others_messages_invisible:
  assumes "reachable env sv" and "good_gen (env_uuid env) (sv_ticks sv + length rs)" and "connected sv t"
    and "varied env U t sv rs rs'"
  shows "send_of (dispatches env rs' sv) t = send_of (dispatches env rs sv) t"
proof -
  have "same_to U t sv sv" using assms(3) by (simp add: same_to_def)
  then have "same_to U t (dispatches env rs sv) (dispatches env rs' sv)"
    by (rule varied_same[OF assms(4)])
      (use ok.reachable[OF refl data_ok0 assms(1)] assms(2) in simp_all)
  then show ?thesis by (simp add: same_to_def)
qed

theorem others_messages_invisible_witness:
  "send_of (dispatches sample_env (sample_requests 0x79) sample_two) 5
     = send_of (dispatches sample_env (sample_requests 0x78) sample_two) 5"
proof -
  have "good_gen (env_uuid sample_env) (sv_ticks sample_two + length (sample_requests 0x78))"
    by (rule good_gen_mono[OF sample_gen]) (simp add: sample_two_parts sample_requests_def)
  then show ?thesis
    using others_messages_invisible[OF sample_two_reachable _ sample_two_parts(3) sample_varied] by blast
qed

end
