(* ===== verification/Programs.thy ===== *)
theory Programs
  imports Server_Loop Client_Net
begin

text \<open>
  The two \<open>main\<close> functions (src/server/main.cpp, src/client/main.cpp): their arguments, the
  exit codes, and what they construct and run. The arguments are those after the program's
  name; what the system calls return is an argument, as in Server_Loop and Client_Net.
\<close>

section \<open>The standard library's number reader\<close>

text \<open>\<open>std::atoi\<close>: white space, a sign, digits; the rest is ignored. A value that is not an \<open>int\<close> is
  undefined behaviour, here \<open>None\<close>.\<close>

definition is_space :: "char \<Rightarrow> bool" where
  "is_space c \<longleftrightarrow> c = CHR '' '' \<or> 9 \<le> (of_char c :: nat) \<and> (of_char c :: nat) \<le> 13"

definition is_digit :: "char \<Rightarrow> bool" where
  "is_digit c \<longleftrightarrow> 48 \<le> (of_char c :: nat) \<and> (of_char c :: nat) \<le> 57"

fun digits_value :: "int \<Rightarrow> string \<Rightarrow> int" where
  "digits_value acc [] = acc"
| "digits_value acc (c # cs) =
     (if is_digit c then digits_value (10 * acc + (int (of_char c) - 48)) cs else acc)"

definition atoi :: "string \<Rightarrow> int option" where
  "atoi s =
     (let t = dropWhile is_space s;
          n = (if t \<noteq> [] \<and> hd t = CHR ''-'' then - digits_value 0 (tl t)
               else if t \<noteq> [] \<and> hd t = CHR ''+'' then digits_value 0 (tl t)
               else digits_value 0 t)
      in if - (2 ^ 31) \<le> n \<and> n < 2 ^ 31 then Some n else None)"

section \<open>The programs\<close>

text \<open>How a program ends: its exit code, what it printed itself and the object it has destroyed, if it
  got that far; or it is still in its loop.\<close>

datatype 'a program_end = Exited int "string list" "'a option" | Undefined | Running 'a

definition server_usage :: "string list" where
  "server_usage =
     [''USAGE: ./myteams_server port'',
      CHR 0x09 # ''port is the port number on which the server socket listens.'']"

definition server_main :: "string list \<Rightarrow> int \<Rightarrow> int \<Rightarrow> int \<Rightarrow> env \<Rightarrow> wakeup list \<Rightarrow> server program_end" where
  "server_main args sock bind_ret listen_ret env ws =
     (if length args = 1 \<and> args ! 0 = ''--help'' then Exited 0 server_usage None
      else if length args \<noteq> 1 then Exited 84 server_usage None
      else case atoi (args ! 0) of
        None \<Rightarrow> Undefined
      | Some port \<Rightarrow>
          if port \<le> 0 \<or> port > 65535 then Exited 84 [''Invalid port number.''] None
          else (case server_new sock bind_ret listen_ret of
              Inl (what, closed) \<Rightarrow> Exited 84 [''Error: '' @ what] None
            | Inr sv \<Rightarrow>
                (case run env ws sv of
                   Returned sv' \<Rightarrow> Exited 0 [] (Some (server_delete sv'))
                 | Thrown what sv' \<Rightarrow> Exited 84 [''Error: '' @ what] (Some (server_delete sv'))
                 | Waiting sv' \<Rightarrow> Running sv')))"

definition client_usage :: "string list" where
  "client_usage =
     [''USAGE: ./myteams_cli ip port'',
      CHR 0x09 # ''ip is the server ip address on which the server socket listens'',
      CHR 0x09 # ''port is the port number on which the server socket listens'']"

definition client_main :: "string list \<Rightarrow> int \<Rightarrow> int \<Rightarrow> int \<Rightarrow> string \<Rightarrow> (nat \<Rightarrow> int) \<Rightarrow> client_wakeup list
    \<Rightarrow> client program_end" where
  "client_main args sock pton_ret connect_ret strerror net ws =
     (if length args = 1 \<and> args ! 0 = ''--help'' then Exited 0 client_usage None
      else if length args \<noteq> 2 then Exited 84 client_usage None
      else case atoi (args ! 1) of
        None \<Rightarrow> Undefined
      | Some port \<Rightarrow>
          if port \<le> 0 \<or> port > 65535 then Exited 84 [''Invalid port number.''] None
          else (case connect (args ! 0) sock pton_ret connect_ret strerror of
              Inl what \<Rightarrow> Exited 84 [what] None
            | Inr c \<Rightarrow>
                (case client_run net ws c of
                   Left_loop c' \<Rightarrow> Exited 0 [] (Some c')
                 | In_loop c' \<Rightarrow> Running c')))"

section \<open>Port numbers\<close>

text \<open>A number written in decimal, as a user types a port.\<close>

fun decimal :: "nat \<Rightarrow> string" where
  "decimal n = (if n < 10 then [char_of (48 + n)] else decimal (n div 10) @ [char_of (48 + n mod 10)])"

declare decimal.simps [simp del]

lemma digit_char:
  assumes "n < 10"
  shows "is_digit (char_of (48 + n :: nat))" and "(of_char (char_of (48 + n :: nat) :: char) :: nat) = 48 + n"
    and "\<not> is_space (char_of (48 + n :: nat))"
    and "char_of (48 + n :: nat) \<noteq> CHR ''-''" and "char_of (48 + n :: nat) \<noteq> CHR ''+''"
proof -
  show of: "(of_char (char_of (48 + n :: nat) :: char) :: nat) = 48 + n" using assms by simp
  then show "is_digit (char_of (48 + n))" using assms by (simp add: is_digit_def)
  have ne: "char_of (48 + n :: nat) \<noteq> c" if "(of_char c :: nat) < 48" for c using of that by auto
  show "\<not> is_space (char_of (48 + n))" using of ne[of "CHR '' ''"] by (simp add: is_space_def)
  show "char_of (48 + n :: nat) \<noteq> CHR ''-''" "char_of (48 + n :: nat) \<noteq> CHR ''+''"
    by (rule ne, simp)+
qed

lemma decimal_hd: "\<exists>k cs. decimal n = char_of (48 + k :: nat) # cs \<and> k < 10"
proof (induction n rule: decimal.induct)
  case (1 n)
  show ?case
  proof (cases "n < 10")
    case True
    then have "decimal n = char_of (48 + n) # []" by (simp add: decimal.simps[of n])
    then show ?thesis using True by blast
  next
    case False
    then obtain k :: nat and cs where "decimal (n div 10) = char_of (48 + k) # cs" "k < 10" using 1 by blast
    then have "decimal n = char_of (48 + k) # (cs @ [char_of (48 + n mod 10)])"
      using False by (simp add: decimal.simps[of n])
    then show ?thesis using \<open>k < 10\<close> by blast
  qed
qed

lemma digits_value_append:
  "\<forall>c \<in> set s. is_digit c \<Longrightarrow> digits_value acc (s @ t) = digits_value (digits_value acc s) t"
  by (induction s arbitrary: acc) auto

lemma decimal_digits: "c \<in> set (decimal n) \<Longrightarrow> is_digit c"
  by (induction n rule: decimal.induct) (subst (asm) (2) decimal.simps, auto simp: digit_char split: if_splits)

lemma digits_value_decimal: "digits_value 0 (decimal n) = int n"
proof (induction n rule: decimal.induct)
  case (1 n)
  have "10 * int (n div 10) + int (n mod 10) = int n" by presburger
  then show ?case using 1 digit_char(1,2)[of "n mod 10"] digit_char(1,2)[of n]
    by (subst decimal.simps) (auto simp: digits_value_append decimal_digits)
qed

lemma atoi_decimal: "int n < 2 ^ 31 \<Longrightarrow> atoi (decimal n) = Some (int n)"
proof -
  assume n: "int n < 2 ^ 31"
  obtain k cs where d: "decimal n = char_of (48 + k :: nat) # cs" "k < 10" using decimal_hd by blast
  then have "dropWhile is_space (decimal n) = decimal n" by (simp add: digit_char)
  then show ?thesis
    using n digits_value_decimal[of n] d digit_char(4,5)[OF d(2)] by (simp add: atoi_def Let_def)
qed

lemma decimal_not_help: "decimal n \<noteq> ''--help''"
proof -
  obtain k :: nat and cs where "decimal n = char_of (48 + k) # cs" "k < 10" using decimal_hd by blast
  then show ?thesis using digit_char(4)[of k] by simp
qed

text \<open>C38: Given a decimal number that fits an \<open>int\<close>, the server program ends with 84 before serving
  anybody exactly if the number is not a port, 1 to 65535, or the socket cannot be opened, bound or
  put to listen; otherwise it enters its loop. Of a larger number nothing is claimed: what \<open>atoi\<close> does
  with it is undefined.\<close>

theorem server_port_range:
  assumes "int n < 2 ^ 31"
  shows "(\<exists>out. server_main [decimal n] sock bind_ret listen_ret env ws = Exited 84 out None)
    \<longleftrightarrow> n = 0 \<or> 65535 < n \<or> sock < 0 \<or> bind_ret < 0 \<or> listen_ret < 0"
  using assms
  by (auto simp: server_main_def decimal_not_help atoi_decimal server_new_def split: run_end.split)

theorem server_port_range_witness:
  "(\<exists>out. server_main [decimal 65536] 3 0 0 \<lparr>env_uuid = \<lambda>_. [], env_clock = \<lambda>_. 0\<rparr> [] = Exited 84 out None)
   \<and> \<not> (\<exists>out. server_main [decimal 4242] 3 0 0 \<lparr>env_uuid = \<lambda>_. [], env_clock = \<lambda>_. 0\<rparr> [] = Exited 84 out None)"
  using server_port_range[of 65536 3 0 0 "\<lparr>env_uuid = \<lambda>_. [], env_clock = \<lambda>_. 0\<rparr>" "[]"] server_port_range[of 4242 3 0 0 "\<lparr>env_uuid = \<lambda>_. [], env_clock = \<lambda>_. 0\<rparr>" "[]"] by simp

section \<open>The end of the client\<close>

text \<open>C37: The answer to \<open>/logout\<close> ends the client: in the round in which it arrives the client stops
  running, whatever the terminal does, and the loop is left before the next poll.\<close>

theorem client_stops_on_logout:
  assumes "cl_running c" and "cl_recv_buf c = []"
    and "cr_sock_in r" and "cr_sock_read r = Some (make_message (response_code RES_LOGOUT_OK) p)"
    and "length p < 2 ^ 32"
  shows "\<exists>c'. client_loop net (CW_ready r # ws) c = Left_loop c' \<and> \<not> cl_running c'"
proof -
  have read: "\<not> cl_running (handle_server_read (cr_sock_read r) c2)" if "cl_recv_buf c2 = []" for c2
    using cl_reads[of "[(response_code RES_LOGOUT_OK, p)]" "[make_message (response_code RES_LOGOUT_OK) p]" c2]
      assms(4,5) that by (simp add: handle_response_def)
  have "cl_recv_buf (if cr_stdin_in r then handle_stdin net (cr_stdin_read r) c else c) = []"
    using assms(2) by (simp add: handle_stdin_recv_buf)
  then have "\<not> cl_running (client_round net r c)"
    using read assms(3) by (simp add: client_round_def Let_def)
  moreover have "client_loop net ws c' = Left_loop c'" if "\<not> cl_running c'" for c'
    using that by (cases ws) auto
  ultimately show ?thesis using assms(1) by simp
qed

theorem client_stops_on_logout_witness:
  "\<exists>c'. client_loop (\<lambda>_. 0)
      [CW_ready \<lparr>cr_stdin_in = False, cr_stdin_read = None, cr_sock_out = False, cr_sock_in = True,
         cr_sock_read = Some (make_message (response_code RES_LOGOUT_OK) (zeros 68)), cr_sock_hup = False\<rparr>]
      (client0\<lparr>cl_running := True\<rparr>) = Left_loop c' \<and> \<not> cl_running c'"
  by (rule client_stops_on_logout[where p = "zeros 68"]) (simp_all add: client0_def)

end
