(* ===== verification/Spec2Isabelle.thy ===== *)
theory Spec2Isabelle
  imports Network_Properties Privacy Secrecy Programs
begin

text \<open>
  MyTeams is a chat service in two programs, a server and a terminal client, that speak a binary
  protocol over TCP. This library models both programs and shows that they do what they promise.

  The program. A user types a command into the client. The client parses the line
  (src/client/Command_parser.cpp), dispatches it by name (Command_dispatch.cpp, Individual.cpp) and
  writes a packet: a 16-bit code, a 32-bit length and a payload of fixed-width fields (Packet.cpp,
  Helpers.cpp). The server (src/server/Server.cpp) waits in \<open>poll\<close>, appends what it reads to the
  receive buffer of the connection, cuts whole frames off it, and hands each to a handler
  (src/server/handlers). A handler works on one shared structure (include/data.hpp): users, sessions
  by descriptor, the context each session has selected, the tree of teams, channels, threads and
  replies, and the private messages. It returns one response and a list of pushes
  (include/mtp.hpp), which the server queues on the send buffers and writes when \<open>poll\<close> allows. The
  client cuts the stream into messages the same way (Network.cpp) and passes each to the logging
  library, which prints it (Server_response.cpp).

  Where the code is (file names under src/, the header and library folders under src/include and
  src/libs):

  Prelude, Ordered_Map, Endian: C strings, arrays and searches; \<open>std::map\<close> as a sorted association
  list; integers of 16, 32 and 64 bits, the memory of a little-endian and of a big-endian host, and
  the byte swaps of \<open>htonll\<close> and \<open>read_i64\<close>.

  Protocol, Data_Model: include/protocole.hpp (one datatype per enumeration, with its numbers) and
  include/data.hpp, include/mtp.hpp (one record per struct; a \<open>char\<close> array is the list of its bytes,
  a vector is a list), with the calls of libs/myteams/logging_server.h as data.

  Wire, Lookup, Result: the helpers of server/handlers/mtp_detail.hpp and the shapes a handler's
  result takes. A pointer into a vector is the index of the element, \<open>nullptr\<close> is \<open>None\<close>.

  Auth, Users, Messages, Subscriptions, Context, Create, Listing (with Team_Tree for writing into the
  tree and for the blocks several handlers serialise): the handlers of the files mtp_auth.cpp,
  mtp_users.cpp, mtp_messages.cpp, mtp_subscriptions.cpp, mtp_context.cpp, mtp_create.cpp,
  mtp_list.cpp and mtp_info.cpp. A handler is a function from its arguments and the data to the new
  data, the result and the logging calls; every early return is a branch.

  Business, Server, Server_Loop: server/Server.cpp. Business is the switch of \<open>_dispatch\<close>. Server
  holds the record of clients, buffers and the trace of what the server did to the outside, and the
  functions \<open>_handle_new_connection\<close>, \<open>_handle_client_read\<close>, \<open>_process_recv_buffer\<close>, \<open>_dispatch\<close>,
  \<open>_send_result\<close>, \<open>_handle_client_write\<close> and \<open>_handle_client_disconnect\<close>. Server_Loop holds the
  constructor, the list for \<open>poll\<close>, \<open>run\<close>, \<open>shutdown\<close>, the destructor, and the relation
  \<open>server_step\<close> whose reachable states the invariants are about.

  Client_Helpers, Client_Parser, Client, Client_Response, Client_Net: client/Helpers.cpp;
  Command_parser.cpp; Client.hpp, Packet.cpp, Individual.cpp, Command_dispatch.cpp and
  Command_help.cpp; Server_response.cpp; Network.cpp, stdin_handling.cpp, Constructor.cpp and
  Client.cpp. The record \<open>client\<close> holds the fields of the class and the trace of its writes, its
  output and its calls of libs/myteams/logging_client.h.

  Programs: server/main.cpp and client/main.cpp, arguments, exit codes and the loops.

  Network: both programs at once. A state of the relation \<open>network_step\<close> holds the server and, for each
  client, its state, the descriptor it has at the server and the bytes in flight in both directions. A
  step is a new connection, the service of one descriptor by the server (which reads any part of what is
  in flight), a round of one client's loop, or \<open>SIGINT\<close>.

  Shared contracts. \<open>ordered_map\<close> (Ordered_Map) is what the handlers rely on of \<open>std::map\<close>.
  \<open>frame_splitter\<close> (Framing) states when the frames found in a stream do not depend on how it was cut
  into reads; the server's loop, the client's loop and the client's reading of lines are its
  instances. \<open>data_invariant\<close> (Business) states what every handler keeps; carried once through
  dispatch, buffers and loop it serves the well-formedness of the data, its growth, and the
  refinement of the specification. \<open>stream_contract\<close> and \<open>output_contract\<close> (Server_Output) extend it to
  what has been sent on a connection: a claim about the data and the bytes of one descriptor, or about
  each message by itself, that every answer keeps holds of the stream of every reachable server; its
  instances are the wire format and the truth of what is sent (Backing) and the confidentiality of
  messages (Privacy). \<open>record_codec\<close> (Client_Helpers) says that a list of fixed-width
  records is read back as it was written; it is interpreted for each record the protocol has.

  The specification. Service_Spec says without arrays, indices or buffers what the service promises:
  a world (who exists, who sits where, who is a member of what, what is stored at which place, what
  was sent), when an action is allowed, and its one effect. Service_Refinement reads the world off the
  server's data and shows of each handler that it succeeds exactly when its action is allowed, and
  then has exactly that effect. Invariants of the world (\<open>sane\<close>) carry over to the server.

  What the lemmas show. Invariant and the theories of the handlers: the data stays well formed (lengths
  of arrays, unique UUIDs, every reference resolves), states only grow, and each UUID used was handed
  out by libuuid. Server_Stream: the receive loop is a splitter followed by one dispatch per frame.
  Server_Output: what a client is sent is a sequence of whole messages that only grows. Team_Views: what
  the blocks of a place contain and who hears of a creation. Message_Size: how long a payload gets.
  Layout: the message tables of doc/RFC.md, and that every message sent has the code and the length
  its table gives. Backing: each message, read by the client, says what is stored. Exchange: one
  request over an idle connection, and what the client shows for each answer. Privacy: who is shown
  private messages. Blind and Secrecy: two runs of the server that differ in the private messages of
  third parties go on alike and send an observer the same bytes. Delivery: the pieces in which bytes move
  between a client and the server, a measure of how far they have to go, and the outcome that no piece
  changes. The properties are in
  Team_Properties, Server_Properties, Account_Properties, Message_Properties, Client_Properties,
  Network_Properties, Privacy, Secrecy, Programs and this theory: refinement and safety of the
  commands, the receive and send paths of the server, the client's parser and framing, the two
  programs together, and the whole service with any number of clients. Sample holds the concrete states the
  instances use.

  Outside the model. What the operating system returns is an argument: the result of \<open>accept\<close>,
  \<open>read\<close>, \<open>write\<close>, \<open>poll\<close>, \<open>connect\<close>. \<open>uuid_generate\<close> and \<open>uuid_unparse\<close> of libuuid are the
  sequence \<open>env_uuid\<close>, \<open>time\<close> is \<open>env_clock\<close>; a property that needs it assumes that the UUIDs handed
  out so far are distinct, 36 bytes long and NUL-terminated (\<open>good_gen\<close>), and Sample has a generator
  of which that is true. The logging library is a binary; its calls are recorded with their arguments.

  Bounds. A loop that reads a buffer is a function that terminates on the buffer's length, so no fuel is
  needed. The two outer loops run over a list of wake-ups, the history of what \<open>poll\<close> returned; a list
  that ends while the loop still waits gives \<open>Waiting\<close> or \<open>In_loop\<close>, which no property counts as an
  end. Counts are 32 bits wide, so the properties that compare a whole list with what is shown assume
  fewer than \<open>2 ^ 32\<close> entries, and those about the whole service that no stored list has more than
  \<open>2 ^ 22\<close> (\<open>small\<close>, Message_Size), which keeps the length field of every message from wrapping. A
  \<open>read\<close> returns a piece of any size in the steps of the network, and at most the 4096 bytes the code asks
  for in a transfer (Delivery). The server drops a client that announces a payload of more than
  65535 bytes; the client has no limit but the 32 bits of the length field.

  Not modelled. Storing and reloading the data (announced in the README, not in the code).
  \<open>SIGPIPE\<close>, which is not caught, and the blocking of a \<open>write\<close> on a socket that is full: \<open>write\<close> always
  returns here. Installing the signal handler; a signal is a wake-up. Memory exhaustion. The text
  the shared logging library prints, and \<open>server_event_user_loaded\<close>, which is never called.
  src/tests (a shell script) and src/doc_assets (style sheets).

  What modelling showed. A second login on a connection leaves the previous user marked as logged in
  without a session, and nobody is told (\<open>second_login_strands_user\<close>, Account_Properties). The code
  \<open>ERR_ALREADY_EXISTS\<close> of doc/RFC.md is never sent (\<open>messages_follow_rfc\<close>, Network_Properties). The
  branches of the handlers of \<open>/create\<close>, \<open>/list\<close> and \<open>/info\<close> that answer an unknown place are never
  taken, since nothing is ever removed (\<open>speak_run_command\<close>, Layout). A login name of more than 32 bytes
  never matches the name stored for it (\<open>long_name_duplicates\<close>, Account_Properties); the client of this
  program cuts names, so that with it names stay distinct (\<open>names_stay_distinct\<close>, Network_Properties). Who
  writes to themselves gets no event on the connection they write on
  (\<open>message_reaches_receiver_only\<close>, Message_Properties). The client selects a place before the server agrees
  (\<open>refused_use_misdirects_create\<close>, below). Leaving a team does not leave the place selected in it
  (\<open>unsubscribed_still_reads\<close>, Team_Properties). The parser takes words without quotes
  (\<open>bare_arguments_accepted\<close>, Client_Properties).
\<close>

section \<open>Logging in, from the keyboard to the screen\<close>

text \<open>C16: When a user types \<open>/login "name"\<close>, the bytes the client sends make the server open a session,
  and the server's answer makes the client report the login of exactly that user under that name and
  remember the user's UUID.\<close>

theorem login_end_to_end:
  assumes "reachable env sv" and "good_gen (env_uuid env) (Suc (sv_ticks sv))"
    and "connected sv fd" and "recv_of sv fd = []" and "send_of sv fd = []" and "cl_recv_buf c = []"
    and "DQUOTE \<notin> set name" and "0 \<notin> set (bytes_of name)" and "length name \<le> 32"
  shows "let c1 = handle_line net (command_line ''login'' [name]) c;
             bs = drop (length (cl_sent c)) (cl_sent c1);
             sv' = handle_client_read env fd (Some bs) sv;
             c2 = handle_server_read (Some (send_of sv' fd)) c1
    in \<exists>u. omap_find (sessions (sv_data sv')) fd = Some u
      \<and> cl_user_uuid c2 = string_of u
      \<and> cl_trace c2 = cl_trace c1 @ [CL_call (client_event_logged_in (string_of u) name)]"
proof -
  let ?p = "pack_fixed [] name 32" and ?k = "command_code CMD_LOGIN"
  let ?c1 = "send_packet net CMD_LOGIN ?p c"
  let ?fresh = "env_uuid env (sv_ticks sv)" and ?d = "sv_data sv"
  let ?r = "handle_login ?fresh fd ?p ?d" and ?sv' = "handle_client_read env fd (Some (make_message ?k ?p)) sv"
  have bs: "drop (length (cl_sent c)) (cl_sent ?c1) = make_message ?k ?p" by simp
  note ok = ok.reachable[OF refl data_ok0 assms(1)]
  have wf: "wf_data ?d" and fresh: "fresh_uuid ?fresh ?d" using data_ok_fresh[OF ok assms(2)] by auto
  have cl: "omap_wf (sv_clients sv)" using sv_consistentD(1)[OF consistent_reachable[OF assms(1)]] .
  have res: "dispatch_result env fd ?k ?p sv = ?r"
    using dispatch_result_command[of sv fd CMD_LOGIN env ?p] by (simp add: run_command_def)
  note one = one_request[OF assms(3) cl assms(4), where p = ?p and env = env and c = ?k, unfolded res]
  have name: "cstr ?p = bytes_of name" by (rule cstr_packed[OF assms(8,9)])
  obtain u where u: "u \<in> set (users (out_data ?r))" "omap_find (sessions (out_data ?r)) fd = Some (cstr (user_uuid u))"
      "cstr (user_name u) = bytes_of name"
      "pk_bytes (res_response (out_result ?r)) = make_message (response_code RES_LOGIN_OK) (name_entry u)"
    using login_outcome[OF wf fresh, of ?p fd] assms(9) unfolding name Let_def by auto
  have wu: "wf_user u"
    using wf_handle_login[OF wf fresh, of fd ?p] u(1) by (auto simp: wf_data_def wf_users_def)
  have send: "send_of ?sv' fd = make_message (response_code RES_LOGIN_OK) (name_entry u)"
    using one(2)[OF _ assms(3)] u(4) assms(5) by (simp add: delivered_def)
  have c2: "handle_server_read (Some (send_of ?sv' fd)) ?c1
    = calls [client_event_logged_in (text_of (user_uuid u)) name] ?c1\<lparr>cl_user_uuid := text_of (user_uuid u)\<rparr>"
    unfolding send using assms(6) wu u(3)
    by (simp add: client_reads_message login_calls length_name_entry del: response_code.simps)
  have "handle_line net (command_line ''login'' [name]) c = ?c1" by (rule login_line[OF assms(7)])
  then show ?thesis
    using u(2) one(1) unfolding Let_def by (simp add: bs c2 del: command_code.simps)
qed

theorem login_end_to_end_witness:
  "let c1 = handle_line (\<lambda>_. 0) (command_line ''login'' [''bob'']) client0;
       bs = drop (length (cl_sent client0)) (cl_sent c1);
       sv' = handle_client_read sample_env 4 (Some bs) sample_conn;
       c2 = handle_server_read (Some (send_of sv' 4)) c1
    in \<exists>u. omap_find (sessions (sv_data sv')) 4 = Some u \<and> cl_user_uuid c2 = string_of u
      \<and> cl_trace c2 = cl_trace c1 @ [CL_call (client_event_logged_in (string_of u) ''bob'')]"
proof (rule login_end_to_end[OF sample_conn_reachable])
  show "good_gen (env_uuid sample_env) (Suc (sv_ticks sample_conn))"
    using good_gen_mono[OF sample_gen, of 1] by simp
  show "send_of sample_conn 4 = []"
    by (simp add: send_of_def client_at_def sample_conn_def handle_new_connection_def client_state0_def omap_find_set)
  show "0 \<notin> set (bytes_of ''bob'')" by (simp add: bytes_of_def byte_of_char_def)
qed (simp_all add: client0_def DQUOTE_def)

section \<open>What the client shows is what the server stores\<close>

text \<open>C24: The answer to \<open>/list\<close> makes the client print exactly the entities of the place the session has
  selected, in the order they were created, each with the contents stored for it.\<close>

theorem place_shown_to_client:
  assumes "wf_data d" and "omap_find (sessions d) fd = Some s" and "omap_find (client_contexts d) fd = Some ctx"
    and "length (place_blocks d ctx) < 2 ^ 32"
  shows "let m = res_response (out_result (handle_list fd d)) in
    \<exists>payload. pk_bytes m = make_message (pk_code m) payload
      \<and> response_calls cl (pk_code m) payload = place_lines d ctx"
proof -
  have v: "ctx_valid d ctx" using wf_context_of_session[OF assms(1,2)] assms(3) by fastforce
  show ?thesis
    using place_lines_read[OF assms(1) v assms(4)]
    by (simp add: handle_list_blocks[OF assms(2,3) v] Let_def del: response_code.simps)
      (intro exI[of _ "counted (place_blocks d ctx)"], simp)
qed

text \<open>Bob sees the reply of the thread he has selected.\<close>

theorem place_shown_to_client_witness:
  "let m = res_response (out_result (handle_list 5 sample_data)) in
    \<exists>payload. pk_bytes m = make_message (pk_code m) payload
      \<and> response_calls client0 (pk_code m) payload = [reply_line (sid 0x68) sample_reply]"
proof -
  have b: "place_blocks sample_data (sample_context USE_THREAD)
      = map (reply_info (ctx_thread_uuid (sample_context USE_THREAD))) [sample_reply]"
    and l: "place_lines sample_data (sample_context USE_THREAD) = [reply_line (sid 0x68) sample_reply]"
    by (simp_all add: place_blocks_def place_lines_def sample_resolve)
      (simp_all add: sample_context_def sample_thread_def)
  show ?thesis
    using place_shown_to_client[OF sample_wf sample_session(2) sample_contexts(2), of client0] unfolding b l by simp
qed

text \<open>C25: The answer to \<open>/messages\<close> makes the client print the messages exchanged with that user, oldest
  first, with their senders, times and texts.\<close>

theorem conversation_shown_to_client:
  assumes "wf_data d" and "omap_find (sessions d) fd = Some s" and "find_user_by_uuid d r = Some i"
    and "length (messages d) < 2 ^ 32"
  shows "let m = res_response (out_result (handle_messages fd r d)) in
    \<exists>payload. pk_bytes m = make_message (pk_code m) payload
      \<and> response_calls cl (pk_code m) payload = map message_line (filter (between s r) (messages d))"
proof -
  let ?ms = "filter (between s r) (messages d)"
  have "length ?ms < 2 ^ 32" using assms(4) length_filter_le le_less_trans by blast
  then have "response_calls cl (response_code RES_MESSAGES_LIST) (counted (map message_entry ?ms)) = map message_line ?ms"
    using assms(1) by (intro read_messages[where ids = "user_ids d"]) (auto simp: wf_data_def wf_messages_def)
  then show ?thesis
    using handle_messages_eq[OF assms(2,3)]
    by (simp add: Let_def counted_layout[symmetric] del: response_code.simps)
      (intro exI[of _ "counted (map message_entry ?ms)"], simp)
qed

theorem conversation_shown_to_client_witness:
  "let d = out_data (handle_send 9 4 (sid 2) [0x68, 0x69] sample_data);
       m = res_response (out_result (handle_messages 5 (sid 1) d))
   in \<exists>payload. pk_bytes m = make_message (pk_code m) payload
      \<and> response_calls client0 (pk_code m) payload
          = [message_line (make_private_message (sid 1) (sid 2) [0x68, 0x69] 9)]"
proof -
  have f: "find_user_by_uuid sample_data (sid 2) = Some 1" "find_user_by_uuid sample_data (sid 1) = Some 0"
    by (simp_all add: find_user_by_uuid_def is_uuid36_def sample_data_def sample_user_def)
  let ?m = "make_private_message (sid 1) (sid 2) [0x68, 0x69] 9"
  have d: "out_data (handle_send 9 4 (sid 2) [0x68, 0x69] sample_data) = sample_data\<lparr>messages := messages sample_data @ [?m]\<rparr>"
    by (rule handle_send_sent(1)[OF sample_session(1) f(1)])
  have wf: "wf_data (sample_data\<lparr>messages := messages sample_data @ [?m]\<rparr>)"
    using wf_handle_send[OF sample_wf, of 9 4 "sid 2" "[0x68, 0x69]"] unfolding d .
  have "messages sample_data = []" by (simp add: sample_data_def)
  moreover have "between (sid 2) (sid 1) ?m" by (simp add: between_def)
  moreover have "find_user_by_uuid (sample_data\<lparr>messages := messages sample_data @ [?m]\<rparr>) (sid 1) = Some 0"
    using f(2) find_user_by_uuid_cong[of "sample_data\<lparr>messages := messages sample_data @ [?m]\<rparr>" sample_data] by simp
  ultimately show ?thesis
    using conversation_shown_to_client[OF wf, of 5 "sid 2" "sid 1" 0 client0] unfolding d Let_def by simp
qed

text \<open>The answer to \<open>/users\<close> makes the client print every user once, in the order of their creation,
  with the name and whether the user has a session.\<close>

theorem users_shown_to_client:
  assumes "wf_data d" and "omap_find (sessions d) fd = Some s" and "length (users d) < 2 ^ 32"
  shows "let m = res_response (out_result (handle_users fd d)) in
    \<exists>payload. pk_bytes m = make_message (pk_code m) payload
      \<and> response_calls cl (pk_code m) payload = map (user_line d) (users d)"
proof -
  have "response_calls cl (response_code RES_USERS_LIST) (counted (map (user_entry d) (users d))) = map (user_line d) (users d)"
    using assms(1) by (intro read_users[OF _ assms(3)]) (auto simp: wf_data_def wf_users_def)
  then show ?thesis
    using assms(2)
    by (simp add: handle_users_def is_logged_in_def users_payload append_u32_layout counted_layout[symmetric] Let_def
        del: response_code.simps)
      (intro exI[of _ "counted (map (user_entry d) (users d))"], simp)
qed

theorem users_shown_to_client_witness:
  "let m = res_response (out_result (handle_users 4 sample_data)) in
    \<exists>payload. pk_bytes m = make_message (pk_code m) payload
      \<and> response_calls client0 (pk_code m) payload = map (user_line sample_data) (users sample_data)"
  by (rule users_shown_to_client[OF sample_wf sample_session(1)]) (simp add: sample_data_def)

section \<open>The server's stream and the client's loop\<close>

text \<open>C32: The client splits the stream a reachable server has put on its connection into whole messages
  without a remainder, as long as the stream is shorter than 4 GiB.\<close>

theorem client_splits_server_stream:
  assumes "reachable env sv" and "connected sv fd" and "length (sv_sent sv fd) < 2 ^ 32"
  shows "\<exists>ms. frames cl_split (sv_sent sv fd) = (ms, [], False)
    \<and> sv_sent sv fd = concat (map (\<lambda>(c, p). make_message c p) ms)"
proof -
  obtain ms where ms: "sv_sent sv fd = concat (map (\<lambda>(c, p). make_message c p) ms)"
    using stream_messages[OF assms(1,2)] by (auto simp: messages_of_def)
  have "length (snd m) < 2 ^ 32" if "m \<in> set ms" for m
  proof -
    have "length (snd m) \<le> length (make_message (fst m) (snd m))" by simp
    also have "\<dots> \<le> length (sv_sent sv fd)"
      unfolding ms length_concat using that
      by (intro member_le_sum_list) (auto intro!: rev_image_eqI[of m] simp: case_prod_unfold)
    finally show ?thesis using assms(3) by simp
  qed
  then show ?thesis using cl_frames_messages[of ms] ms by auto
qed

theorem client_splits_server_stream_witness:
  "\<exists>ms. frames cl_split (sv_sent sample_conn 4) = (ms, [], False)
    \<and> sv_sent sample_conn 4 = concat (map (\<lambda>(c, p). make_message c p) ms)"
proof (rule client_splits_server_stream[OF sample_conn_reachable])
  show "length (sv_sent sample_conn 4) < 2 ^ 32"
    by (simp add: sv_sent_def sample_conn_def handle_new_connection_def emit_def send_of_def client_at_def
        client_state0_def omap_find_set server0_def)
qed simp

section \<open>Two contexts\<close>

text \<open>C29: The client changes its own context when it sends \<open>/use\<close>, before the server has answered, and does
  not take the change back when the server refuses. A user at the top level who selects a channel of
  an unknown team and then creates a thread is refused the first and, by the second, creates a
  team: named by the thread's title and described by the first 255 bytes of its body.\<close>

definition command :: "string \<Rightarrow> string list \<Rightarrow> parsed_command" where
  "command name args = \<lparr>pc_name = name, pc_args = args, pc_valid = True, pc_error = []\<rparr>"

theorem refused_use_misdirects_create:
  assumes "wf_data d" and "fresh_uuid fresh d"
    and "omap_find (sessions d) fd = Some s" and "omap_find (client_contexts d) fd = Some ctx"
    and "ctx_level ctx = use_code USE_NONE"
    and "find_team_by_uuid d (pack_fixed [] t 36) = None"
  shows "let c1 = client_dispatch net (command ''use'' [t, ch]) c;
             c2 = client_dispatch net (command ''create'' [title, body]) c1;
             p1 = use_code USE_CHANNEL # pack_fixed [] t 36 @ pack_fixed [] ch 36;
             p2 = pack_fixed [] title 32 @ pack_fixed [] body 512;
             r1 = run_command CMD_USE fresh0 now fd p1 d;
             r2 = run_command CMD_CREATE fresh now fd p2 (out_data r1)
    in cl_sent c2 = cl_sent c @ make_message (command_code CMD_USE) p1 @ make_message (command_code CMD_CREATE) p2
      \<and> refused r1 \<and> \<not> refused r2
      \<and> w_node (world_of (out_data r2)) [cstr fresh]
          = Some (Team_node (pack_fixed [] title 32) (pack_fixed [] body 255))"
proof -
  let ?t = "pack_fixed [] t 36" and ?ch = "pack_fixed [] ch 36"
  let ?p1 = "use_code USE_CHANNEL # ?t @ ?ch" and ?p2 = "pack_fixed [] title 32 @ pack_fixed [] body 512"
  let ?c1 = "client_dispatch net (command ''use'' [t, ch]) c"
  have lvl: "cl_use_level ?c1 = USE_CHANNEL" by (simp add: client_dispatch_def command_def cmd_use_def)
  have sent: "cl_sent (client_dispatch net (command ''create'' [title, body]) ?c1)
    = cl_sent c @ make_message (command_code CMD_USE) ?p1 @ make_message (command_code CMD_CREATE) ?p2"
    unfolding client_dispatch_sent lvl
    by (simp add: client_dispatch_sent command_def request_def request_bytes_def del: command_code.simps)
  have path: "use_path ?p1 = [?t, ?ch]"
    by (simp add: use_path_levels(3)) (simp add: use_uuid_def)
  have "use_ok ?p1" by (simp add: use_ok_def)
  moreover have "\<not> allowed (world_of d) fd (Move [?t, ?ch])"
    using assms(6) by (simp add: allowed_Move[OF assms(3)] lookup_nodes)
  ultimately have r1: "refused (handle_use fd ?p1 d) \<and> out_data (handle_use fd ?p1 d) = d"
    using handle_use_implements[of ?p1 d fd] unfolding path by (simp add: implements_def del: world_of_sel)
  have q: "place_of ctx = []" by (rule place_of_context(1)[OF assms(5)])
  have free: "w_node (world_of d) [cstr fresh] = None" by (rule world_add_team(2)[OF assms(1,2)])
  have allowed: "allowed (world_of d) fd (Create (cstr fresh) ?p2 now)"
    unfolding allowed_Create_at[OF assms(3,4)] q using free by (simp add: node_bytes_def may_enter_def)
  have r2: "\<not> refused (handle_create fresh now fd ?p2 d)"
      "world_of (out_data (handle_create fresh now fd ?p2 d)) = perform fd (Create (cstr fresh) ?p2 now) (world_of d)"
    using handle_create_implements[OF assms(1,2), of fd ?p2 now] allowed by (simp_all add: implements_def del: world_of_sel)
  have "w_node (world_of (out_data (handle_create fresh now fd ?p2 d))) [cstr fresh]
      = Some (Team_node (pack_fixed [] title 32) (take 255 (pack_fixed [] body 512)))"
    unfolding r2(2) perform_Create_at[OF assms(3,4)] q by (simp add: new_node_def)
  moreover have "take 255 (pack_fixed [] body 512) = pack_fixed [] body 255"
    by (simp add: pack_fixed_layout min_def zeros_def) presburger
  ultimately show ?thesis
    using sent r1 r2(1) unfolding Let_def by (simp add: run_command_def)
qed

theorem refused_use_misdirects_create_witness:
  "let c1 = client_dispatch (\<lambda>_. 0) (command ''use'' [''t'', ''c'']) client0;
       c2 = client_dispatch (\<lambda>_. 0) (command ''create'' [''title'', ''body'']) c1;
       p1 = use_code USE_CHANNEL # pack_fixed [] ''t'' 36 @ pack_fixed [] ''c'' 36;
       p2 = pack_fixed [] ''title'' 32 @ pack_fixed [] ''body'' 512;
       r1 = run_command CMD_USE [] 0 4 p1 sample_data;
       r2 = run_command CMD_CREATE (sid37 0x7A) 0 4 p2 (out_data r1)
    in cl_sent c2 = cl_sent client0 @ make_message (command_code CMD_USE) p1 @ make_message (command_code CMD_CREATE) p2
      \<and> refused r1 \<and> \<not> refused r2
      \<and> w_node (world_of (out_data r2)) [cstr (sid37 0x7A)]
          = Some (Team_node (pack_fixed [] ''title'' 32) (pack_fixed [] ''body'' 255))"
proof (rule refused_use_misdirects_create[OF sample_wf sample_fresh sample_session(1) sample_contexts(1)])
  have "sid 0x74 \<noteq> pack_fixed [] ''t'' 36"
  proof
    assume "sid 0x74 = pack_fixed [] ''t'' 36"
    then have "sid 0x74 ! 1 = pack_fixed [] ''t'' 36 ! 1" by simp
    then show False by (simp add: sid_def pack_fixed_def)
  qed
  then show "find_team_by_uuid sample_data (pack_fixed [] ''t'' 36) = None"
    by (simp add: find_team_by_uuid_def sample_data_def sample_team_def)
qed (simp add: context0_def)

end
